theory Spec2Isabelle
  imports Complex_Main "HOL-Library.Char_ord" "HOL-Library.Sublist" "HOL-Library.Code_Target_Nat"
begin

section \<open>Strings\<close>

text \<open>
  A string of the program is a sequence of 16-bit code units, and the program reads a
  string code unit by code unit (\<open>input[position]\<close>, \<open>length\<close>). A code unit is modelled by
  its number, a natural number; no definition makes use of the bound \<open>0xFFFF\<close>. The
  literals of the source are written \<open>js ''...''\<close> (a string) and \<open>ch CHR ''c''\<close> (one code
  unit), where \<open>ch\<close> gives the number of a character below 256.
\<close>

type_synonym codeunit = nat

type_synonym jsstring = "codeunit list"

definition ch :: "char \<Rightarrow> codeunit" where
  "ch c = of_char c"

definition js :: "char list \<Rightarrow> jsstring" where
  "js s = map ch s"

declare ch_def [simp]

lemma js_inject [simp]: "js a = js b \<longleftrightarrow> a = b"
  by (simp add: js_def inj_map_eq_map inj_on_def)

lemma js_Nil [simp]: "js [] = []" "js a = [] \<longleftrightarrow> a = []" "[] = js a \<longleftrightarrow> a = []"
  by (auto simp: js_def)

lemma js_Cons: "js (c # s) = ch c # js s"
  by (simp add: js_def)

lemma length_js [simp]: "length (js s) = length s"
  by (simp add: js_def)

section \<open>Tokens (types.ts)\<close>

text \<open>
  The token kinds. \<open>PROP\<close>, \<open>PROD\<close> and \<open>TYPE\<close> are reserved words of the term language, so the
  kinds of that name carry the suffix \<open>_KW\<close>. The kinds \<open>COMPONENT\<close>, \<open>DATA\<close>,
  \<open>STREAM\<close>, \<open>THERMODYNAMIC\<close>, \<open>PRINT\<close>, \<open>PROP\<close>, \<open>TYPE\<close>, \<open>INPUT\<close> and \<open>RESULT\<close> are the ones
  parser.ts tests for; \<open>NSTAGE\<close> and \<open>COND\<close> are named by lexer.test.ts.
\<close>

datatype TokenType =
    NUMBER | IDENTIFIER | STRING
  | COMPONENT | DATA | STREAM | THERMODYNAMIC | UNIT_OPERATIONS | PRINT
  | FLASH | COLUMN | HCURVE | HX | COMPRESSOR | PUMP | MIXER | SPLITTER | VALVE
  | REACTOR | CALCULATOR | STCALC
  | UID | NAME | FEED | PROD_KW | PRODUCT | TEMP | TEMPERATURE | PRES | PRESSURE | RATE
  | COMP | PROP_KW | LIBID | BANK | METHOD | SET | SPEC | VARY | DEFINE
  | TYPE_KW | INPUT | RESULT | NSTAGE | COND
  | SRK | PR | NRTL
  | EQUALS | COMMA | SLASH | PLUS | MINUS | TIMES | DIVIDE | LPAREN | RPAREN
  | COMMENT | CONTINUATION | NEWLINE
  | EOF | UNKNOWN

text \<open>The interface \<open>Token\<close>: \<open>{type, value, line, column, length}\<close>.\<close>

record Token =
  tok_type :: TokenType
  tok_value :: jsstring
  tok_line :: nat
  tok_column :: nat
  tok_length :: nat

text \<open>
  \<open>String.prototype.toUpperCase\<close> and \<open>toLowerCase\<close> belong to the runtime; they map a
  string code point by code point, by the case mappings of the Unicode tables, and a
  code point may become several code units (\<open>0xDF\<close>, the sharp s, becomes \<open>SS\<close>). The two
  functions below are these mappings on the code units up to \<open>0xFF\<close> (Basic Latin and
  Latin-1), on the six code points whose lower case has another upper case than they
  have themselves (\<open>0x130\<close>, \<open>0x3F4\<close>, \<open>0x1E9E\<close>, \<open>0x2126\<close>, \<open>0x212A\<close>, \<open>0x212B\<close>), and on
  the letters these are mapped to. Every other code unit is kept, where the runtime
  maps the further letters of the tables.
\<close>

definition upperUnit :: "codeunit \<Rightarrow> jsstring" where
  "upperUnit c =
     (if 0x61 \<le> c \<and> c \<le> 0x7A then [c - 0x20]
      else if c = 0xB5 then [0x39C]
      else if c = 0xDF then [0x53, 0x53]
      else if 0xE0 \<le> c \<and> c \<le> 0xFE \<and> c \<noteq> 0xF7 then [c - 0x20]
      else if c = 0xFF then [0x178]
      else if c = 0x3B8 then [0x398]
      else if c = 0x3BC then [0x39C]
      else if c = 0x3C9 then [0x3A9]
      else [c])"

definition lowerUnit :: "codeunit \<Rightarrow> jsstring" where
  "lowerUnit c =
     (if 0x41 \<le> c \<and> c \<le> 0x5A then [c + 0x20]
      else if 0xC0 \<le> c \<and> c \<le> 0xDE \<and> c \<noteq> 0xD7 then [c + 0x20]
      else if c = 0x130 then [0x69, 0x307]
      else if c = 0x178 then [0xFF]
      else if c = 0x398 \<or> c = 0x3F4 then [0x3B8]
      else if c = 0x39C then [0x3BC]
      else if c = 0x3A9 \<or> c = 0x2126 then [0x3C9]
      else if c = 0x1E9E then [0xDF]
      else if c = 0x212A then [0x6B]
      else if c = 0x212B then [0xE5]
      else [c])"

definition toUpperCase :: "jsstring \<Rightarrow> jsstring" where
  "toUpperCase s = concat (map upperUnit s)"

definition toLowerCase :: "jsstring \<Rightarrow> jsstring" where
  "toLowerCase s = concat (map lowerUnit s)"

text \<open>
  Modelled from the spec: the revision of types.ts that parser.ts and the lexer tests are
  written against is missing from the sources (the types.ts at hand sends \<open>COMPONENT\<close>,
  \<open>STREAM\<close> and \<open>THERMODYNAMIC\<close> to kinds \<open>COMPONENT_DATA\<close>, \<open>STREAM_DATA\<close> and
  \<open>THERMODYNAMIC_DATA\<close> that the parser never tests, and has no \<open>DATA\<close>, \<open>PRINT\<close>, \<open>PROP\<close>,
  \<open>TYPE\<close>, \<open>INPUT\<close>, \<open>RESULT\<close>). The table is the one at hand, with the section markers as
  the spec's section dispatch describes them (a \<open>STREAM\<close> token followed by a \<open>DATA\<close>
  token) and with the keywords the parser and the lexer tests name. The lexer takes the
  table as a parameter, so everything proved of the lexer alone holds for any table.
\<close>

definition KEYWORDS :: "jsstring \<Rightarrow> TokenType option" where
  "KEYWORDS = map_of
    [(js ''COMPONENT'', COMPONENT), (js ''DATA'', DATA), (js ''STREAM'', STREAM),
     (js ''THERMODYNAMIC'', THERMODYNAMIC), (js ''UNIT'', UNIT_OPERATIONS), (js ''PRINT'', PRINT),
     (js ''FLASH'', FLASH), (js ''COLUMN'', COLUMN), (js ''HCURVE'', HCURVE), (js ''HX'', HX),
     (js ''COMPRESSOR'', COMPRESSOR), (js ''PUMP'', PUMP), (js ''MIXER'', MIXER),
     (js ''SPLITTER'', SPLITTER), (js ''VALVE'', VALVE), (js ''REACTOR'', REACTOR),
     (js ''CALCULATOR'', CALCULATOR), (js ''STCALC'', STCALC),
     (js ''UID'', UID), (js ''NAME'', NAME), (js ''FEED'', FEED), (js ''PROD'', PROD_KW),
     (js ''PRODUCT'', PRODUCT), (js ''TEMP'', TEMP), (js ''TEMPERATURE'', TEMPERATURE),
     (js ''PRES'', PRES), (js ''PRESSURE'', PRESSURE), (js ''RATE'', RATE), (js ''COMP'', COMP),
     (js ''PROP'', PROP_KW), (js ''LIBID'', LIBID), (js ''BANK'', BANK), (js ''METHOD'', METHOD),
     (js ''SET'', SET), (js ''SPEC'', SPEC), (js ''VARY'', VARY), (js ''DEFINE'', DEFINE),
     (js ''TYPE'', TYPE_KW), (js ''INPUT'', INPUT), (js ''RESULT'', RESULT),
     (js ''NSTAGE'', NSTAGE), (js ''COND'', COND),
     (js ''SRK'', SRK), (js ''PR'', PR), (js ''NRTL'', NRTL)]"

section \<open>The lexer (lexer.ts)\<close>

text \<open>The fields of class \<open>Lexer\<close>; \<open>new_Lexer\<close> is its constructor.\<close>

record Lexer =
  input :: jsstring
  position :: nat
  line :: nat
  column :: nat
  tokens :: "Token list"

definition new_Lexer :: "jsstring \<Rightarrow> Lexer" where
  "new_Lexer text = \<lparr>input = text, position = 0, line = 1, column = 1, tokens = []\<rparr>"

definition isAtEnd :: "Lexer \<Rightarrow> bool" where
  "isAtEnd lx = (position lx \<ge> length (input lx))"

definition currentChar :: "Lexer \<Rightarrow> codeunit" where
  "currentChar lx = (if isAtEnd lx then ch CHR 0x00 else input lx ! position lx)"

definition peek :: "Lexer \<Rightarrow> codeunit" where
  "peek lx = (if position lx + 1 \<ge> length (input lx) then ch CHR 0x00
              else input lx ! (position lx + 1))"

definition advance :: "Lexer \<Rightarrow> Lexer" where
  "advance lx = (if \<not> isAtEnd lx
                 then lx\<lparr>position := position lx + 1, column := column lx + 1\<rparr>
                 else lx)"

definition isDigit :: "codeunit \<Rightarrow> bool" where
  "isDigit c = (ch CHR ''0'' \<le> c \<and> c \<le> ch CHR ''9'')"

definition isAlpha :: "codeunit \<Rightarrow> bool" where
  "isAlpha c = ((ch CHR ''a'' \<le> c \<and> c \<le> ch CHR ''z'') \<or> (ch CHR ''A'' \<le> c \<and> c \<le> ch CHR ''Z''))"

definition isAlphaNumeric :: "codeunit \<Rightarrow> bool" where
  "isAlphaNumeric c = (isAlpha c \<or> isDigit c)"

text \<open>\<open>createToken(type, value, length, startColumn?)\<close>: the line is the lexer's current one.\<close>

definition createToken :: "Lexer \<Rightarrow> TokenType \<Rightarrow> jsstring \<Rightarrow> nat \<Rightarrow> nat option \<Rightarrow> Token" where
  "createToken lx ty v len startColumn =
     \<lparr>tok_type = ty, tok_value = v, tok_line = line lx,
      tok_column = (case startColumn of Some c \<Rightarrow> c | None \<Rightarrow> column lx),
      tok_length = len\<rparr>"

definition push :: "Token \<Rightarrow> Lexer \<Rightarrow> Lexer" where
  "push t lx = lx\<lparr>tokens := tokens lx @ [t]\<rparr>"

text \<open>
  The loops \<open>while (cond) { value += this.currentChar(); this.advance(); }\<close> of the four
  scanners, each with the condition of its source loop. The state they return is the
  lexer together with the local variable \<open>value\<close>.
\<close>

function scanDigits :: "Lexer \<Rightarrow> jsstring \<Rightarrow> Lexer \<times> jsstring" where
  "scanDigits lx v =
     (if isDigit (currentChar lx) then scanDigits (advance lx) (v @ [currentChar lx])
      else (lx, v))"
  by pat_completeness auto
termination
  by (relation "measure (\<lambda>(lx, v). length (input lx) - position lx)")
     (auto simp: currentChar_def advance_def isAtEnd_def isDigit_def split: if_splits)

function scanCommentBody :: "Lexer \<Rightarrow> jsstring \<Rightarrow> Lexer \<times> jsstring" where
  "scanCommentBody lx v =
     (if currentChar lx \<noteq> ch CHR 0x0A \<and> \<not> isAtEnd lx
      then scanCommentBody (advance lx) (v @ [currentChar lx])
      else (lx, v))"
  by pat_completeness auto
termination
  by (relation "measure (\<lambda>(lx, v). length (input lx) - position lx)")
     (auto simp: advance_def isAtEnd_def)

function scanIdentifierBody :: "Lexer \<Rightarrow> jsstring \<Rightarrow> Lexer \<times> jsstring" where
  "scanIdentifierBody lx v =
     (if isAlphaNumeric (currentChar lx) \<or> currentChar lx = ch CHR ''_''
      then scanIdentifierBody (advance lx) (v @ [currentChar lx])
      else (lx, v))"
  by pat_completeness auto
termination
  by (relation "measure (\<lambda>(lx, v). length (input lx) - position lx)")
     (auto simp: currentChar_def advance_def isAtEnd_def isAlphaNumeric_def isAlpha_def
        isDigit_def split: if_splits)

function scanStringBody :: "codeunit \<Rightarrow> Lexer \<Rightarrow> jsstring \<Rightarrow> Lexer \<times> jsstring" where
  "scanStringBody quote lx v =
     (if currentChar lx \<noteq> quote \<and> currentChar lx \<noteq> ch CHR 0x0A \<and> \<not> isAtEnd lx
      then scanStringBody quote (advance lx) (v @ [currentChar lx])
      else (lx, v))"
  by pat_completeness auto
termination
  by (relation "measure (\<lambda>(q, lx, v). length (input lx) - position lx)")
     (auto simp: advance_def isAtEnd_def)

declare scanDigits.simps [simp del] scanCommentBody.simps [simp del]
  scanIdentifierBody.simps [simp del] scanStringBody.simps [simp del]

definition scanComment :: "Lexer \<Rightarrow> Lexer" where
  "scanComment lx =
     (let startColumn = column lx;
          commentChar = currentChar lx;
          (lx1, v) = scanCommentBody (advance lx) [commentChar]
      in push (createToken lx1 COMMENT v (length v) (Some startColumn)) lx1)"

definition scanNumber :: "Lexer \<Rightarrow> Lexer" where
  "scanNumber lx =
     (let startColumn = column lx;
          (lx1, v1) = (if currentChar lx = ch CHR ''-'' then (advance lx, js ''-'') else (lx, []));
          (lx2, v2) = scanDigits lx1 v1;
          (lx3, v3) = (if currentChar lx2 = ch CHR ''.'' \<and> isDigit (peek lx2)
                       then scanDigits (advance lx2) (v2 @ js ''.'')
                       else (lx2, v2));
          (lx4, v4) = (if currentChar lx3 = ch CHR ''E'' \<or> currentChar lx3 = ch CHR ''e''
                       then (let va = v3 @ [currentChar lx3];
                                 la = advance lx3;
                                 (lb, vb) = (if currentChar la = ch CHR ''+'' \<or> currentChar la = ch CHR ''-''
                                             then (advance la, va @ [currentChar la])
                                             else (la, va))
                             in scanDigits lb vb)
                       else (lx3, v3))
      in push (createToken lx4 NUMBER v4 (length v4) (Some startColumn)) lx4)"

definition scanIdentifier :: "(jsstring \<Rightarrow> TokenType option) \<Rightarrow> Lexer \<Rightarrow> Lexer" where
  "scanIdentifier kw lx =
     (let startColumn = column lx;
          (lx1, v) = scanIdentifierBody lx [];
          upperValue = toUpperCase v;
          tokenType = (case kw upperValue of Some t \<Rightarrow> t | None \<Rightarrow> IDENTIFIER)
      in push (createToken lx1 tokenType v (length v) (Some startColumn)) lx1)"

definition scanString :: "codeunit \<Rightarrow> Lexer \<Rightarrow> Lexer" where
  "scanString quote lx =
     (let startColumn = column lx;
          (lx1, v1) = scanStringBody quote (advance lx) [quote];
          (lx2, v2) = (if currentChar lx1 = quote then (advance lx1, v1 @ [quote]) else (lx1, v1))
      in push (createToken lx2 STRING v2 (length v2) (Some startColumn)) lx2)"

text \<open>The branch of \<open>scanToken\<close> shared by the one-character operators and \<open>&\<close>.\<close>

definition scanSingle :: "TokenType \<Rightarrow> jsstring \<Rightarrow> Lexer \<Rightarrow> Lexer" where
  "scanSingle ty v lx =
     (let col = column lx; lx1 = advance lx
      in push (createToken lx1 ty v 1 (Some col)) lx1)"

definition isBlank :: "codeunit \<Rightarrow> bool" where
  "isBlank c = (c = ch CHR '' '' \<or> c = ch CHR 0x09 \<or> c = ch CHR 0x0D)"

definition scanToken :: "(jsstring \<Rightarrow> TokenType option) \<Rightarrow> Lexer \<Rightarrow> Lexer" where
  "scanToken kw lx =
     (let c = currentChar lx in
      if isBlank c then advance lx
      else if c = ch CHR 0x0A then
        (let col = column lx; lx1 = advance lx;
             lx2 = push \<lparr>tok_type = NEWLINE, tok_value = [ch CHR 0x0A], tok_line = line lx1,
                         tok_column = col, tok_length = 1\<rparr> lx1
         in lx2\<lparr>line := line lx2 + 1, column := 1\<rparr>)
      else if c = ch CHR ''$'' \<or> c = ch CHR ''%'' then scanComment lx
      else if c = ch CHR ''&'' then scanSingle CONTINUATION (js ''&'') lx
      else if c = ch CHR ''='' then scanSingle EQUALS (js ''='') lx
      else if c = ch CHR '','' then scanSingle COMMA (js '','') lx
      else if c = ch CHR ''/'' then scanSingle SLASH (js ''/'') lx
      else if c = ch CHR ''+'' then scanSingle PLUS (js ''+'') lx
      else if c = ch CHR ''-'' then
        (if isDigit (peek lx) then scanNumber lx else scanSingle MINUS (js ''-'') lx)
      else if c = ch CHR ''*'' then scanSingle TIMES (js ''*'') lx
      else if c = ch CHR ''('' then scanSingle LPAREN (js ''('') lx
      else if c = ch CHR '')'' then scanSingle RPAREN (js '')'') lx
      else if isDigit c then scanNumber lx
      else if isAlpha c then scanIdentifier kw lx
      else if c = ch CHR 0x22 \<or> c = ch CHR 0x27 then scanString c lx
      else scanSingle UNKNOWN [c] lx)"

subsection \<open>Every scanner moves the cursor by the length of what it read\<close>


lemma advance_fields [simp]:
  "input (advance lx) = input lx" "tokens (advance lx) = tokens lx"
  "line (advance lx) = line lx"
  by (simp_all add: advance_def)

lemma advance_position:
  "position (advance lx) = (if position lx < length (input lx) then position lx + 1 else position lx)"
  by (simp add: advance_def isAtEnd_def)

lemma push_fields [simp]:
  "input (push t lx) = input lx" "position (push t lx) = position lx"
  "tokens (push t lx) = tokens lx @ [t]" "line (push t lx) = line lx" "column (push t lx) = column lx"
  by (simp_all add: push_def)

lemma createToken_fields [simp]:
  "tok_type (createToken lx ty v n c) = ty" "tok_value (createToken lx ty v n c) = v"
  "tok_length (createToken lx ty v n c) = n" "tok_line (createToken lx ty v n c) = line lx"
  by (simp_all add: createToken_def)

definition grows :: "Lexer \<Rightarrow> jsstring \<Rightarrow> Lexer \<times> jsstring \<Rightarrow> bool" where
  "grows lx v r =
     (input (fst r) = input lx \<and> tokens (fst r) = tokens lx \<and> line (fst r) = line lx \<and>
      position lx \<le> position (fst r) \<and>
      length (snd r) + position lx = length v + position (fst r) \<and>
      (position lx \<le> length (input lx) \<longrightarrow> position (fst r) \<le> length (input lx)))"

lemma grows_refl: "grows lx v (lx, v)"
  by (simp add: grows_def)

lemma grows_step:
  "position lx < length (input lx) \<Longrightarrow> grows (advance lx) (v @ [c]) r \<Longrightarrow> grows lx v r"
  by (auto simp: grows_def advance_position)

lemma isDigit_current: "isDigit (currentChar lx) \<Longrightarrow> position lx < length (input lx)"
  by (auto simp: currentChar_def isAtEnd_def isDigit_def split: if_splits)

lemma isAlpha_current: "isAlpha (currentChar lx) \<Longrightarrow> position lx < length (input lx)"
  by (auto simp: currentChar_def isAtEnd_def isAlpha_def split: if_splits)

lemma nonzero_current: "0 < currentChar lx \<Longrightarrow> position lx < length (input lx)"
  by (auto simp: currentChar_def isAtEnd_def split: if_splits)

lemma scanDigits_grows: "grows lx v (scanDigits lx v)"
proof (induction lx v rule: scanDigits.induct)
  case (1 lx v)
  show ?case
  proof (cases "isDigit (currentChar lx)")
    case True
    with 1 have "grows (advance lx) (v @ [currentChar lx]) (scanDigits lx v)" by (subst scanDigits.simps) simp
    with True show ?thesis by (blast intro: grows_step isDigit_current)
  next
    case False
    then show ?thesis by (subst scanDigits.simps) (simp add: grows_refl)
  qed
qed

lemma scanCommentBody_grows: "grows lx v (scanCommentBody lx v)"
proof (induction lx v rule: scanCommentBody.induct)
  case (1 lx v)
  show ?case
  proof (cases "currentChar lx \<noteq> ch CHR 0x0A \<and> \<not> isAtEnd lx")
    case True
    with 1 have "grows (advance lx) (v @ [currentChar lx]) (scanCommentBody lx v)" by (subst scanCommentBody.simps) simp
    moreover from True have "position lx < length (input lx)" by (simp add: isAtEnd_def)
    ultimately show ?thesis by (blast intro: grows_step)
  next
    case False
    then show ?thesis by (subst scanCommentBody.simps) (auto simp add: grows_refl)
  qed
qed

lemma scanIdentifierBody_grows: "grows lx v (scanIdentifierBody lx v)"
proof (induction lx v rule: scanIdentifierBody.induct)
  case (1 lx v)
  show ?case
  proof (cases "isAlphaNumeric (currentChar lx) \<or> currentChar lx = ch CHR ''_''")
    case True
    with 1 have "grows (advance lx) (v @ [currentChar lx]) (scanIdentifierBody lx v)" by (subst scanIdentifierBody.simps) simp
    moreover from True have "position lx < length (input lx)"
      by (auto simp: isAlphaNumeric_def intro: isDigit_current isAlpha_current nonzero_current)
    ultimately show ?thesis by (blast intro: grows_step)
  next
    case False
    then show ?thesis by (subst scanIdentifierBody.simps) (simp add: grows_refl)
  qed
qed

lemma scanStringBody_grows: "grows lx v (scanStringBody q lx v)"
proof (induction q lx v rule: scanStringBody.induct)
  case (1 q lx v)
  show ?case
  proof (cases "currentChar lx \<noteq> q \<and> currentChar lx \<noteq> ch CHR 0x0A \<and> \<not> isAtEnd lx")
    case True
    with 1 have "grows (advance lx) (v @ [currentChar lx]) (scanStringBody q lx v)" by (subst scanStringBody.simps) simp
    moreover from True have "position lx < length (input lx)" by (simp add: isAtEnd_def)
    ultimately show ?thesis by (blast intro: grows_step)
  next
    case False
    then show ?thesis by (subst scanStringBody.simps) (auto simp add: grows_refl)
  qed
qed

text \<open>One scanned token: the cursor moved right by exactly the token's length.\<close>

definition emits :: "Lexer \<Rightarrow> Lexer \<Rightarrow> bool" where
  "emits lx lx' =
     (input lx' = input lx \<and> position lx < position lx' \<and> position lx' \<le> length (input lx) \<and>
      (\<exists>t. tokens lx' = tokens lx @ [t] \<and> tok_length t + position lx = position lx'))"

lemma scanSingle_emits:
  "position lx < length (input lx) \<Longrightarrow> emits lx (scanSingle ty v lx)"
  by (simp add: emits_def scanSingle_def Let_def advance_position)

lemma scanComment_emits:
  assumes "position lx < length (input lx)"
  shows "emits lx (scanComment lx)"
proof -
  obtain lx1 v where r: "scanCommentBody (advance lx) [currentChar lx] = (lx1, v)"
    by (cases "scanCommentBody (advance lx) [currentChar lx]")
  have "grows (advance lx) [currentChar lx] (lx1, v)"
    using scanCommentBody_grows [of "advance lx" "[currentChar lx]"] r by simp
  with assms r show ?thesis
    by (auto simp: emits_def scanComment_def Let_def grows_def advance_position)
qed

lemma scanIdentifier_emits:
  assumes "isAlpha (currentChar lx)"
  shows "emits lx (scanIdentifier kw lx)"
proof -
  have p: "position lx < length (input lx)" using assms by (rule isAlpha_current)
  obtain lx1 v where r: "scanIdentifierBody (advance lx) ([] @ [currentChar lx]) = (lx1, v)"
    by (cases "scanIdentifierBody (advance lx) ([] @ [currentChar lx])")
  have u: "scanIdentifierBody lx [] = (lx1, v)"
    using assms r by (subst scanIdentifierBody.simps) (simp add: isAlphaNumeric_def)
  have "grows (advance lx) ([] @ [currentChar lx]) (lx1, v)"
    using scanIdentifierBody_grows [of "advance lx" "[] @ [currentChar lx]"] r by simp
  with p u show ?thesis
    by (auto simp: emits_def scanIdentifier_def Let_def grows_def advance_position)
qed

lemma scanString_emits:
  assumes "position lx < length (input lx)" and q: "q \<noteq> ch CHR 0x00"
  shows "emits lx (scanString q lx)"
proof -
  obtain lx1 v where r: "scanStringBody q (advance lx) [q] = (lx1, v)"
    by (cases "scanStringBody q (advance lx) [q]")
  have "grows (advance lx) [q] (lx1, v)"
    using scanStringBody_grows [of "advance lx" "[q]" q] r by simp
  with assms r show ?thesis
    by (auto simp: emits_def scanString_def Let_def grows_def advance_position
        dest: nonzero_current)
qed


lemma grows_trans: "grows lx v (lx', v') \<Longrightarrow> grows lx' v' r \<Longrightarrow> grows lx v r"
  by (auto simp: grows_def)

lemma grows_advance:
  "position lx < length (input lx) \<Longrightarrow> grows lx v (advance lx, v @ [c])"
  by (simp add: grows_def advance_position)

lemma scanDigits_progress:
  assumes "isDigit (currentChar lx)"
  shows "position lx < position (fst (scanDigits lx v))"
proof -
  have p: "position lx < length (input lx)" using assms by (rule isDigit_current)
  have "scanDigits lx v = scanDigits (advance lx) (v @ [currentChar lx])"
    using assms by (subst scanDigits.simps) simp
  moreover have "grows (advance lx) (v @ [currentChar lx]) (scanDigits (advance lx) (v @ [currentChar lx]))"
    by (rule scanDigits_grows)
  ultimately show ?thesis using p by (simp add: grows_def advance_position)
qed

lemma scanNumber_emits:
  assumes "isDigit (currentChar lx) \<or> (currentChar lx = ch CHR ''-'' \<and> isDigit (peek lx))"
  shows "emits lx (scanNumber lx)"
proof -
  have p: "position lx < length (input lx)"
    using assms by (auto intro: isDigit_current nonzero_current)
  obtain lx1 v1 where s1:
    "(if currentChar lx = ch CHR ''-'' then (advance lx, js ''-'') else (lx, [])) = (lx1, v1)"
    by (cases "(if currentChar lx = ch CHR ''-'' then (advance lx, js ''-'') else (lx, []))") simp
  have g1: "grows lx [] (lx1, v1)"
    using s1 p by (auto simp: grows_def advance_position split: if_splits)
  obtain lx2 v2 where s2: "scanDigits lx1 v1 = (lx2, v2)" by (cases "scanDigits lx1 v1")
  have g2: "grows lx1 v1 (lx2, v2)" using scanDigits_grows [of lx1 v1] s2 by simp
  have strict: "position lx < position lx2"
  proof (cases "currentChar lx = ch CHR ''-''")
    case True
    with s1 p have "position lx1 = position lx + 1" by (auto simp: advance_position)
    with g2 show ?thesis by (simp add: grows_def)
  next
    case False
    with assms s1 have "isDigit (currentChar lx)" "lx1 = lx" by auto
    with scanDigits_progress [of lx v1] s2 show ?thesis by simp
  qed
  obtain lx3 v3 where s3:
    "(if currentChar lx2 = ch CHR ''.'' \<and> isDigit (peek lx2)
      then scanDigits (advance lx2) (v2 @ js ''.'') else (lx2, v2)) = (lx3, v3)"
    by (cases "(if currentChar lx2 = ch CHR ''.'' \<and> isDigit (peek lx2)
      then scanDigits (advance lx2) (v2 @ js ''.'') else (lx2, v2))") simp
  have g3: "grows lx2 v2 (lx3, v3)"
  proof (cases "currentChar lx2 = ch CHR ''.'' \<and> isDigit (peek lx2)")
    case True
    then have "position lx2 < length (input lx2)" by (auto intro: nonzero_current)
    then have "grows lx2 v2 (advance lx2, v2 @ js ''.'')"
      using grows_advance [of lx2 v2 "ch CHR ''.''"] by (simp add: js_Cons)
    moreover have "grows (advance lx2) (v2 @ js ''.'') (lx3, v3)"
      using s3 True scanDigits_grows [of "advance lx2" "v2 @ js ''.''"] by simp
    ultimately show ?thesis by (rule grows_trans)
  next
    case False
    with s3 show ?thesis by (auto simp: grows_refl split: if_splits)
  qed
  obtain lx4 v4 where s4:
    "(if currentChar lx3 = ch CHR ''E'' \<or> currentChar lx3 = ch CHR ''e''
      then (case (if currentChar (advance lx3) = ch CHR ''+'' \<or> currentChar (advance lx3) = ch CHR ''-''
                  then (advance (advance lx3), (v3 @ [currentChar lx3]) @ [currentChar (advance lx3)])
                  else (advance lx3, v3 @ [currentChar lx3]))
            of (lb, vb) \<Rightarrow> scanDigits lb vb)
      else (lx3, v3)) = (lx4, v4)" (is "?rhs = _")
    by (cases ?rhs) simp
  have g4: "grows lx3 v3 (lx4, v4)"
  proof (cases "currentChar lx3 = ch CHR ''E'' \<or> currentChar lx3 = ch CHR ''e''")
    case True
    then have "position lx3 < length (input lx3)" by (auto intro: nonzero_current)
    then have a: "grows lx3 v3 (advance lx3, v3 @ [currentChar lx3])" by (rule grows_advance)
    show ?thesis
    proof (cases "currentChar (advance lx3) = ch CHR ''+'' \<or> currentChar (advance lx3) = ch CHR ''-''")
      case sg: True
      then have "position (advance lx3) < length (input (advance lx3))"
        using nonzero_current [of "advance lx3"] by auto
      then have b: "grows (advance lx3) (v3 @ [currentChar lx3])
          (advance (advance lx3), (v3 @ [currentChar lx3]) @ [currentChar (advance lx3)])"
        by (rule grows_advance)
      have "scanDigits (advance (advance lx3)) ((v3 @ [currentChar lx3]) @ [currentChar (advance lx3)])
          = (lx4, v4)"
        using s4 True sg by simp
      then have c: "grows (advance (advance lx3)) ((v3 @ [currentChar lx3]) @ [currentChar (advance lx3)])
          (lx4, v4)"
        using scanDigits_grows
          [of "advance (advance lx3)" "(v3 @ [currentChar lx3]) @ [currentChar (advance lx3)]"]
        by simp
      from a b c show ?thesis by (blast intro: grows_trans)
    next
      case nsg: False
      have "scanDigits (advance lx3) (v3 @ [currentChar lx3]) = (lx4, v4)"
        using s4 True nsg by simp
      then have c: "grows (advance lx3) (v3 @ [currentChar lx3]) (lx4, v4)"
        using scanDigits_grows [of "advance lx3" "v3 @ [currentChar lx3]"] by simp
      from a c show ?thesis by (blast intro: grows_trans)
    qed
  next
    case False
    with s4 show ?thesis by (simp add: grows_refl)
  qed
  have res: "scanNumber lx = push (createToken lx4 NUMBER v4 (length v4) (Some (column lx))) lx4"
    by (simp only: scanNumber_def Let_def s1 s2 s3 s4 prod.case)
  have g: "grows lx [] (lx4, v4)" using g1 g2 g3 g4 by (blast intro: grows_trans)
  have "position lx2 \<le> position lx4" using g3 g4 by (simp add: grows_def)
  with strict g p show ?thesis
    by (simp add: res emits_def grows_def)
qed

lemma scanToken_cases:
  assumes "position lx < length (input lx)"
  shows "(isBlank (currentChar lx) \<and> scanToken kw lx = advance lx) \<or>
         (\<not> isBlank (currentChar lx) \<and> emits lx (scanToken kw lx))"
proof (cases "isBlank (currentChar lx)")
  case True
  then show ?thesis by (simp add: scanToken_def Let_def)
next
  case False
  have nl: "emits lx
     ((push \<lparr>tok_type = NEWLINE, tok_value = [ch CHR 0x0A], tok_line = line (advance lx),
         tok_column = column lx, tok_length = 1\<rparr> (advance lx))
       \<lparr>line := line (push \<lparr>tok_type = NEWLINE, tok_value = [ch CHR 0x0A], tok_line = line (advance lx),
         tok_column = column lx, tok_length = 1\<rparr> (advance lx)) + 1, column := 1\<rparr>)"
    using assms by (simp add: emits_def advance_position)
  have "emits lx (scanToken kw lx)"
    using assms False nl
    by (simp add: scanToken_def Let_def scanSingle_emits scanComment_emits scanNumber_emits
        scanIdentifier_emits scanString_emits)
  with False show ?thesis by simp
qed

lemma scanToken_progress:
  assumes "position lx < length (input lx)"
  shows "input (scanToken kw lx) = input lx \<and> position lx < position (scanToken kw lx) \<and>
         position (scanToken kw lx) \<le> length (input lx)"
  using scanToken_cases [OF assms, of kw] assms
  by (auto simp: emits_def advance_position)

text \<open>
  \<open>tokenize\<close>: the loop \<open>while (this.position < this.input.length) this.scanToken()\<close>,
  then the end-of-input token. Its termination rests on \<open>scanToken_progress\<close>.
\<close>

function scanAll :: "(jsstring \<Rightarrow> TokenType option) \<Rightarrow> Lexer \<Rightarrow> Lexer" where
  "scanAll kw lx =
     (if position lx < length (input lx) then scanAll kw (scanToken kw lx) else lx)"
  by pat_completeness auto
termination
proof (relation "measure (\<lambda>(kw, lx). length (input lx) - position lx)")
  show "wf (measure (\<lambda>(kw, lx). length (input lx) - position lx))" by simp
next
  fix kw :: "jsstring \<Rightarrow> TokenType option" and lx :: Lexer
  assume "position lx < length (input lx)"
  from scanToken_progress [OF this, of kw]
  show "((kw, scanToken kw lx), (kw, lx)) \<in> measure (\<lambda>(kw, lx). length (input lx) - position lx)"
    by auto
qed

declare scanAll.simps [simp del]

definition tokenize :: "(jsstring \<Rightarrow> TokenType option) \<Rightarrow> Lexer \<Rightarrow> Token list" where
  "tokenize kw lx =
     (let lx1 = scanAll kw (lx\<lparr>tokens := []\<rparr>)
      in tokens lx1 @ [createToken lx1 EOF [] 0 None])"

text \<open>
  The number of characters the loop of \<open>tokenize\<close> discards: its iterations that take the
  first branch of \<open>scanToken\<close> (blank, tab or carriage return: no token is pushed).
\<close>

function discarded :: "(jsstring \<Rightarrow> TokenType option) \<Rightarrow> Lexer \<Rightarrow> nat" where
  "discarded kw lx =
     (if position lx < length (input lx)
      then (if isBlank (currentChar lx) then 1 else 0) + discarded kw (scanToken kw lx)
      else 0)"
  by pat_completeness auto
termination
proof (relation "measure (\<lambda>(kw, lx). length (input lx) - position lx)")
  show "wf (measure (\<lambda>(kw, lx). length (input lx) - position lx))" by simp
next
  fix kw :: "jsstring \<Rightarrow> TokenType option" and lx :: Lexer
  assume "position lx < length (input lx)"
  from scanToken_progress [OF this, of kw]
  show "((kw, scanToken kw lx), (kw, lx)) \<in> measure (\<lambda>(kw, lx). length (input lx) - position lx)"
    by auto
qed

declare discarded.simps [simp del]

lemma scanAll_coverage:
  "position lx \<le> length (input lx) \<Longrightarrow>
   sum_list (map tok_length (tokens (scanAll kw lx))) + discarded kw lx + position lx =
   sum_list (map tok_length (tokens lx)) + length (input lx)"
proof (induction kw lx rule: scanAll.induct)
  case (1 kw lx)
  show ?case
  proof (cases "position lx < length (input lx)")
    case True
    note pr = scanToken_progress [OF True, of kw]
    have ih: "sum_list (map tok_length (tokens (scanAll kw (scanToken kw lx)))) +
        discarded kw (scanToken kw lx) + position (scanToken kw lx) =
        sum_list (map tok_length (tokens (scanToken kw lx))) + length (input lx)"
      using "1.IH" [OF True] pr by simp
    have step: "sum_list (map tok_length (tokens (scanToken kw lx))) + position lx +
        (if isBlank (currentChar lx) then 1 else 0) =
        sum_list (map tok_length (tokens lx)) + position (scanToken kw lx)"
      using scanToken_cases [OF True, of kw] True
      by (auto simp: emits_def advance_position)
    have u1: "scanAll kw lx = scanAll kw (scanToken kw lx)"
      using True by (subst scanAll.simps) simp
    have u2: "discarded kw lx =
        (if isBlank (currentChar lx) then 1 else 0) + discarded kw (scanToken kw lx)"
      using True by (subst discarded.simps) simp
    from ih step show ?thesis unfolding u1 u2 by simp
  next
    case False
    with "1.prems" have "position lx = length (input lx)" by simp
    moreover have "scanAll kw lx = lx" using False by (subst scanAll.simps) simp
    moreover have "discarded kw lx = 0" using False by (subst discarded.simps) simp
    ultimately show ?thesis by simp
  qed
qed

text \<open>
  Claim C8. For every input string (and every keyword table), the \<open>length\<close> fields of the
  tokens that \<open>tokenize\<close> returns (the end-of-input token counts 0) and the number of
  discarded whitespace characters add up to the length of the input.
\<close>

theorem token_coverage:
  "sum_list (map tok_length (tokenize kw (new_Lexer text))) + discarded kw (new_Lexer text)
   = length text"
proof -
  have e: "(new_Lexer text)\<lparr>tokens := []\<rparr> = new_Lexer text" by (simp add: new_Lexer_def)
  have "sum_list (map tok_length (tokens (scanAll kw (new_Lexer text)))) +
        discarded kw (new_Lexer text) + position (new_Lexer text) =
        sum_list (map tok_length (tokens (new_Lexer text))) + length (input (new_Lexer text))"
    by (rule scanAll_coverage) (simp add: new_Lexer_def)
  then show ?thesis by (simp add: tokenize_def Let_def e new_Lexer_def)
qed








section \<open>The syntax tree (ast.ts)\<close>

text \<open>
  A JavaScript number as far as this program makes one: \<open>parseFloat\<close> of a token's text.
  \<open>Num\<close> holds the exact value of the decimal literal; the rounding of that value to a
  double, with the overflow of a literal beyond the doubles to \<open>Infinity\<close>, is not
  modelled (it changes nothing for integers below \<open>2^53\<close>).
\<close>

datatype jsnumber = NaN | PosInfinity | NegInfinity | Num rat

definition digitsValue :: "jsstring \<Rightarrow> nat" where
  "digitsValue ds = foldl (\<lambda>a c. 10 * a + (c - 48)) 0 ds"

definition isStrWhiteSpace :: "codeunit \<Rightarrow> bool" where
  "isStrWhiteSpace c =
     (c \<in> set [0x09, 0x0A, 0x0B, 0x0C, 0x0D, 0x20, 0xA0, 0x1680, 0x2028, 0x2029, 0x202F,
               0x205F, 0x3000, 0xFEFF] \<or>
      (0x2000 \<le> c \<and> c \<le> 0x200A))"

definition exponentOf :: "jsstring \<Rightarrow> int" where
  "exponentOf s =
     (case s of
        [] \<Rightarrow> 0
      | c # r \<Rightarrow>
          if c = ch CHR ''e'' \<or> c = ch CHR ''E'' then
            (let neg = (case r of d # _ \<Rightarrow> d = ch CHR ''-'' | [] \<Rightarrow> False);
                 r1 = (case r of d # t \<Rightarrow> if d = ch CHR ''-'' \<or> d = ch CHR ''+'' then t else r | [] \<Rightarrow> r);
                 ds = takeWhile isDigit r1
             in if ds = [] then 0
                else if neg then - int (digitsValue ds) else int (digitsValue ds))
          else 0)"

definition parseFloat :: "jsstring \<Rightarrow> jsnumber" where
  "parseFloat s =
     (let s0 = dropWhile isStrWhiteSpace s;
          neg = (case s0 of c # _ \<Rightarrow> c = ch CHR ''-'' | [] \<Rightarrow> False);
          s1 = (case s0 of c # r \<Rightarrow> if c = ch CHR ''-'' \<or> c = ch CHR ''+'' then r else s0 | [] \<Rightarrow> s0);
          ip = takeWhile isDigit s1;
          s2 = dropWhile isDigit s1;
          fp = (case s2 of c # r \<Rightarrow> if c = ch CHR ''.'' then takeWhile isDigit r else [] | [] \<Rightarrow> []);
          s3 = (case s2 of c # r \<Rightarrow> if c = ch CHR ''.'' then dropWhile isDigit r else s2 | [] \<Rightarrow> s2);
          ex = exponentOf s3;
          m = (of_nat (digitsValue ip) + of_nat (digitsValue fp) / 10 ^ length fp) *
              (if 0 \<le> ex then 10 ^ nat ex else 1 / 10 ^ nat (- ex))
      in if ip = [] \<and> fp = []
         then (if take 8 s1 = (js ''Infinity'') then (if neg then NegInfinity else PosInfinity) else NaN)
         else Num (if neg then - m else m))"

text \<open>
  The node interfaces. Every node extends \<open>ASTNode\<close>; the tag \<open>type\<close> of a node is its
  record type or its constructor. Field names used by several interfaces carry a prefix.
  A \<open>ListNode\<close> holds value nodes again, so it is the constructor \<open>VList\<close> with the fields
  \<open>startLine\<close>, \<open>endLine\<close>, \<open>values\<close> and \<open>separator\<close> as its arguments.
\<close>

record ASTNode =
  startLine :: nat
  endLine :: nat

record NumberNode = ASTNode +
  num_value :: jsnumber
  raw :: jsstring

record IdentifierNode = ASTNode +
  name :: jsstring

record StringNode = ASTNode +
  str_value :: jsstring

datatype Separator = SepComma | SepSlash

datatype ValueNode =
    VNumber NumberNode
  | VIdentifier IdentifierNode
  | VString StringNode
  | VList nat nat "ValueNode list" Separator

record ParameterNode = ASTNode +
  param_name :: IdentifierNode
  param_value :: ValueNode

record StreamReferenceNode = ASTNode +
  ref_streamName :: IdentifierNode
  streamType :: "jsstring option"

record ComponentNode = ASTNode +
  comp_identifier :: jsstring
  libid :: "NumberNode option"

record UnitOperationNode = ASTNode +
  uo_statementType :: jsstring
  uid :: "IdentifierNode option"
  uo_parameters :: "ParameterNode list"
  feedStreams :: "StreamReferenceNode list"
  productStreams :: "StreamReferenceNode list"

record ComponentDataNode = ASTNode +
  cd_statementType :: jsstring
  components :: "ComponentNode list"

record StreamDataNode = ASTNode +
  sd_statementType :: jsstring
  sd_streamName :: IdentifierNode
  dataType :: jsstring
  sd_parameters :: "ParameterNode list"

record ThermodynamicDataNode = ASTNode +
  td_statementType :: jsstring
  td_method :: "jsstring option"
  td_parameters :: "ParameterNode list"

record PrintStatementNode = ASTNode +
  ps_statementType :: jsstring
  ps_parameters :: "ParameterNode list"

datatype StatementNode =
    UnitOperation UnitOperationNode
  | ComponentData ComponentDataNode
  | StreamData StreamDataNode
  | ThermodynamicData ThermodynamicDataNode
  | PrintStatement PrintStatementNode

datatype SectionType =
    S_COMPONENT_DATA | S_STREAM_DATA | S_THERMODYNAMIC_DATA | S_UNIT_OPERATIONS | S_PRINT | S_OTHER

record SectionNode = ASTNode +
  sectionType :: SectionType
  statements :: "StatementNode list"

record ProgramNode = ASTNode +
  sections :: "SectionNode list"

section \<open>The symbol table (symbolTable.ts)\<close>

datatype SymbolKind = K_STREAM | K_UNIT | K_COMPONENT | K_PARAMETER

text \<open>
  A reference \<open>{line, context}\<close> and the bag \<open>metadata\<close>. The optional \<open>column\<close> of a
  reference and of \<open>definedAt\<close> is never assigned in this file, so \<open>definedAt\<close> is the line.
  The stream properties \<open>temp\<close>, \<open>pres\<close>, \<open>rate\<close>, \<open>rateUnit\<close> are what the regular
  expressions of \<open>extractStreamProperties\<close> read from a line of text, later lines
  overriding earlier ones; the model keeps the lines they are read from, in order
  (\<open>propertyLines\<close>), and not the expressions.
\<close>

record Reference =
  ref_line :: nat
  ref_context :: jsstring

record Metadata =
  unitType :: "jsstring option"
  meta_libid :: "jsnumber option"
  componentName :: "jsstring option"
  propertyLines :: "jsstring list"
  formula :: "jsstring option"
  meta_type :: "jsstring option"
  molecularWeight :: "jsstring option"

definition emptyMetadata :: Metadata where
  "emptyMetadata = \<lparr>unitType = None, meta_libid = None, componentName = None,
     propertyLines = [], formula = None, meta_type = None, molecularWeight = None\<rparr>"

record Symbol =
  sym_name :: jsstring
  kind :: SymbolKind
  definedAt :: nat
  references :: "Reference list"
  metadata :: "Metadata option"

text \<open>
  \<open>Map<string, Symbol>\<close> keeps its keys in insertion order: an association list in which
  \<open>set\<close> of a new key appends and a change to a stored symbol replaces it in place.
\<close>

type_synonym SymbolMap = "(jsstring \<times> Symbol) list"

definition map_has :: "SymbolMap \<Rightarrow> jsstring \<Rightarrow> bool" where
  "map_has m k = (map_of m k \<noteq> None)"

fun map_set :: "jsstring \<Rightarrow> Symbol \<Rightarrow> SymbolMap \<Rightarrow> SymbolMap" where
  "map_set k v [] = [(k, v)]"
| "map_set k v (p # ps) = (if fst p = k then (k, v) # ps else p # map_set k v ps)"

record SymbolTable =
  symbols :: SymbolMap
  documentText :: jsstring

definition new_SymbolTable :: SymbolTable where
  "new_SymbolTable = \<lparr>symbols = [], documentText = []\<rparr>"

text \<open>The table of \<open>getComponentDetails\<close>: type, formula, molecular weight. The subscript
  digits of the formulas are written as ASCII digits.\<close>

definition componentDetails :: "(jsstring \<times> (jsstring \<times> jsstring \<times> jsstring)) list" where
  "componentDetails =
    [(js ''H2O'', (js ''Inorganic'', js ''H2O'', js ''18.02'')),
     (js ''H2'', (js ''Inorganic Gas'', js ''H2'', js ''2.02'')),
     (js ''N2'', (js ''Inorganic Gas'', js ''N2'', js ''28.01'')),
     (js ''O2'', (js ''Inorganic Gas'', js ''O2'', js ''32.00'')),
     (js ''CO2'', (js ''Inorganic Gas'', js ''CO2'', js ''44.01'')),
     (js ''CO'', (js ''Inorganic Gas'', js ''CO'', js ''28.01'')),
     (js ''H2S'', (js ''Inorganic Gas'', js ''H2S'', js ''34.08'')),
     (js ''NH3'', (js ''Inorganic Gas'', js ''NH3'', js ''17.03'')),
     (js ''C1'', (js ''Hydrocarbon'', js ''CH4 (Methane)'', js ''16.04'')),
     (js ''CH4'', (js ''Hydrocarbon'', js ''CH4 (Methane)'', js ''16.04'')),
     (js ''C2'', (js ''Hydrocarbon'', js ''C2H6 (Ethane)'', js ''30.07'')),
     (js ''C2H6'', (js ''Hydrocarbon'', js ''C2H6 (Ethane)'', js ''30.07'')),
     (js ''ETHANE'', (js ''Hydrocarbon'', js ''C2H6 (Ethane)'', js ''30.07'')),
     (js ''C3'', (js ''Hydrocarbon'', js ''C3H8 (Propane)'', js ''44.10'')),
     (js ''C3H8'', (js ''Hydrocarbon'', js ''C3H8 (Propane)'', js ''44.10'')),
     (js ''PROPANE'', (js ''Hydrocarbon'', js ''C3H8 (Propane)'', js ''44.10'')),
     (js ''IC4'', (js ''Hydrocarbon'', js ''C4H10 (i-Butane)'', js ''58.12'')),
     (js ''ISOBUTANE'', (js ''Hydrocarbon'', js ''C4H10 (i-Butane)'', js ''58.12'')),
     (js ''NC4'', (js ''Hydrocarbon'', js ''C4H10 (n-Butane)'', js ''58.12'')),
     (js ''N-BUTANE'', (js ''Hydrocarbon'', js ''C4H10 (n-Butane)'', js ''58.12'')),
     (js ''IC5'', (js ''Hydrocarbon'', js ''C5H12 (i-Pentane)'', js ''72.15'')),
     (js ''NC5'', (js ''Hydrocarbon'', js ''C5H12 (n-Pentane)'', js ''72.15'')),
     (js ''NC6'', (js ''Hydrocarbon'', js ''C6H14 (n-Hexane)'', js ''86.18'')),
     (js ''NC7'', (js ''Hydrocarbon'', js ''C7H16 (n-Heptane)'', js ''100.20'')),
     (js ''NC8'', (js ''Hydrocarbon'', js ''C8H18 (n-Octane)'', js ''114.23'')),
     (js ''NC9'', (js ''Hydrocarbon'', js ''C9H20 (n-Nonane)'', js ''128.26'')),
     (js ''NC10'', (js ''Hydrocarbon'', js ''C10H22 (n-Decane)'', js ''142.28'')),
     (js ''NC12'', (js ''Hydrocarbon'', js ''C12H26 (n-Dodecane)'', js ''170.34'')),
     (js ''NC13'', (js ''Hydrocarbon'', js ''C13H28 (n-Tridecane)'', js ''184.36'')),
     (js ''NC14'', (js ''Hydrocarbon'', js ''C14H30 (n-Tetradecane)'', js ''198.39'')),
     (js ''NC15'', (js ''Hydrocarbon'', js ''C15H32 (n-Pentadecane)'', js ''212.41'')),
     (js ''NC16'', (js ''Hydrocarbon'', js ''C16H34 (n-Hexadecane)'', js ''226.44'')),
     (js ''BENZENE'', (js ''Aromatic'', js ''C6H6'', js ''78.11'')),
     (js ''TOLUENE'', (js ''Aromatic'', js ''C7H8'', js ''92.14'')),
     (js ''ETHYLBENZENE'', (js ''Aromatic'', js ''C8H10'', js ''106.17'')),
     (js ''XYLENE'', (js ''Aromatic'', js ''C8H10'', js ''106.17''))]"

definition getComponentDetails :: "jsstring \<Rightarrow> (jsstring \<times> jsstring \<times> jsstring) option" where
  "getComponentDetails nm = map_of componentDetails nm"

definition addComponent :: "ComponentNode \<Rightarrow> SymbolTable \<Rightarrow> SymbolTable" where
  "addComponent cnode st =
     (let nm = toUpperCase (comp_identifier cnode) in
      if \<not> map_has (symbols st) nm then
        (let details = getComponentDetails nm in
         st\<lparr>symbols := map_set nm
           \<lparr>sym_name = nm, kind = K_COMPONENT, definedAt = startLine cnode, references = [],
            metadata = Some (emptyMetadata
              \<lparr>meta_libid := map_option num_value (libid cnode),
               componentName := Some (comp_identifier cnode),
               formula := map_option (\<lambda>(t, f, w). f) details,
               meta_type := map_option (\<lambda>(t, f, w). t) details,
               molecularWeight := map_option (\<lambda>(t, f, w). w) details\<rparr>)\<rparr>
           (symbols st)\<rparr>)
      else st)"

definition addStream :: "jsstring \<Rightarrow> nat \<Rightarrow> jsstring \<Rightarrow> jsstring \<Rightarrow> SymbolTable \<Rightarrow> SymbolTable" where
  "addStream nm lnum ctx lineText st =
     (let upperName = toUpperCase nm in
      if \<not> map_has (symbols st) upperName then
        st\<lparr>symbols := map_set upperName
          \<lparr>sym_name = upperName, kind = K_STREAM, definedAt = lnum,
           references = [\<lparr>ref_line = lnum, ref_context = ctx\<rparr>],
           metadata = Some (emptyMetadata\<lparr>propertyLines := [lineText]\<rparr>)\<rparr>
          (symbols st)\<rparr>
      else
        (case map_of (symbols st) upperName of
           None \<Rightarrow> st
         | Some symbol \<Rightarrow>
             if kind symbol = K_STREAM then
               (let s1 = symbol\<lparr>references := references symbol @ [\<lparr>ref_line = lnum, ref_context = ctx\<rparr>]\<rparr>;
                    s2 = (if ctx = js ''definition'' \<and> lineText \<noteq> []
                          then s1\<lparr>metadata := Some
                                 ((case metadata s1 of None \<Rightarrow> emptyMetadata | Some md \<Rightarrow> md)
                                    \<lparr>propertyLines :=
                                       (case metadata s1 of None \<Rightarrow> [] | Some md \<Rightarrow> propertyLines md)
                                       @ [lineText]\<rparr>)\<rparr>
                          else s1)
                in st\<lparr>symbols := map_set upperName s2 (symbols st)\<rparr>)
             else st))"

definition addStreamReference :: "jsstring \<Rightarrow> nat \<Rightarrow> jsstring \<Rightarrow> SymbolTable \<Rightarrow> SymbolTable" where
  "addStreamReference nm lnum ctx st =
     (let upperName = toUpperCase nm in
      if \<not> map_has (symbols st) upperName then
        st\<lparr>symbols := map_set upperName
          \<lparr>sym_name = upperName, kind = K_STREAM, definedAt = lnum,
           references = [\<lparr>ref_line = lnum, ref_context = ctx\<rparr>], metadata = None\<rparr>
          (symbols st)\<rparr>
      else
        (case map_of (symbols st) upperName of
           None \<Rightarrow> st
         | Some symbol \<Rightarrow>
             st\<lparr>symbols := map_set upperName
               (symbol\<lparr>references := references symbol @ [\<lparr>ref_line = lnum, ref_context = ctx\<rparr>]\<rparr>)
               (symbols st)\<rparr>))"

definition addUnit :: "jsstring \<Rightarrow> nat \<Rightarrow> jsstring \<Rightarrow> SymbolTable \<Rightarrow> SymbolTable" where
  "addUnit nm lnum unitTy st =
     (let upperName = toUpperCase nm in
      if \<not> map_has (symbols st) upperName then
        st\<lparr>symbols := map_set upperName
          \<lparr>sym_name = upperName, kind = K_UNIT, definedAt = lnum,
           references = [\<lparr>ref_line = lnum, ref_context = js ''definition''\<rparr>],
           metadata = Some (emptyMetadata\<lparr>unitType := Some unitTy\<rparr>)\<rparr>
          (symbols st)\<rparr>
      else st)"

text \<open>\<open>documentText.split(/\r?\n/)\<close> and \<open>getLineText\<close> (line numbers start at 1).\<close>

fun splitLines :: "jsstring \<Rightarrow> jsstring \<Rightarrow> jsstring list" where
  "splitLines cur [] = [cur]"
| "splitLines cur (c # cs) =
     (if c = ch CHR 0x0A then cur # splitLines [] cs
      else if c = ch CHR 0x0D \<and> (case cs of d # _ \<Rightarrow> d = ch CHR 0x0A | [] \<Rightarrow> False)
           then splitLines cur cs
      else splitLines (cur @ [c]) cs)"

definition getLineText :: "SymbolTable \<Rightarrow> nat \<Rightarrow> jsstring" where
  "getLineText st lineNumber =
     (if documentText st = [] then []
      else (let lines = splitLines [] (documentText st) in
            if 1 \<le> lineNumber \<and> lineNumber - 1 < length lines then lines ! (lineNumber - 1)
            else []))"

definition processComponentData :: "SectionNode \<Rightarrow> SymbolTable \<Rightarrow> SymbolTable" where
  "processComponentData section st =
     fold (\<lambda>stmt st. case stmt of ComponentData compStmt \<Rightarrow> fold addComponent (components compStmt) st
                                 | _ \<Rightarrow> st)
       (statements section) st"

definition processStreamData :: "SectionNode \<Rightarrow> SymbolTable \<Rightarrow> SymbolTable" where
  "processStreamData section st =
     fold (\<lambda>stmt st. case stmt of
               StreamData streamStmt \<Rightarrow>
                 (let lineText = getLineText st (startLine streamStmt)
                  in addStream (name (sd_streamName streamStmt)) (startLine streamStmt)
                       (js ''definition'') lineText st)
             | _ \<Rightarrow> st)
       (statements section) st"

text \<open>The body of the loop of \<open>processUnitOperations\<close> for one unit-operation statement.\<close>

definition processUnit :: "UnitOperationNode \<Rightarrow> SymbolTable \<Rightarrow> SymbolTable" where
  "processUnit unitStmt st =
     (let st1 = (case uid unitStmt of
                   Some u \<Rightarrow> addUnit (name u) (startLine unitStmt) (uo_statementType unitStmt) st
                 | None \<Rightarrow> st);
          st2 = fold (\<lambda>feed. addStreamReference (name (ref_streamName feed)) (startLine feed) (js ''feed''))
                  (feedStreams unitStmt) st1
      in fold (\<lambda>prod. addStreamReference (name (ref_streamName prod)) (startLine prod) (js ''product''))
           (productStreams unitStmt) st2)"

definition processUnitOperations :: "SectionNode \<Rightarrow> SymbolTable \<Rightarrow> SymbolTable" where
  "processUnitOperations section st =
     fold (\<lambda>stmt st. case stmt of UnitOperation unitStmt \<Rightarrow> processUnit unitStmt st | _ \<Rightarrow> st)
       (statements section) st"

definition processSection :: "SectionNode \<Rightarrow> SymbolTable \<Rightarrow> SymbolTable" where
  "processSection section st =
     (case sectionType section of
        S_COMPONENT_DATA \<Rightarrow> processComponentData section st
      | S_STREAM_DATA \<Rightarrow> processStreamData section st
      | S_UNIT_OPERATIONS \<Rightarrow> processUnitOperations section st
      | _ \<Rightarrow> st)"

text \<open>\<open>build(ast, documentText?)\<close>: the table is cleared, then every section is processed.\<close>

definition build :: "ProgramNode \<Rightarrow> jsstring \<Rightarrow> SymbolTable \<Rightarrow> SymbolTable" where
  "build ast text st =
     fold processSection (sections ast) (st\<lparr>symbols := [], documentText := text\<rparr>)"

definition getSymbol :: "SymbolTable \<Rightarrow> jsstring \<Rightarrow> Symbol option" where
  "getSymbol st nm = map_of (symbols st) (toUpperCase nm)"

definition getAllSymbols :: "SymbolTable \<Rightarrow> Symbol list" where
  "getAllSymbols st = map snd (symbols st)"

definition getSymbolsByKind :: "SymbolTable \<Rightarrow> SymbolKind \<Rightarrow> Symbol list" where
  "getSymbolsByKind st k = filter (\<lambda>s. kind s = k) (map snd (symbols st))"

definition isDefined :: "SymbolTable \<Rightarrow> jsstring \<Rightarrow> bool" where
  "isDefined st nm = map_has (symbols st) (toUpperCase nm)"

definition hasDefinition :: "Symbol \<Rightarrow> bool" where
  "hasDefinition symbol = list_ex (\<lambda>r. ref_context r = js ''definition'') (references symbol)"

definition getUndefinedSymbols :: "SymbolTable \<Rightarrow> Symbol list" where
  "getUndefinedSymbols st =
     filter (\<lambda>symbol. if kind symbol = K_STREAM
                       then \<not> hasDefinition symbol \<and> 0 < length (references symbol)
                       else False)
       (map snd (symbols st))"

definition getStats :: "SymbolTable \<Rightarrow> nat \<times> nat \<times> nat" where
  "getStats st = (length (getSymbolsByKind st K_STREAM), length (getSymbolsByKind st K_UNIT),
                  length (getSymbolsByKind st K_COMPONENT))"

section \<open>Properties of the symbol table\<close>

subsection \<open>Case folding\<close>

lemma upperUnit_idem: "concat (map upperUnit (upperUnit c)) = upperUnit c"
  by (auto simp: upperUnit_def)

lemma toUpperCase_append: "toUpperCase (a @ b) = toUpperCase a @ toUpperCase b"
  by (simp add: toUpperCase_def)

lemma toUpperCase_idem: "toUpperCase (toUpperCase s) = toUpperCase s"
proof (induction s)
  case Nil
  show ?case by (simp add: toUpperCase_def)
next
  case (Cons c s)
  have "toUpperCase (c # s) = upperUnit c @ toUpperCase s"
    by (simp add: toUpperCase_def)
  moreover have "toUpperCase (upperUnit c) = upperUnit c"
    by (simp add: toUpperCase_def upperUnit_idem)
  ultimately show ?case
    by (simp add: toUpperCase_append Cons.IH)
qed

subsection \<open>The map operations\<close>

lemma map_of_map_set: "map_of (map_set k v m) k' = (if k' = k then Some v else map_of m k')"
  by (induction m) auto

lemma set_map_set: "(k', s) \<in> set (map_set k v m) \<Longrightarrow> (k' = k \<and> s = v) \<or> (k', s) \<in> set m"
  by (induction m) (auto split: if_splits)

lemma fst_set_map_set: "fst ` set (map_set k v m) = insert k (fst ` set m)"
  by (induction m) auto

lemma distinct_map_set: "distinct (map fst m) \<Longrightarrow> distinct (map fst (map_set k v m))"
proof (induction m)
  case Nil
  then show ?case by simp
next
  case (Cons p m)
  then show ?case
    using fst_set_map_set [of k v m] by (auto simp: image_iff)
qed


subsection \<open>What one registration does to the table\<close>

definition wfTable :: "SymbolMap \<Rightarrow> bool" where
  "wfTable m = (distinct (map fst m) \<and> (\<forall>(k, s) \<in> set m. toUpperCase k = k \<and> sym_name s = k))"

definition persists :: "SymbolMap \<Rightarrow> SymbolMap \<Rightarrow> bool" where
  "persists m m' =
     (\<forall>k s. map_of m k = Some s \<longrightarrow>
        (\<exists>s'. map_of m' k = Some s' \<and> sym_name s' = sym_name s \<and> kind s' = kind s \<and>
              definedAt s' = definedAt s \<and> prefix (references s) (references s')))"

definition stepOf :: "jsstring \<Rightarrow> SymbolMap \<Rightarrow> SymbolMap \<Rightarrow> bool" where
  "stepOf k m m' =
     (m' = m \<or>
      (\<exists>v. m' = map_set k v m \<and>
           (case map_of m k of
              None \<Rightarrow> sym_name v = k
            | Some s \<Rightarrow> sym_name v = sym_name s \<and> kind v = kind s \<and> definedAt v = definedAt s \<and>
                        prefix (references s) (references v))))"

lemma persists_refl: "persists m m"
  by (simp add: persists_def)

lemma persists_trans:
  assumes "persists m m'" and "persists m' m''"
  shows "persists m m''"
  unfolding persists_def
proof (intro allI impI)
  fix k s assume "map_of m k = Some s"
  with assms(1) obtain s' where s': "map_of m' k = Some s'" "sym_name s' = sym_name s"
    "kind s' = kind s" "definedAt s' = definedAt s" "prefix (references s) (references s')"
    unfolding persists_def by blast
  from assms(2) s'(1) obtain s'' where s'': "map_of m'' k = Some s''" "sym_name s'' = sym_name s'"
    "kind s'' = kind s'" "definedAt s'' = definedAt s'" "prefix (references s') (references s'')"
    unfolding persists_def by blast
  from s' s'' have "prefix (references s) (references s'')" by (auto intro: prefix_order.trans)
  with s' s'' show "\<exists>t. map_of m'' k = Some t \<and> sym_name t = sym_name s \<and> kind t = kind s \<and>
      definedAt t = definedAt s \<and> prefix (references s) (references t)"
    by simp
qed

lemma stepOf_persists: "stepOf k m m' \<Longrightarrow> persists m m'"
  unfolding stepOf_def persists_def
  by (auto simp: map_of_map_set split: option.splits)

lemma stepOf_other: "stepOf k m m' \<Longrightarrow> k' \<noteq> k \<Longrightarrow> map_of m' k' = map_of m k'"
  unfolding stepOf_def by (auto simp: map_of_map_set)

lemma stepOf_wf:
  assumes "stepOf k m m'" and "wfTable m" and "toUpperCase k = k"
  shows "wfTable m'"
proof (cases "m' = m")
  case True
  with assms show ?thesis by simp
next
  case False
  with assms(1) obtain v where v: "m' = map_set k v m"
    and c: "case map_of m k of None \<Rightarrow> sym_name v = k
            | Some s \<Rightarrow> sym_name v = sym_name s \<and> kind v = kind s \<and> definedAt v = definedAt s \<and>
                prefix (references s) (references v)"
    unfolding stepOf_def by auto
  have nm: "sym_name v = k"
  proof (cases "map_of m k")
    case None
    with c show ?thesis by simp
  next
    case (Some s)
    then have "(k, s) \<in> set m" by (rule map_of_SomeD)
    with assms(2) have "sym_name s = k" unfolding wfTable_def by auto
    with c Some show ?thesis by simp
  qed
  have d: "distinct (map fst m')" using assms(2) v by (simp add: wfTable_def distinct_map_set)
  have "\<forall>(k', s) \<in> set m'. toUpperCase k' = k' \<and> sym_name s = k'"
  proof (clarify)
    fix k' s assume "(k', s) \<in> set m'"
    then have "(k' = k \<and> s = v) \<or> (k', s) \<in> set m" unfolding v by (rule set_map_set)
    then show "toUpperCase k' = k' \<and> sym_name s = k'"
      using nm assms(2,3) unfolding wfTable_def by auto
  qed
  with d show ?thesis by (simp add: wfTable_def)
qed

lemma addComponent_step:
  "stepOf (toUpperCase (comp_identifier c)) (symbols st) (symbols (addComponent c st))"
  by (auto simp: addComponent_def stepOf_def Let_def map_has_def)

lemma addUnit_step: "stepOf (toUpperCase n) (symbols st) (symbols (addUnit n l ty st))"
  by (auto simp: addUnit_def stepOf_def Let_def map_has_def)

lemma addStreamReference_step:
  "stepOf (toUpperCase n) (symbols st) (symbols (addStreamReference n l c st))"
  by (auto simp: addStreamReference_def stepOf_def Let_def map_has_def split: option.splits)

lemma addStream_step:
  "stepOf (toUpperCase n) (symbols st) (symbols (addStream n l c t st))"
  by (auto simp: addStream_def stepOf_def Let_def map_has_def split: option.splits)

lemma documentText_add [simp]:
  "documentText (addComponent c st) = documentText st"
  "documentText (addUnit n l ty st) = documentText st"
  "documentText (addStreamReference n l cx st) = documentText st"
  "documentText (addStream n l cx t st) = documentText st"
  by (auto simp: addComponent_def addUnit_def addStreamReference_def addStream_def Let_def
      split: option.splits)

subsection \<open>Invariants of a whole build\<close>

lemma fold_invariant:
  "P s \<Longrightarrow> (\<And>x s. x \<in> set xs \<Longrightarrow> P s \<Longrightarrow> P (f x s)) \<Longrightarrow> P (fold f xs s)"
  by (induction xs arbitrary: s) auto

lemma fold_establish:
  assumes "x \<in> set xs" and "\<And>s. P (f x s)" and "\<And>y s. y \<in> set xs \<Longrightarrow> P s \<Longrightarrow> P (f y s)"
  shows "P (fold f xs s)"
  using assms
proof (induction xs arbitrary: s)
  case Nil
  then show ?case by simp
next
  case (Cons a xs)
  show ?case
  proof (cases "x = a")
    case True
    have "P (f a s)" using Cons.prems(2) True by simp
    then have "P (fold f xs (f a s))"
      by (rule fold_invariant [where P = P]) (simp add: Cons.prems(3))
    then show ?thesis by simp
  next
    case False
    with Cons.prems(1) have "x \<in> set xs" by simp
    then have "P (fold f xs (f a s))"
      by (rule Cons.IH) (simp_all add: Cons.prems)
    then show ?thesis by simp
  qed
qed

text \<open>
  A property of the table that every registration keeps is kept by each loop of the
  builder. \<open>keeps P\<close> says so of the four registrations.
\<close>

definition keeps :: "(SymbolTable \<Rightarrow> bool) \<Rightarrow> bool" where
  "keeps P =
     ((\<forall>c st. P st \<longrightarrow> P (addComponent c st)) \<and>
      (\<forall>n l ty st. P st \<longrightarrow> P (addUnit n l ty st)) \<and>
      (\<forall>n l cx st. P st \<longrightarrow> P (addStreamReference n l cx st)) \<and>
      (\<forall>n l cx t st. P st \<longrightarrow> P (addStream n l cx t st)))"

lemma keeps_processUnit:
  assumes k: "keeps P" and p: "P st"
  shows "P (processUnit u st)"
proof -
  define st1 where "st1 = (case uid u of
      Some i \<Rightarrow> addUnit (name i) (startLine u) (uo_statementType u) st | None \<Rightarrow> st)"
  have 1: "P st1"
    using k p unfolding st1_def keeps_def by (simp split: option.splits)
  define st2 where "st2 = fold (\<lambda>feed. addStreamReference (name (ref_streamName feed))
      (startLine feed) (js ''feed'')) (feedStreams u) st1"
  have 2: "P st2"
    unfolding st2_def using k by (intro fold_invariant [where P = P, OF 1]) (simp add: keeps_def)
  have 3: "P (fold (\<lambda>prod. addStreamReference (name (ref_streamName prod))
      (startLine prod) (js ''product'')) (productStreams u) st2)"
    using k by (intro fold_invariant [where P = P, OF 2]) (simp add: keeps_def)
  then show ?thesis by (simp add: processUnit_def Let_def st1_def st2_def)
qed

lemma keeps_processSection:
  assumes k: "keeps P" and p: "P st"
  shows "P (processSection sec st)"
proof -
  have addc: "\<And>cs s. P s \<Longrightarrow> P (fold addComponent cs s)"
  proof -
    fix cs :: "ComponentNode list" and s :: SymbolTable
    assume "P s"
    then show "P (fold addComponent cs s)"
      using k by (intro fold_invariant [where P = P]) (simp_all add: keeps_def)
  qed
  have c: "P (processComponentData sec st)"
    unfolding processComponentData_def
  proof (rule fold_invariant [where P = P, OF p])
    fix x :: StatementNode and s :: SymbolTable
    assume "P s"
    then show "P (case x of ComponentData compStmt \<Rightarrow> fold addComponent (components compStmt) s
                  | _ \<Rightarrow> s)"
      by (cases x) (simp_all add: addc)
  qed
  have s: "P (processStreamData sec st)"
    unfolding processStreamData_def
  proof (rule fold_invariant [where P = P, OF p])
    fix x :: StatementNode and s :: SymbolTable
    assume "P s"
    then show "P (case x of
        StreamData streamStmt \<Rightarrow>
          (let lineText = getLineText s (startLine streamStmt)
           in addStream (name (sd_streamName streamStmt)) (startLine streamStmt)
                (js ''definition'') lineText s)
      | _ \<Rightarrow> s)"
      using k by (cases x) (simp_all add: keeps_def Let_def)
  qed
  have u: "P (processUnitOperations sec st)"
    unfolding processUnitOperations_def
  proof (rule fold_invariant [where P = P, OF p])
    fix x :: StatementNode and s :: SymbolTable
    assume "P s"
    then show "P (case x of UnitOperation unitStmt \<Rightarrow> processUnit unitStmt s | _ \<Rightarrow> s)"
      using k by (cases x) (simp_all add: keeps_processUnit)
  qed
  show ?thesis
    using c s u p by (cases "sectionType sec") (simp_all add: processSection_def)
qed

lemma keeps_sections:
  assumes k: "keeps P" and p: "P st"
  shows "P (fold processSection secs st)"
  by (rule fold_invariant [where P = P, OF p]) (rule keeps_processSection [OF k])

lemma keeps_wf: "keeps (\<lambda>st. wfTable (symbols st))"
  unfolding keeps_def
proof (intro conjI allI impI)
  fix c and st :: SymbolTable assume "wfTable (symbols st)"
  with addComponent_step show "wfTable (symbols (addComponent c st))"
    by (rule stepOf_wf) (rule toUpperCase_idem)
next
  fix n l ty and st :: SymbolTable assume "wfTable (symbols st)"
  with addUnit_step show "wfTable (symbols (addUnit n l ty st))"
    by (rule stepOf_wf) (rule toUpperCase_idem)
next
  fix n l cx and st :: SymbolTable assume "wfTable (symbols st)"
  with addStreamReference_step show "wfTable (symbols (addStreamReference n l cx st))"
    by (rule stepOf_wf) (rule toUpperCase_idem)
next
  fix n l cx t and st :: SymbolTable assume "wfTable (symbols st)"
  with addStream_step show "wfTable (symbols (addStream n l cx t st))"
    by (rule stepOf_wf) (rule toUpperCase_idem)
qed

lemma keeps_persists: "keeps (\<lambda>st. persists m (symbols st))"
  unfolding keeps_def
proof (intro conjI allI impI)
  fix c and st :: SymbolTable assume "persists m (symbols st)"
  then show "persists m (symbols (addComponent c st))"
    by (rule persists_trans) (rule stepOf_persists [OF addComponent_step])
next
  fix n l ty and st :: SymbolTable assume "persists m (symbols st)"
  then show "persists m (symbols (addUnit n l ty st))"
    by (rule persists_trans) (rule stepOf_persists [OF addUnit_step])
next
  fix n l cx and st :: SymbolTable assume "persists m (symbols st)"
  then show "persists m (symbols (addStreamReference n l cx st))"
    by (rule persists_trans) (rule stepOf_persists [OF addStreamReference_step])
next
  fix n l cx t and st :: SymbolTable assume "persists m (symbols st)"
  then show "persists m (symbols (addStream n l cx t st))"
    by (rule persists_trans) (rule stepOf_persists [OF addStream_step])
qed

lemma build_wf: "wfTable (symbols (build ast doc st))"
  unfolding build_def
  by (rule keeps_sections [OF keeps_wf]) (simp add: wfTable_def)

subsection \<open>Example trees\<close>

text \<open>The tree of \<open>UNIT / FLASH FEED X\<close>: one unit operation without a uid, fed by \<open>X\<close>.\<close>

definition feedOnlyAst :: ProgramNode where
  "feedOnlyAst =
     \<lparr>startLine = 1, endLine = 2, sections =
       [\<lparr>startLine = 1, endLine = 2, sectionType = S_UNIT_OPERATIONS, statements =
          [UnitOperation \<lparr>startLine = 2, endLine = 2, uo_statementType = js ''FLASH'', uid = None,
             uo_parameters = [],
             feedStreams = [\<lparr>startLine = 2, endLine = 2,
                ref_streamName = \<lparr>startLine = 2, endLine = 2, name = js ''X''\<rparr>, streamType = None\<rparr>],
             productStreams = []\<rparr>]\<rparr>]\<rparr>"

text \<open>The tree of \<open>UNIT / FLASH UID=U / FLASH UID=U\<close>: the uid \<open>U\<close> is defined twice.\<close>

definition dupUnitAst :: ProgramNode where
  "dupUnitAst =
     \<lparr>startLine = 1, endLine = 3, sections =
       [\<lparr>startLine = 1, endLine = 3, sectionType = S_UNIT_OPERATIONS, statements =
          [UnitOperation \<lparr>startLine = 2, endLine = 3, uo_statementType = js ''FLASH'',
             uid = Some \<lparr>startLine = 2, endLine = 2, name = js ''U''\<rparr>,
             uo_parameters = [], feedStreams = [], productStreams = []\<rparr>,
           UnitOperation \<lparr>startLine = 3, endLine = 3, uo_statementType = js ''FLASH'',
             uid = Some \<lparr>startLine = 3, endLine = 3, name = js ''U''\<rparr>,
             uo_parameters = [], feedStreams = [], productStreams = []\<rparr>]\<rparr>]\<rparr>"

text \<open>The tree of \<open>UNIT / FLASH UID=X, FEED X\<close>: the unit \<open>X\<close> is fed by a stream \<open>X\<close>.\<close>

definition selfFeedAst :: ProgramNode where
  "selfFeedAst =
     \<lparr>startLine = 1, endLine = 2, sections =
       [\<lparr>startLine = 1, endLine = 2, sectionType = S_UNIT_OPERATIONS, statements =
          [UnitOperation \<lparr>startLine = 2, endLine = 2, uo_statementType = js ''FLASH'',
             uid = Some \<lparr>startLine = 2, endLine = 2, name = js ''X''\<rparr>,
             uo_parameters = [],
             feedStreams = [\<lparr>startLine = 2, endLine = 2,
                ref_streamName = \<lparr>startLine = 2, endLine = 2, name = js ''X''\<rparr>, streamType = None\<rparr>],
             productStreams = []\<rparr>]\<rparr>]\<rparr>"

text \<open>The tree of \<open>STREAM DATA / PROP DATA=Inlet\<close> followed by \<open>UNIT / FLASH FEED inlet\<close>.\<close>

definition definedFeedAst :: ProgramNode where
  "definedFeedAst =
     \<lparr>startLine = 1, endLine = 4, sections =
       [\<lparr>startLine = 1, endLine = 3, sectionType = S_STREAM_DATA, statements =
          [StreamData \<lparr>startLine = 2, endLine = 3, sd_statementType = js ''PROP'',
             sd_streamName = \<lparr>startLine = 2, endLine = 2, name = js ''Inlet''\<rparr>,
             dataType = js ''DATA'', sd_parameters = []\<rparr>]\<rparr>,
        \<lparr>startLine = 3, endLine = 4, sectionType = S_UNIT_OPERATIONS, statements =
          [UnitOperation \<lparr>startLine = 4, endLine = 4, uo_statementType = js ''FLASH'', uid = None,
             uo_parameters = [],
             feedStreams = [\<lparr>startLine = 4, endLine = 4,
                ref_streamName = \<lparr>startLine = 4, endLine = 4, name = js ''inlet''\<rparr>, streamType = None\<rparr>],
             productStreams = []\<rparr>]\<rparr>]\<rparr>"

text \<open>
  The tree of \<open>STREAM DATA / PROP DATA=nm\<close>: one stream statement, which defines the
  stream \<open>nm\<close>.
\<close>

definition oneStreamAst :: "jsstring \<Rightarrow> ProgramNode" where
  "oneStreamAst nm =
     \<lparr>startLine = 1, endLine = 2, sections =
       [\<lparr>startLine = 1, endLine = 2, sectionType = S_STREAM_DATA, statements =
          [StreamData \<lparr>startLine = 2, endLine = 2, sd_statementType = js ''PROP'',
             sd_streamName = \<lparr>startLine = 2, endLine = 2, name = nm\<rparr>,
             dataType = js ''DATA'', sd_parameters = []\<rparr>]\<rparr>]\<rparr>"

text \<open>
  The tree of \<open>UNIT / FLASH FEED X / FLASH UID=X\<close>: a unit is fed by \<open>X\<close>, and a later unit
  has the uid \<open>X\<close>.
\<close>

definition feedThenUnitAst :: ProgramNode where
  "feedThenUnitAst =
     \<lparr>startLine = 1, endLine = 3, sections =
       [\<lparr>startLine = 1, endLine = 3, sectionType = S_UNIT_OPERATIONS, statements =
          [UnitOperation \<lparr>startLine = 2, endLine = 3, uo_statementType = js ''FLASH'', uid = None,
             uo_parameters = [],
             feedStreams = [\<lparr>startLine = 2, endLine = 2,
                ref_streamName = \<lparr>startLine = 2, endLine = 2, name = js ''X''\<rparr>, streamType = None\<rparr>],
             productStreams = []\<rparr>,
           UnitOperation \<lparr>startLine = 3, endLine = 3, uo_statementType = js ''FLASH'',
             uid = Some \<lparr>startLine = 3, endLine = 3, name = js ''X''\<rparr>,
             uo_parameters = [], feedStreams = [], productStreams = []\<rparr>]\<rparr>]\<rparr>"

section \<open>Claims about the symbol table\<close>

lemma oneStreamAst_keys:
  "map fst (symbols (build (oneStreamAst nm) doc st)) = [toUpperCase nm]"
  by (simp add: oneStreamAst_def build_def processSection_def processStreamData_def
      addStream_def Let_def map_has_def)

lemma latin1_upper_lower:
  "c \<le> 0xFF \<Longrightarrow> concat (map upperUnit (lowerUnit c)) = upperUnit c"
  by (auto simp: upperUnit_def lowerUnit_def)

lemma toUpperCase_toLowerCase_latin1:
  "\<forall>c \<in> set s. c \<le> 0xFF \<Longrightarrow> toUpperCase (toLowerCase s) = toUpperCase s"
proof (induction s)
  case Nil
  show ?case by (simp add: toUpperCase_def toLowerCase_def)
next
  case (Cons c s)
  have "toUpperCase (toLowerCase (c # s)) = toUpperCase (lowerUnit c) @ toUpperCase (toLowerCase s)"
    by (simp add: toLowerCase_def toUpperCase_append)
  also have "toUpperCase (lowerUnit c) = upperUnit c"
    using Cons.prems by (simp add: toUpperCase_def latin1_upper_lower)
  also have "toUpperCase (toLowerCase s) = toUpperCase s"
    using Cons by simp
  finally show ?case by (simp add: toUpperCase_def)
qed

text \<open>
  Claim C7, as amended. For every built table and every name \<open>N\<close>, \<open>getSymbol\<close> gives the
  same result for \<open>N\<close> and \<open>N.toUpperCase()\<close>, and every entry of the table is stored under
  an upper-case key (which is also the symbol's name). It gives that result for
  \<open>N.toLowerCase()\<close> as well when the upper case of \<open>N.toLowerCase()\<close> is the upper case of
  \<open>N\<close>, which is so for every name of code units up to \<open>0xFF\<close>; for any other name some
  built table tells \<open>N\<close> and \<open>N.toLowerCase()\<close> apart.
\<close>

theorem getSymbol_case_insensitive:
  "getSymbol (build ast doc st) N = getSymbol (build ast doc st) (toUpperCase N) \<and>
   (toUpperCase (toLowerCase N) = toUpperCase N \<longrightarrow>
      getSymbol (build ast doc st) N = getSymbol (build ast doc st) (toLowerCase N)) \<and>
   ((\<forall>c \<in> set N. c \<le> 0xFF) \<longrightarrow> toUpperCase (toLowerCase N) = toUpperCase N) \<and>
   (toUpperCase (toLowerCase N) \<noteq> toUpperCase N \<longrightarrow>
      getSymbol (build (oneStreamAst (toLowerCase N)) doc st) N = None \<and>
      getSymbol (build (oneStreamAst (toLowerCase N)) doc st) (toLowerCase N) \<noteq> None) \<and>
   (\<forall>(k, s) \<in> set (symbols (build ast doc st)). toUpperCase k = k \<and> sym_name s = k)"
proof (intro conjI impI)
  show "getSymbol (build ast doc st) N = getSymbol (build ast doc st) (toUpperCase N)"
    by (simp add: getSymbol_def toUpperCase_idem)
next
  assume "toUpperCase (toLowerCase N) = toUpperCase N"
  then show "getSymbol (build ast doc st) N = getSymbol (build ast doc st) (toLowerCase N)"
    by (simp add: getSymbol_def)
next
  assume "\<forall>c \<in> set N. c \<le> 0xFF"
  then show "toUpperCase (toLowerCase N) = toUpperCase N"
    by (rule toUpperCase_toLowerCase_latin1)
next
  let ?T = "build (oneStreamAst (toLowerCase N)) doc st"
  assume d: "toUpperCase (toLowerCase N) \<noteq> toUpperCase N"
  have "set (map fst (symbols ?T)) = {toUpperCase (toLowerCase N)}"
    by (simp only: oneStreamAst_keys) simp
  then have k: "fst ` set (symbols ?T) = {toUpperCase (toLowerCase N)}"
    by simp
  from d show "getSymbol ?T N = None"
    by (simp add: getSymbol_def map_of_eq_None_iff k)
  show "getSymbol ?T (toLowerCase N) \<noteq> None"
    by (simp add: getSymbol_def map_of_eq_None_iff k)
next
  show "\<forall>(k, s) \<in> set (symbols (build ast doc st)). toUpperCase k = k \<and> sym_name s = k"
    using build_wf [of ast doc st] by (simp add: wfTable_def)
qed

text \<open>
  The witness: the names \<open>Inlet\<close> and \<open>0x212A\<close> (the Kelvin sign, whose lower case is \<open>k\<close>).
\<close>

theorem getSymbol_case_insensitive_witness:
  "getSymbol (build definedFeedAst [] new_SymbolTable) (js ''Inlet'') =
     getSymbol (build definedFeedAst [] new_SymbolTable) (js ''INLET'') \<and>
   toUpperCase (toLowerCase (js ''Inlet'')) = toUpperCase (js ''Inlet'') \<and>
   getSymbol (build definedFeedAst [] new_SymbolTable) (js ''Inlet'') =
     getSymbol (build definedFeedAst [] new_SymbolTable) (js ''inlet'') \<and>
   map fst (symbols (build definedFeedAst [] new_SymbolTable)) = [js ''INLET''] \<and>
   toUpperCase (js ''INLET'') = js ''INLET'' \<and>
   toUpperCase (toLowerCase [0x212A]) \<noteq> toUpperCase [0x212A] \<and>
   getSymbol (build (oneStreamAst (js ''k'')) [] new_SymbolTable) [0x212A] = None \<and>
   getSymbol (build (oneStreamAst (js ''k'')) [] new_SymbolTable) (js ''k'') \<noteq> None"
proof -
  have e: "toUpperCase (js ''Inlet'') = js ''INLET''" "toLowerCase (js ''Inlet'') = js ''inlet''"
    "toLowerCase [0x212A] = js ''k''"
    by code_simp+
  have l: "\<forall>c \<in> set (js ''Inlet''). c \<le> 0xFF"
    by code_simp
  have k: "map fst (symbols (build definedFeedAst [] new_SymbolTable)) = [js ''INLET'']"
    by code_simp
  have u: "toUpperCase (js ''INLET'') = js ''INLET''"
    by code_simp
  have d: "toUpperCase (toLowerCase [0x212A]) \<noteq> toUpperCase [0x212A]"
    by code_simp
  note t1 = getSymbol_case_insensitive [of definedFeedAst "[]" new_SymbolTable "js ''Inlet''"]
  from t1 l have f: "toUpperCase (toLowerCase (js ''Inlet'')) = toUpperCase (js ''Inlet'')"
    by blast
  from t1 f
  have "getSymbol (build definedFeedAst [] new_SymbolTable) (js ''Inlet'') =
          getSymbol (build definedFeedAst [] new_SymbolTable) (toUpperCase (js ''Inlet'')) \<and>
        getSymbol (build definedFeedAst [] new_SymbolTable) (js ''Inlet'') =
          getSymbol (build definedFeedAst [] new_SymbolTable) (toLowerCase (js ''Inlet''))"
    by blast
  then have g: "getSymbol (build definedFeedAst [] new_SymbolTable) (js ''Inlet'') =
          getSymbol (build definedFeedAst [] new_SymbolTable) (js ''INLET'') \<and>
        getSymbol (build definedFeedAst [] new_SymbolTable) (js ''Inlet'') =
          getSymbol (build definedFeedAst [] new_SymbolTable) (js ''inlet'')"
    unfolding e .
  from d getSymbol_case_insensitive [of definedFeedAst "[]" new_SymbolTable "[0x212A]"]
  have "getSymbol (build (oneStreamAst (toLowerCase [0x212A])) [] new_SymbolTable) [0x212A] = None \<and>
        getSymbol (build (oneStreamAst (toLowerCase [0x212A])) [] new_SymbolTable)
          (toLowerCase [0x212A]) \<noteq> None"
    by blast
  then have h: "getSymbol (build (oneStreamAst (js ''k'')) [] new_SymbolTable) [0x212A] = None \<and>
        getSymbol (build (oneStreamAst (js ''k'')) [] new_SymbolTable) (js ''k'') \<noteq> None"
    unfolding e .
  from g f k u d h show ?thesis by blast
qed

text \<open>
  Claim C7 as stated fails at the name \<open>0x212A\<close>: its lower case is \<open>k\<close>, its upper case
  is itself. In the table of \<open>STREAM DATA / PROP DATA=K\<close>, \<open>getSymbol\<close> finds nothing for
  the name and finds the stream \<open>K\<close> for the lower case of the name.
\<close>

theorem getSymbol_case_insensitive_counterexample:
  "toLowerCase [0x212A] = js ''k'' \<and> toUpperCase [0x212A] = [0x212A] \<and>
   getSymbol (build (oneStreamAst (js ''K'')) [] new_SymbolTable) [0x212A] = None \<and>
   map_option (\<lambda>s. (sym_name s, kind s))
     (getSymbol (build (oneStreamAst (js ''K'')) [] new_SymbolTable) (toLowerCase [0x212A])) =
     Some (js ''K'', K_STREAM)"
  by code_simp

text \<open>
  Claim C10. \<open>isDefined\<close> is true exactly when the table has an entry for the case-folded
  name, whatever the roles of its references; every symbol that \<open>getUndefinedSymbols\<close>
  returns after a build is therefore also \<open>isDefined\<close>. For the tree of
  \<open>UNIT / FLASH FEED X\<close> the stream \<open>X\<close> has the one reference with role feed, is
  \<open>isDefined\<close>, and is the one undefined symbol.
\<close>

theorem isDefined_of_undefined:
  "(isDefined st N \<longleftrightarrow> getSymbol st N \<noteq> None) \<and>
   (\<forall>s \<in> set (getUndefinedSymbols (build ast doc st0)).
      isDefined (build ast doc st0) (sym_name s)) \<and>
   isDefined (build feedOnlyAst [] new_SymbolTable) (js ''X'') \<and>
   map sym_name (getUndefinedSymbols (build feedOnlyAst [] new_SymbolTable)) = [js ''X''] \<and>
   map_option references (getSymbol (build feedOnlyAst [] new_SymbolTable) (js ''X'')) =
     Some [\<lparr>ref_line = 2, ref_context = js ''feed''\<rparr>]"
proof (intro conjI ballI)
  show "isDefined st N \<longleftrightarrow> getSymbol st N \<noteq> None"
    by (simp add: isDefined_def getSymbol_def map_has_def)
next
  fix s assume "s \<in> set (getUndefinedSymbols (build ast doc st0))"
  then obtain k where ks: "(k, s) \<in> set (symbols (build ast doc st0))"
    by (auto simp: getUndefinedSymbols_def)
  with build_wf [of ast doc st0] have "toUpperCase k = k" "sym_name s = k"
    by (auto simp: wfTable_def)
  moreover from ks have "map_of (symbols (build ast doc st0)) k \<noteq> None"
    by (simp add: map_of_eq_None_iff image_iff) (metis fst_conv)
  ultimately show "isDefined (build ast doc st0) (sym_name s)"
    by (simp add: isDefined_def map_has_def)
next
  show "isDefined (build feedOnlyAst [] new_SymbolTable) (js ''X'')"
    by code_simp
next
  show "map sym_name (getUndefinedSymbols (build feedOnlyAst [] new_SymbolTable)) = [js ''X'']"
    by code_simp
next
  show "map_option references (getSymbol (build feedOnlyAst [] new_SymbolTable) (js ''X'')) =
     Some [\<lparr>ref_line = 2, ref_context = js ''feed''\<rparr>]"
    by code_simp
qed

theorem isDefined_of_undefined_witness:
  "getUndefinedSymbols (build feedOnlyAst [] new_SymbolTable) =
     [\<lparr>sym_name = js ''X'', kind = K_STREAM, definedAt = 2,
       references = [\<lparr>ref_line = 2, ref_context = js ''feed''\<rparr>], metadata = None\<rparr>] \<and>
   isDefined (build feedOnlyAst [] new_SymbolTable) (js ''X'') \<and>
   getSymbol (build feedOnlyAst [] new_SymbolTable) (js ''x'') \<noteq> None \<and>
   isDefined (build feedOnlyAst [] new_SymbolTable) (js ''x'')"
proof -
  have u: "getUndefinedSymbols (build feedOnlyAst [] new_SymbolTable) =
     [\<lparr>sym_name = js ''X'', kind = K_STREAM, definedAt = 2,
       references = [\<lparr>ref_line = 2, ref_context = js ''feed''\<rparr>], metadata = None\<rparr>]"
    by code_simp
  have g: "getSymbol (build feedOnlyAst [] new_SymbolTable) (js ''x'') \<noteq> None"
    by code_simp
  note t = isDefined_of_undefined
    [of "build feedOnlyAst [] new_SymbolTable" "js ''x''" feedOnlyAst "[]" new_SymbolTable]
  from t have "\<forall>s \<in> set (getUndefinedSymbols (build feedOnlyAst [] new_SymbolTable)).
      isDefined (build feedOnlyAst [] new_SymbolTable) (sym_name s)"
    by blast
  then have 1: "isDefined (build feedOnlyAst [] new_SymbolTable) (js ''X'')"
    unfolding u by simp
  from t g have 2: "isDefined (build feedOnlyAst [] new_SymbolTable) (js ''x'')"
    by blast
  from u 1 g 2 show ?thesis by blast
qed

subsection \<open>Creation and merging\<close>

lemma build_prefix_persists:
  "persists (symbols (build (ast\<lparr>sections := take i (sections ast)\<rparr>) doc st))
            (symbols (build ast doc st))"
proof -
  define init where "init = st\<lparr>symbols := [], documentText := doc\<rparr>"
  define mid where "mid = fold processSection (take i (sections ast)) init"
  have "fold processSection (sections ast) init =
        fold processSection (drop i (sections ast)) mid"
    unfolding mid_def by (metis append_take_drop_id comp_apply fold_append)
  moreover have "persists (symbols mid) (symbols (fold processSection (drop i (sections ast)) mid))"
    by (rule keeps_sections [OF keeps_persists]) (rule persists_refl)
  ultimately show ?thesis by (simp add: build_def init_def mid_def)
qed

lemma addStreamReference_merge:
  assumes "map_of (symbols st) (toUpperCase n) = Some s"
  shows "map_of (symbols (addStreamReference n l cx st)) (toUpperCase n) =
         Some (s\<lparr>references := references s @ [\<lparr>ref_line = l, ref_context = cx\<rparr>]\<rparr>)"
  using assms by (simp add: addStreamReference_def Let_def map_has_def map_of_map_set)

lemma addStream_merge:
  assumes "map_of (symbols st) (toUpperCase n) = Some s" and "kind s = K_STREAM"
  shows "\<exists>s'. map_of (symbols (addStream n l cx t st)) (toUpperCase n) = Some s' \<and>
           references s' = references s @ [\<lparr>ref_line = l, ref_context = cx\<rparr>] \<and>
           definedAt s' = definedAt s \<and> kind s' = kind s"
  using assms by (simp add: addStream_def Let_def map_has_def map_of_map_set)

text \<open>
  Claim C6, as amended. Within a build no symbol is ever deleted, and its name, kind and
  recorded position never change: they are those of the first sight of the canonical
  name, be it a definition or a reference (first part, for each registration and for
  the table after any number of sections against the final one). A name not yet in
  the table gets a new symbol at the line of that first sight (second part). When the
  name is in the table already, a feed or product reference is appended to the
  symbol's references, a stream definition is appended if the symbol is a stream and
  changes nothing otherwise, and a repeated unit uid changes nothing (third part).
\<close>

theorem registration_merges:
  "(persists (symbols st) (symbols (addStream n l cx t st)) \<and>
    persists (symbols st) (symbols (addStreamReference n l cx st)) \<and>
    persists (symbols st) (symbols (addUnit n l ty st)) \<and>
    persists (symbols st) (symbols (addComponent c st)) \<and>
    persists (symbols (build (ast\<lparr>sections := take i (sections ast)\<rparr>) doc st0))
             (symbols (build ast doc st0))) \<and>
   (\<not> map_has (symbols st) (toUpperCase n) \<longrightarrow>
      map_of (symbols (addStream n l cx t st)) (toUpperCase n) =
        Some \<lparr>sym_name = toUpperCase n, kind = K_STREAM, definedAt = l,
              references = [\<lparr>ref_line = l, ref_context = cx\<rparr>],
              metadata = Some (emptyMetadata\<lparr>propertyLines := [t]\<rparr>)\<rparr> \<and>
      map_of (symbols (addStreamReference n l cx st)) (toUpperCase n) =
        Some \<lparr>sym_name = toUpperCase n, kind = K_STREAM, definedAt = l,
              references = [\<lparr>ref_line = l, ref_context = cx\<rparr>], metadata = None\<rparr> \<and>
      map_of (symbols (addUnit n l ty st)) (toUpperCase n) =
        Some \<lparr>sym_name = toUpperCase n, kind = K_UNIT, definedAt = l,
              references = [\<lparr>ref_line = l, ref_context = js ''definition''\<rparr>],
              metadata = Some (emptyMetadata\<lparr>unitType := Some ty\<rparr>)\<rparr>) \<and>
   (\<forall>s. map_of (symbols st) (toUpperCase n) = Some s \<longrightarrow>
      map_of (symbols (addStreamReference n l cx st)) (toUpperCase n) =
        Some (s\<lparr>references := references s @ [\<lparr>ref_line = l, ref_context = cx\<rparr>]\<rparr>) \<and>
      (kind s = K_STREAM \<longrightarrow>
         (\<exists>s'. map_of (symbols (addStream n l cx t st)) (toUpperCase n) = Some s' \<and>
               references s' = references s @ [\<lparr>ref_line = l, ref_context = cx\<rparr>] \<and>
               definedAt s' = definedAt s \<and> kind s' = kind s)) \<and>
      (kind s \<noteq> K_STREAM \<longrightarrow> addStream n l cx t st = st) \<and>
      addUnit n l ty st = st)"
proof (intro conjI allI impI)
  show "persists (symbols st) (symbols (addStream n l cx t st))"
    by (rule stepOf_persists [OF addStream_step])
  show "persists (symbols st) (symbols (addStreamReference n l cx st))"
    by (rule stepOf_persists [OF addStreamReference_step])
  show "persists (symbols st) (symbols (addUnit n l ty st))"
    by (rule stepOf_persists [OF addUnit_step])
  show "persists (symbols st) (symbols (addComponent c st))"
    by (rule stepOf_persists [OF addComponent_step])
  show "persists (symbols (build (ast\<lparr>sections := take i (sections ast)\<rparr>) doc st0))
             (symbols (build ast doc st0))"
    by (rule build_prefix_persists)
next
  assume "\<not> map_has (symbols st) (toUpperCase n)"
  then show "map_of (symbols (addStream n l cx t st)) (toUpperCase n) =
        Some \<lparr>sym_name = toUpperCase n, kind = K_STREAM, definedAt = l,
              references = [\<lparr>ref_line = l, ref_context = cx\<rparr>],
              metadata = Some (emptyMetadata\<lparr>propertyLines := [t]\<rparr>)\<rparr>"
    and "map_of (symbols (addStreamReference n l cx st)) (toUpperCase n) =
        Some \<lparr>sym_name = toUpperCase n, kind = K_STREAM, definedAt = l,
              references = [\<lparr>ref_line = l, ref_context = cx\<rparr>], metadata = None\<rparr>"
    and "map_of (symbols (addUnit n l ty st)) (toUpperCase n) =
        Some \<lparr>sym_name = toUpperCase n, kind = K_UNIT, definedAt = l,
              references = [\<lparr>ref_line = l, ref_context = js ''definition''\<rparr>],
              metadata = Some (emptyMetadata\<lparr>unitType := Some ty\<rparr>)\<rparr>"
    by (simp_all add: addStream_def addStreamReference_def addUnit_def Let_def map_of_map_set)
next
  fix s assume s: "map_of (symbols st) (toUpperCase n) = Some s"
  then show "map_of (symbols (addStreamReference n l cx st)) (toUpperCase n) =
        Some (s\<lparr>references := references s @ [\<lparr>ref_line = l, ref_context = cx\<rparr>]\<rparr>)"
    by (rule addStreamReference_merge)
  show "addUnit n l ty st = st"
    using s by (simp add: addUnit_def Let_def map_has_def)
  {
    assume "kind s = K_STREAM"
    with s show "\<exists>s'. map_of (symbols (addStream n l cx t st)) (toUpperCase n) = Some s' \<and>
               references s' = references s @ [\<lparr>ref_line = l, ref_context = cx\<rparr>] \<and>
               definedAt s' = definedAt s \<and> kind s' = kind s"
      by (rule addStream_merge)
  }
  {
    assume "kind s \<noteq> K_STREAM"
    with s show "addStream n l cx t st = st"
      by (simp add: addStream_def Let_def map_has_def)
  }
qed

text \<open>
  The witness: on the table that holds the stream \<open>FEED\<close> (seen first as a feed on line
  5) and the unit \<open>F1\<close>, a definition of \<open>feed\<close> on line 9 is appended and leaves the
  position at 5; a definition of the stream \<open>f1\<close> changes nothing, nor does a second unit
  \<open>F1\<close>; the new name \<open>vap\<close> gets a symbol at its line.
\<close>

definition mergeTable :: SymbolTable where
  "mergeTable = addUnit (js ''F1'') 4 (js ''FLASH'') (addStreamReference (js ''Feed'') 5 (js ''feed'') new_SymbolTable)"

theorem registration_merges_witness:
  "map_option (\<lambda>s. (definedAt s, references s))
     (map_of (symbols (addStream (js ''feed'') 9 (js ''definition'') (js ''x'') mergeTable)) (js ''FEED'')) =
     Some (5, [\<lparr>ref_line = 5, ref_context = js ''feed''\<rparr>, \<lparr>ref_line = 9, ref_context = js ''definition''\<rparr>]) \<and>
   addStream (js ''f1'') 9 (js ''definition'') (js ''x'') mergeTable = mergeTable \<and>
   addUnit (js ''f1'') 9 (js ''PUMP'') mergeTable = mergeTable \<and>
   map_option (\<lambda>s. (definedAt s, references s))
     (map_of (symbols (addStreamReference (js ''vap'') 7 (js ''product'') mergeTable)) (js ''VAP'')) =
     Some (7, [\<lparr>ref_line = 7, ref_context = js ''product''\<rparr>]) \<and>
   map fst (symbols (addStreamReference (js ''vap'') 7 (js ''product'') mergeTable)) = [js ''FEED'', js ''F1'', js ''VAP'']"
proof -
  define sFeed where "sFeed = \<lparr>sym_name = js ''FEED'', kind = K_STREAM, definedAt = 5,
     references = [\<lparr>ref_line = 5, ref_context = js ''feed''\<rparr>], metadata = None :: Metadata option\<rparr>"
  define sUnit where "sUnit = \<lparr>sym_name = js ''F1'', kind = K_UNIT, definedAt = 4,
     references = [\<lparr>ref_line = 4, ref_context = js ''definition''\<rparr>],
     metadata = Some (emptyMetadata\<lparr>unitType := Some (js ''FLASH'')\<rparr>)\<rparr>"
  have u: "toUpperCase (js ''feed'') = js ''FEED''" "toUpperCase (js ''f1'') = js ''F1''" "toUpperCase (js ''vap'') = js ''VAP''"
    by code_simp+
  have h1: "map_of (symbols mergeTable) (js ''FEED'') = Some sFeed" "kind sFeed = K_STREAM"
    unfolding sFeed_def by code_simp+
  have h2: "map_of (symbols mergeTable) (js ''F1'') = Some sUnit" "kind sUnit \<noteq> K_STREAM"
    unfolding sUnit_def by code_simp+
  have h3: "\<not> map_has (symbols mergeTable) (js ''VAP'')"
    by code_simp
  have k: "map fst (symbols (addStreamReference (js ''vap'') 7 (js ''product'') mergeTable)) = [js ''FEED'', js ''F1'', js ''VAP'']"
    by code_simp
  note a = registration_merges [of mergeTable "js ''feed''" 9 "js ''definition''" "js ''x''" "js ''PUMP''" _ _ _ _ _,
      unfolded u]
  note b = registration_merges [of mergeTable "js ''f1''" 9 "js ''definition''" "js ''x''" "js ''PUMP''" _ _ _ _ _,
      unfolded u]
  note c = registration_merges [of mergeTable "js ''vap''" 7 "js ''product''" "js ''x''" "js ''PUMP''" _ _ _ _ _,
      unfolded u]
  from a h1 obtain s' where
    "map_of (symbols (addStream (js ''feed'') 9 (js ''definition'') (js ''x'') mergeTable)) (js ''FEED'') = Some s'"
    "references s' = references sFeed @ [\<lparr>ref_line = 9, ref_context = js ''definition''\<rparr>]"
    "definedAt s' = definedAt sFeed"
    by blast
  then have 1: "map_option (\<lambda>s. (definedAt s, references s))
     (map_of (symbols (addStream (js ''feed'') 9 (js ''definition'') (js ''x'') mergeTable)) (js ''FEED'')) =
     Some (5, [\<lparr>ref_line = 5, ref_context = js ''feed''\<rparr>, \<lparr>ref_line = 9, ref_context = js ''definition''\<rparr>])"
    by (simp add: sFeed_def)
  from b h2 have 2: "addStream (js ''f1'') 9 (js ''definition'') (js ''x'') mergeTable = mergeTable"
    and 3: "addUnit (js ''f1'') 9 (js ''PUMP'') mergeTable = mergeTable"
    by blast+
  from c h3 have "map_of (symbols (addStreamReference (js ''vap'') 7 (js ''product'') mergeTable)) (js ''VAP'') =
        Some \<lparr>sym_name = js ''VAP'', kind = K_STREAM, definedAt = 7,
              references = [\<lparr>ref_line = 7, ref_context = js ''product''\<rparr>], metadata = None\<rparr>"
    by blast
  then have 4: "map_option (\<lambda>s. (definedAt s, references s))
     (map_of (symbols (addStreamReference (js ''vap'') 7 (js ''product'') mergeTable)) (js ''VAP'')) =
     Some (7, [\<lparr>ref_line = 7, ref_context = js ''product''\<rparr>])"
    by simp
  from 1 2 3 4 k show ?thesis by blast
qed

text \<open>
  Claim C6 as stated fails on a uid defined twice: for the tree of
  \<open>UNIT / FLASH UID=U / FLASH UID=U\<close> the symbol \<open>U\<close> keeps the one reference of its
  first definition; the definition on line 3 is not appended.
\<close>

theorem registration_merges_counterexample:
  "map_option references (getSymbol (build dupUnitAst [] new_SymbolTable) (js ''U'')) =
     Some [\<lparr>ref_line = 2, ref_context = js ''definition''\<rparr>] \<and>
   map_option references (getSymbol (build dupUnitAst [] new_SymbolTable) (js ''U'')) \<noteq>
     Some [\<lparr>ref_line = 2, ref_context = js ''definition''\<rparr>, \<lparr>ref_line = 3, ref_context = js ''definition''\<rparr>]"
  by code_simp

subsection \<open>Undefined streams\<close>

text \<open>
  What a tree says about a name \<open>X\<close>: a unit operation of a unit-operations section has
  a feed \<open>X\<close>; a stream statement of a stream-data section defines \<open>X\<close>. Names are
  compared by their canonical (upper-case) form.
\<close>

definition referencedAsFeed :: "ProgramNode \<Rightarrow> jsstring \<Rightarrow> bool" where
  "referencedAsFeed ast X =
     (\<exists>sec \<in> set (sections ast). sectionType sec = S_UNIT_OPERATIONS \<and>
        (\<exists>stmt \<in> set (statements sec).
           case stmt of
             UnitOperation u \<Rightarrow>
               (\<exists>f \<in> set (feedStreams u). toUpperCase (name (ref_streamName f)) = toUpperCase X)
           | _ \<Rightarrow> False))"

definition hasStreamProperty :: "ProgramNode \<Rightarrow> jsstring \<Rightarrow> bool" where
  "hasStreamProperty ast X =
     (\<exists>sec \<in> set (sections ast). sectionType sec = S_STREAM_DATA \<and>
        (\<exists>stmt \<in> set (statements sec).
           case stmt of
             StreamData sd \<Rightarrow> toUpperCase (name (sd_streamName sd)) = toUpperCase X
           | _ \<Rightarrow> False))"

text \<open>
  The names a build offers to the table, in the order of the build, each with the kind
  of symbol it would create: a unit operation offers its uid, then its feeds, then its
  products; a statement offers something only in a section of its own type.
  \<open>firstRegistration\<close> is the kind with which a name is offered first.
\<close>

definition unitRegistrations :: "UnitOperationNode \<Rightarrow> (SymbolKind \<times> jsstring) list" where
  "unitRegistrations u =
     (case uid u of Some i \<Rightarrow> [(K_UNIT, name i)] | None \<Rightarrow> []) @
     (map (\<lambda>f. (K_STREAM, name (ref_streamName f))) (feedStreams u) @
      map (\<lambda>p. (K_STREAM, name (ref_streamName p))) (productStreams u))"

definition statementRegistrations ::
  "SectionType \<Rightarrow> StatementNode \<Rightarrow> (SymbolKind \<times> jsstring) list" where
  "statementRegistrations ty stmt =
     (case stmt of
        ComponentData cd \<Rightarrow>
          if ty = S_COMPONENT_DATA
          then map (\<lambda>c. (K_COMPONENT, comp_identifier c)) (components cd) else []
      | StreamData sd \<Rightarrow>
          if ty = S_STREAM_DATA then [(K_STREAM, name (sd_streamName sd))] else []
      | UnitOperation u \<Rightarrow>
          if ty = S_UNIT_OPERATIONS then unitRegistrations u else []
      | _ \<Rightarrow> [])"

definition sectionRegistrations :: "SectionNode \<Rightarrow> (SymbolKind \<times> jsstring) list" where
  "sectionRegistrations sec =
     concat (map (statementRegistrations (sectionType sec)) (statements sec))"

definition registrations :: "ProgramNode \<Rightarrow> (SymbolKind \<times> jsstring) list" where
  "registrations ast = concat (map sectionRegistrations (sections ast))"

definition firstOf :: "jsstring \<Rightarrow> (SymbolKind \<times> jsstring) list \<Rightarrow> SymbolKind option" where
  "firstOf k rs = map_option fst (find (\<lambda>r. toUpperCase (snd r) = k) rs)"

definition firstRegistration :: "ProgramNode \<Rightarrow> jsstring \<Rightarrow> SymbolKind option" where
  "firstRegistration ast X = firstOf (toUpperCase X) (registrations ast)"

text \<open>The kind of the symbol stored under a key, and the first of two options.\<close>

definition kindAt :: "jsstring \<Rightarrow> SymbolTable \<Rightarrow> SymbolKind option" where
  "kindAt k st = map_option kind (map_of (symbols st) k)"

definition orElse :: "'a option \<Rightarrow> 'a option \<Rightarrow> 'a option" where
  "orElse a b = (case a of Some x \<Rightarrow> Some x | None \<Rightarrow> b)"

lemma orElse_simps [simp]:
  "orElse None b = b" "orElse (Some x) b = Some x" "orElse a None = a"
  by (simp_all add: orElse_def split: option.splits)

lemma orElse_assoc: "orElse (orElse a b) c = orElse a (orElse b c)"
  by (simp add: orElse_def split: option.splits)

lemma concat_empty: "concat (map (\<lambda>x. []) xs) = []"
  by (induction xs) simp_all

lemma firstOf_Nil [simp]: "firstOf k [] = None"
  by (simp add: firstOf_def)

lemma firstOf_append: "firstOf k (a @ b) = orElse (firstOf k a) (firstOf k b)"
  by (induction a) (simp_all add: firstOf_def)

lemma firstOf_one:
  "firstOf k [(kd, n)] = (if toUpperCase n = k then Some kd else None)"
  by (simp add: firstOf_def)

lemma firstOf_kind: "firstOf k rs = Some kd \<Longrightarrow> kd \<in> fst ` set rs"
  by (induction rs) (auto simp: firstOf_def split: if_splits)

text \<open>A registration leaves the kind under a key, or gives the key its own kind.\<close>

lemma kindAt_addComponent:
  "kindAt k (addComponent c st) =
     orElse (kindAt k st) (firstOf k [(K_COMPONENT, comp_identifier c)])"
  by (auto simp: kindAt_def addComponent_def Let_def map_has_def map_of_map_set firstOf_one)

lemma kindAt_addUnit:
  "kindAt k (addUnit n l ty st) = orElse (kindAt k st) (firstOf k [(K_UNIT, n)])"
  by (auto simp: kindAt_def addUnit_def Let_def map_has_def map_of_map_set firstOf_one)

lemma kindAt_addStreamReference:
  "kindAt k (addStreamReference n l cx st) = orElse (kindAt k st) (firstOf k [(K_STREAM, n)])"
  by (auto simp: kindAt_def addStreamReference_def Let_def map_has_def map_of_map_set firstOf_one
      split: option.splits)

lemma kindAt_addStream:
  "kindAt k (addStream n l cx t st) = orElse (kindAt k st) (firstOf k [(K_STREAM, n)])"
  by (auto simp: kindAt_def addStream_def Let_def map_has_def map_of_map_set firstOf_one
      split: option.splits)

lemma kindAt_fold:
  assumes "\<And>x s. x \<in> set xs \<Longrightarrow> kindAt k (f x s) = orElse (kindAt k s) (firstOf k (g x))"
  shows "kindAt k (fold f xs st) = orElse (kindAt k st) (firstOf k (concat (map g xs)))"
  using assms
proof (induction xs arbitrary: st)
  case Nil
  show ?case by simp
next
  case (Cons x xs)
  have "kindAt k (fold f xs (f x st)) =
      orElse (kindAt k (f x st)) (firstOf k (concat (map g xs)))"
    by (rule Cons.IH) (simp add: Cons.prems)
  also have "kindAt k (f x st) = orElse (kindAt k st) (firstOf k (g x))"
    by (simp add: Cons.prems)
  finally show ?case
    by (simp add: orElse_assoc firstOf_append)
qed

lemma kindAt_processUnit:
  "kindAt k (processUnit u st) = orElse (kindAt k st) (firstOf k (unitRegistrations u))"
proof -
  define st1 where "st1 = (case uid u of
      Some i \<Rightarrow> addUnit (name i) (startLine u) (uo_statementType u) st | None \<Rightarrow> st)"
  define st2 where "st2 = fold (\<lambda>feed. addStreamReference (name (ref_streamName feed))
      (startLine feed) (js ''feed'')) (feedStreams u) st1"
  have 1: "kindAt k st1 =
      orElse (kindAt k st) (firstOf k (case uid u of Some i \<Rightarrow> [(K_UNIT, name i)] | None \<Rightarrow> []))"
    unfolding st1_def by (cases "uid u") (simp_all add: kindAt_addUnit)
  have 2: "kindAt k st2 =
      orElse (kindAt k st1)
        (firstOf k (concat (map (\<lambda>f. [(K_STREAM, name (ref_streamName f))]) (feedStreams u))))"
    unfolding st2_def by (rule kindAt_fold) (rule kindAt_addStreamReference)
  have 3: "kindAt k (fold (\<lambda>prod. addStreamReference (name (ref_streamName prod))
      (startLine prod) (js ''product'')) (productStreams u) st2) =
      orElse (kindAt k st2)
        (firstOf k (concat (map (\<lambda>p. [(K_STREAM, name (ref_streamName p))]) (productStreams u))))"
    by (rule kindAt_fold) (rule kindAt_addStreamReference)
  have c: "\<And>h xs. concat (map (\<lambda>x. [h x]) xs) = map h xs"
    by (simp add: concat_map_singleton)
  have "processUnit u st = fold (\<lambda>prod. addStreamReference (name (ref_streamName prod))
      (startLine prod) (js ''product'')) (productStreams u) st2"
    by (simp add: processUnit_def Let_def st1_def st2_def)
  then show ?thesis
    by (simp add: 1 2 3 c unitRegistrations_def firstOf_append orElse_assoc)
qed

lemma kindAt_processSection:
  "kindAt k (processSection sec st) = orElse (kindAt k st) (firstOf k (sectionRegistrations sec))"
proof (cases "sectionType sec")
  case S_COMPONENT_DATA
  have "kindAt k (processComponentData sec st) =
      orElse (kindAt k st)
        (firstOf k (concat (map (statementRegistrations S_COMPONENT_DATA) (statements sec))))"
    unfolding processComponentData_def
  proof (rule kindAt_fold)
    fix x :: StatementNode and s :: SymbolTable
    have comps: "\<And>cs. kindAt k (fold addComponent cs s) =
        orElse (kindAt k s)
          (firstOf k (concat (map (\<lambda>c. [(K_COMPONENT, comp_identifier c)]) cs)))"
      by (rule kindAt_fold) (rule kindAt_addComponent)
    show "kindAt k (case x of ComponentData compStmt \<Rightarrow> fold addComponent (components compStmt) s
                     | _ \<Rightarrow> s) =
        orElse (kindAt k s) (firstOf k (statementRegistrations S_COMPONENT_DATA x))"
      by (cases x) (simp_all add: statementRegistrations_def comps concat_map_singleton)
  qed
  with S_COMPONENT_DATA show ?thesis
    by (simp add: processSection_def sectionRegistrations_def)
next
  case S_STREAM_DATA
  have "kindAt k (processStreamData sec st) =
      orElse (kindAt k st)
        (firstOf k (concat (map (statementRegistrations S_STREAM_DATA) (statements sec))))"
    unfolding processStreamData_def
  proof (rule kindAt_fold)
    fix x :: StatementNode and s :: SymbolTable
    show "kindAt k (case x of
        StreamData streamStmt \<Rightarrow>
          (let lineText = getLineText s (startLine streamStmt)
           in addStream (name (sd_streamName streamStmt)) (startLine streamStmt)
                (js ''definition'') lineText s)
      | _ \<Rightarrow> s) =
        orElse (kindAt k s) (firstOf k (statementRegistrations S_STREAM_DATA x))"
      by (cases x) (simp_all add: statementRegistrations_def kindAt_addStream Let_def)
  qed
  with S_STREAM_DATA show ?thesis
    by (simp add: processSection_def sectionRegistrations_def)
next
  case S_UNIT_OPERATIONS
  have "kindAt k (processUnitOperations sec st) =
      orElse (kindAt k st)
        (firstOf k (concat (map (statementRegistrations S_UNIT_OPERATIONS) (statements sec))))"
    unfolding processUnitOperations_def
  proof (rule kindAt_fold)
    fix x :: StatementNode and s :: SymbolTable
    show "kindAt k (case x of UnitOperation unitStmt \<Rightarrow> processUnit unitStmt s | _ \<Rightarrow> s) =
        orElse (kindAt k s) (firstOf k (statementRegistrations S_UNIT_OPERATIONS x))"
      by (cases x) (simp_all add: statementRegistrations_def kindAt_processUnit)
  qed
  with S_UNIT_OPERATIONS show ?thesis
    by (simp add: processSection_def sectionRegistrations_def)
next
  case S_THERMODYNAMIC_DATA
  have "statementRegistrations S_THERMODYNAMIC_DATA = (\<lambda>x. [])"
    by (rule ext) (simp add: statementRegistrations_def split: StatementNode.splits)
  with S_THERMODYNAMIC_DATA show ?thesis
    by (simp add: processSection_def sectionRegistrations_def concat_empty)
next
  case S_PRINT
  have "statementRegistrations S_PRINT = (\<lambda>x. [])"
    by (rule ext) (simp add: statementRegistrations_def split: StatementNode.splits)
  with S_PRINT show ?thesis
    by (simp add: processSection_def sectionRegistrations_def concat_empty)
next
  case S_OTHER
  have "statementRegistrations S_OTHER = (\<lambda>x. [])"
    by (rule ext) (simp add: statementRegistrations_def split: StatementNode.splits)
  with S_OTHER show ?thesis
    by (simp add: processSection_def sectionRegistrations_def concat_empty)
qed

text \<open>The kind of a symbol of a built table is the kind of the first registration of its key.\<close>

lemma kindAt_build: "kindAt (toUpperCase X) (build ast doc st) = firstRegistration ast X"
proof -
  have "kindAt (toUpperCase X) (fold processSection (sections ast)
      (st\<lparr>symbols := [], documentText := doc\<rparr>)) =
      orElse (kindAt (toUpperCase X) (st\<lparr>symbols := [], documentText := doc\<rparr>))
        (firstOf (toUpperCase X) (concat (map sectionRegistrations (sections ast))))"
    by (rule kindAt_fold) (rule kindAt_processSection)
  then show ?thesis
    by (simp add: build_def firstRegistration_def registrations_def kindAt_def)
qed

lemma unitRegistrations_kinds:
  "(kd, n) \<in> set (unitRegistrations u) \<Longrightarrow> kd = K_UNIT \<or> kd = K_STREAM"
  by (auto simp: unitRegistrations_def split: option.splits)

lemma statementRegistrations_kinds:
  "(kd, n) \<in> set (statementRegistrations ty stmt) \<Longrightarrow>
   kd = K_COMPONENT \<or> kd = K_UNIT \<or> kd = K_STREAM"
  by (cases stmt)
     (auto simp: statementRegistrations_def dest: unitRegistrations_kinds split: if_splits)

lemma registrations_kinds:
  "(kd, n) \<in> set (registrations ast) \<Longrightarrow> kd = K_COMPONENT \<or> kd = K_UNIT \<or> kd = K_STREAM"
  by (auto simp: registrations_def sectionRegistrations_def dest: statementRegistrations_kinds)

lemma firstRegistration_kinds:
  assumes "firstRegistration ast X = Some kd"
  shows "kd = K_COMPONENT \<or> kd = K_UNIT \<or> kd = K_STREAM"
proof -
  from assms have "kd \<in> fst ` set (registrations ast)"
    unfolding firstRegistration_def by (rule firstOf_kind)
  then obtain n where "(kd, n) \<in> set (registrations ast)" by auto
  then show ?thesis by (rule registrations_kinds)
qed

text \<open>Properties of the table about one key, and how the registrations treat them.\<close>

definition nodef :: "jsstring \<Rightarrow> SymbolTable \<Rightarrow> bool" where
  "nodef k st =
     (case map_of (symbols st) k of None \<Rightarrow> True
      | Some s \<Rightarrow> kind s = K_STREAM \<longrightarrow> \<not> hasDefinition s)"

definition present :: "jsstring \<Rightarrow> SymbolTable \<Rightarrow> bool" where
  "present k st = (\<exists>s. map_of (symbols st) k = Some s \<and> references s \<noteq> [])"

definition defd :: "jsstring \<Rightarrow> SymbolTable \<Rightarrow> bool" where
  "defd k st = (\<exists>s. map_of (symbols st) k = Some s \<and> (kind s = K_STREAM \<longrightarrow> hasDefinition s))"

definition streamsReferenced :: "SymbolTable \<Rightarrow> bool" where
  "streamsReferenced st =
     (\<forall>k s. map_of (symbols st) k = Some s \<longrightarrow> kind s = K_STREAM \<longrightarrow> references s \<noteq> [])"

lemma hasDefinition_prefix:
  "prefix (references s) (references s') \<Longrightarrow> hasDefinition s \<Longrightarrow> hasDefinition s'"
  by (auto simp: hasDefinition_def list_ex_iff prefix_def)

lemma persists_present:
  "persists (symbols st) (symbols st') \<Longrightarrow> present k st \<Longrightarrow> present k st'"
  unfolding persists_def present_def
  by (metis prefix_bot.extremum_uniqueI)

lemma persists_defd:
  assumes "persists (symbols st) (symbols st')" and "defd k st"
  shows "defd k st'"
proof -
  from assms(2) obtain s where s: "map_of (symbols st) k = Some s"
    "kind s = K_STREAM \<longrightarrow> hasDefinition s"
    unfolding defd_def by blast
  with assms(1) obtain s' where s': "map_of (symbols st') k = Some s'" "kind s' = kind s"
    "prefix (references s) (references s')"
    unfolding persists_def by blast
  with s have "kind s' = K_STREAM \<longrightarrow> hasDefinition s'"
    by (auto intro: hasDefinition_prefix)
  with s' show ?thesis unfolding defd_def by blast
qed

lemma keeps_present: "keeps (present k)"
  unfolding keeps_def
proof (intro conjI allI impI)
  fix c and st :: SymbolTable assume "present k st"
  with stepOf_persists [OF addComponent_step] show "present k (addComponent c st)"
    by (rule persists_present)
next
  fix n l ty and st :: SymbolTable assume "present k st"
  with stepOf_persists [OF addUnit_step] show "present k (addUnit n l ty st)"
    by (rule persists_present)
next
  fix n l cx and st :: SymbolTable assume "present k st"
  with stepOf_persists [OF addStreamReference_step] show "present k (addStreamReference n l cx st)"
    by (rule persists_present)
next
  fix n l cx t and st :: SymbolTable assume "present k st"
  with stepOf_persists [OF addStream_step] show "present k (addStream n l cx t st)"
    by (rule persists_present)
qed

lemma keeps_defd: "keeps (defd k)"
  unfolding keeps_def
proof (intro conjI allI impI)
  fix c and st :: SymbolTable assume "defd k st"
  with stepOf_persists [OF addComponent_step] show "defd k (addComponent c st)"
    by (rule persists_defd)
next
  fix n l ty and st :: SymbolTable assume "defd k st"
  with stepOf_persists [OF addUnit_step] show "defd k (addUnit n l ty st)"
    by (rule persists_defd)
next
  fix n l cx and st :: SymbolTable assume "defd k st"
  with stepOf_persists [OF addStreamReference_step] show "defd k (addStreamReference n l cx st)"
    by (rule persists_defd)
next
  fix n l cx t and st :: SymbolTable assume "defd k st"
  with stepOf_persists [OF addStream_step] show "defd k (addStream n l cx t st)"
    by (rule persists_defd)
qed

lemma addStreamReference_present: "present (toUpperCase n) (addStreamReference n l cx st)"
  by (auto simp: present_def addStreamReference_def Let_def map_has_def map_of_map_set
      split: option.splits)

lemma addStream_defd: "defd (toUpperCase n) (addStream n l (js ''definition'') t st)"
  by (auto simp: defd_def addStream_def Let_def map_has_def map_of_map_set hasDefinition_def
      split: option.splits)

lemma nodef_other:
  "stepOf k' (symbols st) (symbols st') \<Longrightarrow> k' \<noteq> k \<Longrightarrow> nodef k st \<Longrightarrow> nodef k st'"
  by (simp add: nodef_def stepOf_other)

lemma addStreamReference_nodef:
  assumes "cx \<noteq> js ''definition''" and "nodef k st"
  shows "nodef k (addStreamReference n l cx st)"
proof (cases "toUpperCase n = k")
  case False
  from addStreamReference_step False assms(2) show ?thesis by (rule nodef_other)
next
  case True
  with assms show ?thesis
    by (auto simp: nodef_def addStreamReference_def Let_def map_has_def map_of_map_set
        hasDefinition_def split: option.splits)
qed

lemma addUnit_nodef: "nodef k st \<Longrightarrow> nodef k (addUnit n l ty st)"
  by (auto simp: nodef_def addUnit_def Let_def map_has_def map_of_map_set split: option.splits)

lemma addComponent_nodef: "nodef k st \<Longrightarrow> nodef k (addComponent c st)"
  by (auto simp: nodef_def addComponent_def Let_def map_has_def map_of_map_set
      split: option.splits)

lemma keeps_streamsReferenced: "keeps streamsReferenced"
  unfolding keeps_def
proof (intro conjI allI impI)
  fix c and st :: SymbolTable assume "streamsReferenced st"
  then show "streamsReferenced (addComponent c st)"
    by (auto simp: streamsReferenced_def addComponent_def Let_def map_has_def map_of_map_set
        split: if_splits)
next
  fix n l ty and st :: SymbolTable assume "streamsReferenced st"
  then show "streamsReferenced (addUnit n l ty st)"
    by (auto simp: streamsReferenced_def addUnit_def Let_def map_has_def map_of_map_set
        split: if_splits)
next
  fix n l cx and st :: SymbolTable assume "streamsReferenced st"
  then show "streamsReferenced (addStreamReference n l cx st)"
    by (auto simp: streamsReferenced_def addStreamReference_def Let_def map_has_def
        map_of_map_set split: if_splits option.splits)
next
  fix n l cx t and st :: SymbolTable assume "streamsReferenced st"
  then show "streamsReferenced (addStream n l cx t st)"
    by (auto simp: streamsReferenced_def addStream_def Let_def map_has_def map_of_map_set
        split: if_splits option.splits)
qed

lemma build_streamsReferenced: "streamsReferenced (build ast doc st)"
  unfolding build_def
  by (rule keeps_sections [OF keeps_streamsReferenced]) (simp add: streamsReferenced_def)

text \<open>A stream statement of a stream-data section that defines the key.\<close>

definition definesStream :: "SectionType \<Rightarrow> jsstring \<Rightarrow> StatementNode \<Rightarrow> bool" where
  "definesStream ty k stmt =
     (case stmt of
        StreamData sd \<Rightarrow> ty = S_STREAM_DATA \<and> toUpperCase (name (sd_streamName sd)) = k
      | _ \<Rightarrow> False)"

lemma processUnit_nodef:
  assumes n: "nodef k st"
  shows "nodef k (processUnit u st)"
proof -
  define st1 where "st1 = (case uid u of
      Some i \<Rightarrow> addUnit (name i) (startLine u) (uo_statementType u) st | None \<Rightarrow> st)"
  have 1: "nodef k st1"
    unfolding st1_def using n by (cases "uid u") (simp_all add: addUnit_nodef)
  define st2 where "st2 = fold (\<lambda>feed. addStreamReference (name (ref_streamName feed))
      (startLine feed) (js ''feed'')) (feedStreams u) st1"
  have 2: "nodef k st2"
    unfolding st2_def
    by (intro fold_invariant [where P = "nodef k", OF 1]) (simp add: addStreamReference_nodef)
  have "nodef k (fold (\<lambda>prod. addStreamReference (name (ref_streamName prod))
      (startLine prod) (js ''product'')) (productStreams u) st2)"
    by (intro fold_invariant [where P = "nodef k", OF 2]) (simp add: addStreamReference_nodef)
  then show ?thesis by (simp add: processUnit_def Let_def st1_def st2_def)
qed

lemma processSection_nodef:
  assumes q: "\<forall>stmt \<in> set (statements sec). \<not> definesStream (sectionType sec) k stmt"
    and n: "nodef k st"
  shows "nodef k (processSection sec st)"
proof (cases "sectionType sec")
  case S_COMPONENT_DATA
  have "nodef k (processComponentData sec st)"
    unfolding processComponentData_def
  proof (rule fold_invariant [where P = "nodef k", OF n])
    fix x :: StatementNode and s :: SymbolTable
    assume s: "nodef k s"
    have "\<And>cs. nodef k (fold addComponent cs s)"
      by (rule fold_invariant [where P = "nodef k", OF s]) (rule addComponent_nodef)
    then show "nodef k (case x of ComponentData compStmt \<Rightarrow> fold addComponent (components compStmt) s
                   | _ \<Rightarrow> s)"
      by (cases x) (simp_all add: s)
  qed
  with S_COMPONENT_DATA show ?thesis by (simp add: processSection_def)
next
  case S_STREAM_DATA
  have "nodef k (processStreamData sec st)"
    unfolding processStreamData_def
  proof (rule fold_invariant [where P = "nodef k", OF n])
    fix x :: StatementNode and s :: SymbolTable
    assume x: "x \<in> set (statements sec)" and s: "nodef k s"
    show "nodef k (case x of
        StreamData streamStmt \<Rightarrow>
          (let lineText = getLineText s (startLine streamStmt)
           in addStream (name (sd_streamName streamStmt)) (startLine streamStmt)
                (js ''definition'') lineText s)
      | _ \<Rightarrow> s)"
    proof (cases x)
      case (StreamData sd)
      from q x have "\<not> definesStream (sectionType sec) k x" by blast
      with StreamData S_STREAM_DATA have "toUpperCase (name (sd_streamName sd)) \<noteq> k"
        by (simp add: definesStream_def)
      with addStream_step
      have "nodef k (addStream (name (sd_streamName sd)) (startLine sd) (js ''definition'')
          (getLineText s (startLine sd)) s)"
        using s by (rule nodef_other)
      with StreamData show ?thesis by (simp add: Let_def)
    qed (simp_all add: s)
  qed
  with S_STREAM_DATA show ?thesis by (simp add: processSection_def)
next
  case S_UNIT_OPERATIONS
  have "nodef k (processUnitOperations sec st)"
    unfolding processUnitOperations_def
  proof (rule fold_invariant [where P = "nodef k", OF n])
    fix x :: StatementNode and s :: SymbolTable
    assume s: "nodef k s"
    then show "nodef k (case x of UnitOperation unitStmt \<Rightarrow> processUnit unitStmt s | _ \<Rightarrow> s)"
      by (cases x) (simp_all add: processUnit_nodef)
  qed
  with S_UNIT_OPERATIONS show ?thesis by (simp add: processSection_def)
qed (simp_all add: processSection_def n)

lemma processUnit_present:
  assumes "f \<in> set (feedStreams u)"
  shows "present (toUpperCase (name (ref_streamName f))) (processUnit u st)"
proof -
  let ?k = "toUpperCase (name (ref_streamName f))"
  define st1 where "st1 = (case uid u of
      Some i \<Rightarrow> addUnit (name i) (startLine u) (uo_statementType u) st | None \<Rightarrow> st)"
  define st2 where "st2 = fold (\<lambda>feed. addStreamReference (name (ref_streamName feed))
      (startLine feed) (js ''feed'')) (feedStreams u) st1"
  have k: "\<And>n l cx s. present ?k s \<Longrightarrow> present ?k (addStreamReference n l cx s)"
    using keeps_present [of ?k] unfolding keeps_def by blast
  have 2: "present ?k st2"
    unfolding st2_def
    by (rule fold_establish [where P = "present ?k" and x = f, OF assms])
       (simp_all add: addStreamReference_present k)
  have "present ?k (fold (\<lambda>prod. addStreamReference (name (ref_streamName prod))
      (startLine prod) (js ''product'')) (productStreams u) st2)"
    by (intro fold_invariant [where P = "present ?k", OF 2]) (simp add: k)
  then show ?thesis by (simp add: processUnit_def Let_def st1_def st2_def)
qed

lemma build_present:
  assumes "referencedAsFeed ast X"
  shows "present (toUpperCase X) (build ast doc st)"
proof -
  let ?k = "toUpperCase X"
  from assms obtain sec stmt where sec: "sec \<in> set (sections ast)"
    "sectionType sec = S_UNIT_OPERATIONS" and stmt: "stmt \<in> set (statements sec)"
    and c: "case stmt of UnitOperation u \<Rightarrow>
        (\<exists>f \<in> set (feedStreams u). toUpperCase (name (ref_streamName f)) = toUpperCase X)
      | _ \<Rightarrow> False"
    unfolding referencedAsFeed_def by blast
  from c obtain u f where u: "stmt = UnitOperation u" and f: "f \<in> set (feedStreams u)"
    "toUpperCase (name (ref_streamName f)) = ?k"
    by (cases stmt) auto
  have unit: "\<And>s. present ?k (processUnit u s)"
    using processUnit_present [OF f(1)] f(2) by simp
  have stm: "\<And>y s. present ?k s \<Longrightarrow>
      present ?k (case y of UnitOperation unitStmt \<Rightarrow> processUnit unitStmt s | _ \<Rightarrow> s)"
  proof -
    fix y :: StatementNode and s :: SymbolTable
    assume "present ?k s"
    then show "present ?k (case y of UnitOperation unitStmt \<Rightarrow> processUnit unitStmt s | _ \<Rightarrow> s)"
      by (cases y) (simp_all add: keeps_processUnit [OF keeps_present])
  qed
  have "\<And>s. present ?k (processUnitOperations sec s)"
    unfolding processUnitOperations_def
    by (rule fold_establish [where P = "present ?k" and x = stmt, OF stmt])
       (simp_all add: u unit stm)
  then have one: "\<And>s. present ?k (processSection sec s)"
    using sec(2) by (simp add: processSection_def)
  show ?thesis
    unfolding build_def
    by (rule fold_establish [where P = "present ?k" and x = sec, OF sec(1)])
       (simp_all add: one keeps_processSection [OF keeps_present])
qed

lemma build_defd:
  assumes "hasStreamProperty ast X"
  shows "defd (toUpperCase X) (build ast doc st)"
proof -
  let ?k = "toUpperCase X"
  from assms obtain sec stmt where sec: "sec \<in> set (sections ast)"
    "sectionType sec = S_STREAM_DATA" and stmt: "stmt \<in> set (statements sec)"
    and c: "case stmt of StreamData sd \<Rightarrow> toUpperCase (name (sd_streamName sd)) = toUpperCase X
      | _ \<Rightarrow> False"
    unfolding hasStreamProperty_def by blast
  from c obtain sd where sd: "stmt = StreamData sd" "toUpperCase (name (sd_streamName sd)) = ?k"
    by (cases stmt) auto
  have k: "\<And>n l cx t s. defd ?k s \<Longrightarrow> defd ?k (addStream n l cx t s)"
    using keeps_defd [of ?k] unfolding keeps_def by blast
  have stm: "\<And>y s. defd ?k s \<Longrightarrow>
      defd ?k (case y of
        StreamData streamStmt \<Rightarrow>
          (let lineText = getLineText s (startLine streamStmt)
           in addStream (name (sd_streamName streamStmt)) (startLine streamStmt)
                (js ''definition'') lineText s)
      | _ \<Rightarrow> s)"
  proof -
    fix y :: StatementNode and s :: SymbolTable
    assume "defd ?k s"
    then show "defd ?k (case y of
        StreamData streamStmt \<Rightarrow>
          (let lineText = getLineText s (startLine streamStmt)
           in addStream (name (sd_streamName streamStmt)) (startLine streamStmt)
                (js ''definition'') lineText s)
      | _ \<Rightarrow> s)"
      by (cases y) (simp_all add: k Let_def)
  qed
  have here: "\<And>s. defd ?k (addStream (name (sd_streamName sd)) (startLine sd) (js ''definition'')
      (getLineText s (startLine sd)) s)"
    using addStream_defd [of "name (sd_streamName sd)"] sd(2) by simp
  have "\<And>s. defd ?k (processStreamData sec s)"
    unfolding processStreamData_def
    by (rule fold_establish [where P = "defd ?k" and x = stmt, OF stmt])
       (simp_all add: sd(1) here stm Let_def)
  then have one: "\<And>s. defd ?k (processSection sec s)"
    using sec(2) by (simp add: processSection_def)
  show ?thesis
    unfolding build_def
    by (rule fold_establish [where P = "defd ?k" and x = sec, OF sec(1)])
       (simp_all add: one keeps_processSection [OF keeps_defd])
qed

lemma build_nodef:
  assumes "\<not> hasStreamProperty ast X"
  shows "nodef (toUpperCase X) (build ast doc st)"
  unfolding build_def
proof (rule fold_invariant [where P = "nodef (toUpperCase X)"])
  show "nodef (toUpperCase X) (st\<lparr>symbols := [], documentText := doc\<rparr>)"
    by (simp add: nodef_def)
next
  fix sec :: SectionNode and s :: SymbolTable
  assume sec: "sec \<in> set (sections ast)" and s: "nodef (toUpperCase X) s"
  have "\<forall>stmt \<in> set (statements sec). \<not> definesStream (sectionType sec) (toUpperCase X) stmt"
  proof
    fix stmt assume stmt: "stmt \<in> set (statements sec)"
    show "\<not> definesStream (sectionType sec) (toUpperCase X) stmt"
    proof
      assume r: "definesStream (sectionType sec) (toUpperCase X) stmt"
      then obtain sd where "stmt = StreamData sd" "sectionType sec = S_STREAM_DATA"
        "toUpperCase (name (sd_streamName sd)) = toUpperCase X"
        by (cases stmt) (simp_all add: definesStream_def)
      with sec stmt have "hasStreamProperty ast X"
        unfolding hasStreamProperty_def by (auto intro!: bexI [of _ sec] bexI [of _ stmt])
      with assms show False by simp
    qed
  qed
  then show "nodef (toUpperCase X) (processSection sec s)"
    using s by (rule processSection_nodef)
qed

text \<open>
  The undefined symbols of a built table, name by name: \<open>X\<close> is among them exactly when
  \<open>X\<close> is first registered as a stream and no stream statement defines it.
\<close>

lemma undefined_iff:
  "(\<exists>s \<in> set (getUndefinedSymbols (build ast doc st)). sym_name s = toUpperCase X) \<longleftrightarrow>
   firstRegistration ast X = Some K_STREAM \<and> \<not> hasStreamProperty ast X"
proof
  let ?T = "build ast doc st" and ?k = "toUpperCase X"
  assume "\<exists>s \<in> set (getUndefinedSymbols ?T). sym_name s = ?k"
  then obtain s k' where e: "sym_name s = ?k" and k': "(k', s) \<in> set (symbols ?T)"
    and p: "kind s = K_STREAM" "\<not> hasDefinition s"
    by (auto simp: getUndefinedSymbols_def split: if_splits)
  from k' build_wf [of ast doc st] have "sym_name s = k'" and "distinct (map fst (symbols ?T))"
    by (auto simp: wfTable_def)
  with e k' have m: "map_of (symbols ?T) ?k = Some s" by simp
  with p(1) have "kindAt ?k ?T = Some K_STREAM" by (simp add: kindAt_def)
  then have 1: "firstRegistration ast X = Some K_STREAM" by (simp add: kindAt_build)
  have 2: "\<not> hasStreamProperty ast X"
  proof
    assume "hasStreamProperty ast X"
    then have "defd ?k ?T" by (rule build_defd)
    with m p show False by (simp add: defd_def)
  qed
  from 1 2 show "firstRegistration ast X = Some K_STREAM \<and> \<not> hasStreamProperty ast X" ..
next
  let ?T = "build ast doc st" and ?k = "toUpperCase X"
  assume a: "firstRegistration ast X = Some K_STREAM \<and> \<not> hasStreamProperty ast X"
  then have "kindAt ?k ?T = Some K_STREAM" by (simp add: kindAt_build)
  then obtain s where s: "map_of (symbols ?T) ?k = Some s" "kind s = K_STREAM"
    by (auto simp: kindAt_def)
  from a have "nodef ?k ?T" by (simp add: build_nodef)
  with s have nd: "\<not> hasDefinition s" by (simp add: nodef_def)
  from build_streamsReferenced [of ast doc st] s have r: "references s \<noteq> []"
    unfolding streamsReferenced_def by blast
  from s(1) have m: "(?k, s) \<in> set (symbols ?T)" by (rule map_of_SomeD)
  with build_wf [of ast doc st] have "sym_name s = ?k" by (auto simp: wfTable_def)
  moreover from m s nd r have "s \<in> set (getUndefinedSymbols ?T)"
    by (force simp: getUndefinedSymbols_def)
  ultimately show "\<exists>s \<in> set (getUndefinedSymbols ?T). sym_name s = ?k" by blast
qed

lemma referenced_registered:
  assumes "referencedAsFeed ast X"
  shows "\<exists>kd. firstRegistration ast X = Some kd"
proof -
  from assms have "present (toUpperCase X) (build ast [] new_SymbolTable)"
    by (rule build_present)
  then have "kindAt (toUpperCase X) (build ast [] new_SymbolTable) \<noteq> None"
    by (auto simp: present_def kindAt_def)
  then show ?thesis by (simp add: kindAt_build)
qed

text \<open>
  Claim C5, as amended. \<open>getUndefinedSymbols\<close> returns the stream symbols that have a
  reference and none with role definition. If a unit operation has the feed \<open>X\<close>, no
  stream statement defines \<open>X\<close>, and \<open>X\<close> is not first registered as a component or as a
  unit (no component \<open>X\<close> and no uid \<open>X\<close> comes before the first reference to \<open>X\<close>; a uid
  comes before the feeds of its own statement), the result contains \<open>X\<close>; if a stream
  statement defines \<open>X\<close> (before or after the unit operation), the result does not
  contain \<open>X\<close>. In general the result contains \<open>X\<close> exactly when \<open>X\<close> is first registered
  as a stream and no stream statement defines it.
\<close>

theorem undefined_stream_detection:
  "getUndefinedSymbols (build ast doc st) =
     filter (\<lambda>s. kind s = K_STREAM \<and> \<not> hasDefinition s \<and> references s \<noteq> [])
       (getAllSymbols (build ast doc st)) \<and>
   (referencedAsFeed ast X \<and> \<not> hasStreamProperty ast X \<and>
    firstRegistration ast X \<noteq> Some K_COMPONENT \<and> firstRegistration ast X \<noteq> Some K_UNIT \<longrightarrow>
      (\<exists>s \<in> set (getUndefinedSymbols (build ast doc st)). sym_name s = toUpperCase X)) \<and>
   (hasStreamProperty ast X \<longrightarrow>
      (\<forall>s \<in> set (getUndefinedSymbols (build ast doc st)). sym_name s \<noteq> toUpperCase X)) \<and>
   ((\<exists>s \<in> set (getUndefinedSymbols (build ast doc st)). sym_name s = toUpperCase X) \<longleftrightarrow>
      firstRegistration ast X = Some K_STREAM \<and> \<not> hasStreamProperty ast X)"
proof (intro conjI impI)
  show "getUndefinedSymbols (build ast doc st) =
     filter (\<lambda>s. kind s = K_STREAM \<and> \<not> hasDefinition s \<and> references s \<noteq> [])
       (getAllSymbols (build ast doc st))"
    unfolding getUndefinedSymbols_def getAllSymbols_def
    by (rule filter_cong) auto
next
  assume a: "referencedAsFeed ast X \<and> \<not> hasStreamProperty ast X \<and>
    firstRegistration ast X \<noteq> Some K_COMPONENT \<and> firstRegistration ast X \<noteq> Some K_UNIT"
  then obtain kd where kd: "firstRegistration ast X = Some kd"
    using referenced_registered by blast
  then have "kd = K_COMPONENT \<or> kd = K_UNIT \<or> kd = K_STREAM"
    by (rule firstRegistration_kinds)
  with a kd have "firstRegistration ast X = Some K_STREAM" by auto
  with a show "\<exists>s \<in> set (getUndefinedSymbols (build ast doc st)). sym_name s = toUpperCase X"
    by (simp add: undefined_iff)
next
  assume "hasStreamProperty ast X"
  then have "\<not> (\<exists>s \<in> set (getUndefinedSymbols (build ast doc st)). sym_name s = toUpperCase X)"
    by (simp add: undefined_iff)
  then show "\<forall>s \<in> set (getUndefinedSymbols (build ast doc st)). sym_name s \<noteq> toUpperCase X"
    by blast
next
  show "(\<exists>s \<in> set (getUndefinedSymbols (build ast doc st)). sym_name s = toUpperCase X) \<longleftrightarrow>
      firstRegistration ast X = Some K_STREAM \<and> \<not> hasStreamProperty ast X"
    by (rule undefined_iff)
qed

text \<open>
  The witness: the feed \<open>X\<close> of \<open>UNIT / FLASH FEED X\<close>; the feed \<open>X\<close> of
  \<open>UNIT / FLASH FEED X / FLASH UID=X\<close>, where the uid \<open>X\<close> comes after the reference; and
  the defined stream of \<open>STREAM DATA / PROP DATA=Inlet\<close>, \<open>UNIT / FLASH FEED inlet\<close>.
\<close>

theorem undefined_stream_detection_witness:
  "referencedAsFeed feedOnlyAst (js ''x'') \<and> \<not> hasStreamProperty feedOnlyAst (js ''x'') \<and>
   firstRegistration feedOnlyAst (js ''x'') = Some K_STREAM \<and>
   (\<exists>s. s \<in> set (getUndefinedSymbols (build feedOnlyAst [] new_SymbolTable)) \<and>
        sym_name s = js ''X'') \<and>
   referencedAsFeed feedThenUnitAst (js ''X'') \<and> \<not> hasStreamProperty feedThenUnitAst (js ''X'') \<and>
   firstRegistration feedThenUnitAst (js ''X'') = Some K_STREAM \<and>
   (\<exists>s. s \<in> set (getUndefinedSymbols (build feedThenUnitAst [] new_SymbolTable)) \<and>
        sym_name s = js ''X'') \<and>
   map (\<lambda>s. (sym_name s, kind s)) (getUndefinedSymbols (build feedThenUnitAst [] new_SymbolTable)) =
     [(js ''X'', K_STREAM)] \<and>
   hasStreamProperty definedFeedAst (js ''INLET'') \<and>
   referencedAsFeed definedFeedAst (js ''INLET'') \<and>
   (\<nexists>s. s \<in> set (getUndefinedSymbols (build definedFeedAst [] new_SymbolTable)) \<and>
        sym_name s = js ''INLET'')"
proof -
  have u: "toUpperCase (js ''x'') = js ''X''" "toUpperCase (js ''X'') = js ''X''"
    "toUpperCase (js ''INLET'') = js ''INLET''"
    by code_simp+
  have h1: "referencedAsFeed feedOnlyAst (js ''x'')" "\<not> hasStreamProperty feedOnlyAst (js ''x'')"
    "firstRegistration feedOnlyAst (js ''x'') = Some K_STREAM"
    by code_simp+
  have h2: "referencedAsFeed feedThenUnitAst (js ''X'')"
    "\<not> hasStreamProperty feedThenUnitAst (js ''X'')"
    "firstRegistration feedThenUnitAst (js ''X'') = Some K_STREAM"
    by code_simp+
  have h3: "hasStreamProperty definedFeedAst (js ''INLET'')"
    "referencedAsFeed definedFeedAst (js ''INLET'')"
    by code_simp+
  have e: "map (\<lambda>s. (sym_name s, kind s))
      (getUndefinedSymbols (build feedThenUnitAst [] new_SymbolTable)) = [(js ''X'', K_STREAM)]"
    by code_simp
  from h1 undefined_stream_detection [of feedOnlyAst "[]" new_SymbolTable "js ''x''", unfolded u]
  have 1: "\<exists>s. s \<in> set (getUndefinedSymbols (build feedOnlyAst [] new_SymbolTable)) \<and>
      sym_name s = js ''X''"
    by auto
  from h2 undefined_stream_detection [of feedThenUnitAst "[]" new_SymbolTable "js ''X''", unfolded u]
  have 2: "\<exists>s. s \<in> set (getUndefinedSymbols (build feedThenUnitAst [] new_SymbolTable)) \<and>
      sym_name s = js ''X''"
    by auto
  from h3 undefined_stream_detection [of definedFeedAst "[]" new_SymbolTable "js ''INLET''", unfolded u]
  have 3: "\<nexists>s. s \<in> set (getUndefinedSymbols (build definedFeedAst [] new_SymbolTable)) \<and>
      sym_name s = js ''INLET''"
    by blast
  from h1 h2 h3 e 1 2 3 show ?thesis by blast
qed

text \<open>
  Claim C5 as stated fails when the feed's name is also the uid of a unit: in the tree
  of \<open>UNIT / FLASH UID=X, FEED X\<close> the stream \<open>X\<close> is referenced as a feed and no stream
  statement defines it, yet no symbol is undefined (the feed reference lands on the
  unit symbol \<open>X\<close>).
\<close>

theorem undefined_stream_detection_counterexample:
  "referencedAsFeed selfFeedAst (js ''X'') \<and> \<not> hasStreamProperty selfFeedAst (js ''X'') \<and>
   getUndefinedSymbols (build selfFeedAst [] new_SymbolTable) = [] \<and>
   map (\<lambda>s. (sym_name s, kind s, references s)) (getAllSymbols (build selfFeedAst [] new_SymbolTable)) =
     [(js ''X'', K_UNIT, [\<lparr>ref_line = 2, ref_context = js ''definition''\<rparr>,
                       \<lparr>ref_line = 2, ref_context = js ''feed''\<rparr>])]"
  by code_simp

section \<open>The parser (parser.ts)\<close>

text \<open>
  The fields of class \<open>Parser\<close>. Reading a property of \<open>this.current()\<close> when the cursor
  is past the last token is a \<open>TypeError\<close> in JavaScript: every function that can do so
  returns a \<open>result\<close>. The helpers that the lexer has under the same name carry the
  suffix \<open>_p\<close>.
\<close>

record Parser =
  p_tokens :: "Token list"
  p_position :: nat
  currentLine :: nat

datatype 'a result = Ok 'a | TypeError

definition new_Parser :: "Token list \<Rightarrow> Parser" where
  "new_Parser toks = \<lparr>p_tokens = toks, p_position = 0, currentLine = 1\<rparr>"

definition current :: "Parser \<Rightarrow> Token option" where
  "current ps = (if p_position ps < length (p_tokens ps) then Some (p_tokens ps ! p_position ps)
                 else None)"

definition peek_p :: "Parser \<Rightarrow> Token option" where
  "peek_p ps = (if p_position ps + 1 \<ge> length (p_tokens ps) then None
                else Some (p_tokens ps ! (p_position ps + 1)))"

definition isAtEnd_p :: "Parser \<Rightarrow> bool" where
  "isAtEnd_p ps = (if p_position ps \<ge> length (p_tokens ps) then True
                   else tok_type (p_tokens ps ! p_position ps) = EOF)"

definition check :: "TokenType \<Rightarrow> Parser \<Rightarrow> bool" where
  "check ty ps = (if isAtEnd_p ps then False else tok_type (p_tokens ps ! p_position ps) = ty)"

definition checkNext :: "TokenType \<Rightarrow> Parser \<Rightarrow> bool" where
  "checkNext ty ps = (case peek_p ps of None \<Rightarrow> False | Some next \<Rightarrow> tok_type next = ty)"

definition advance_p :: "Parser \<Rightarrow> Parser" where
  "advance_p ps =
     (if \<not> isAtEnd_p ps
      then ps\<lparr>p_position := p_position ps + 1,
              currentLine := tok_line (p_tokens ps ! p_position ps)\<rparr>
      else ps)"

definition consume :: "TokenType \<Rightarrow> Parser \<Rightarrow> bool \<times> Parser" where
  "consume ty ps = (if check ty ps then (True, advance_p ps) else (False, ps))"

lemma check_advance_measure:
  "\<not> isAtEnd_p ps \<Longrightarrow>
   length (p_tokens (advance_p ps)) - p_position (advance_p ps) < length (p_tokens ps) - p_position ps"
  by (auto simp: advance_p_def isAtEnd_p_def split: if_splits)

function consumeNewlines :: "Parser \<Rightarrow> Parser" where
  "consumeNewlines ps = (if check NEWLINE ps then consumeNewlines (advance_p ps) else ps)"
  by pat_completeness auto
termination
  by (relation "measure (\<lambda>ps. length (p_tokens ps) - p_position ps)")
     (auto simp: check_def intro: check_advance_measure split: if_splits)

function skipWhitespaceAndComments :: "Parser \<Rightarrow> Parser" where
  "skipWhitespaceAndComments ps =
     (if check NEWLINE ps \<or> check COMMENT ps then skipWhitespaceAndComments (advance_p ps) else ps)"
  by pat_completeness auto
termination
  by (relation "measure (\<lambda>ps. length (p_tokens ps) - p_position ps)")
     (auto simp: check_def intro: check_advance_measure split: if_splits)

function advanceLineLoop :: "Parser \<Rightarrow> Parser" where
  "advanceLineLoop ps =
     (if \<not> isAtEnd_p ps \<and> \<not> check NEWLINE ps then advanceLineLoop (advance_p ps) else ps)"
  by pat_completeness auto
termination
  by (relation "measure (\<lambda>ps. length (p_tokens ps) - p_position ps)")
     (auto intro: check_advance_measure)

declare consumeNewlines.simps [simp del] skipWhitespaceAndComments.simps [simp del]
  advanceLineLoop.simps [simp del]

definition advanceLine :: "Parser \<Rightarrow> Parser" where
  "advanceLine ps = consumeNewlines (advanceLineLoop ps)"

definition getCurrentLine :: "Parser \<Rightarrow> nat" where
  "getCurrentLine ps = (if isAtEnd_p ps then currentLine ps
                        else tok_line (p_tokens ps ! p_position ps))"

definition isUnitOperationType :: "TokenType \<Rightarrow> bool" where
  "isUnitOperationType ty =
     (ty = FLASH \<or> ty = COLUMN \<or> ty = HCURVE \<or> ty = HX \<or> ty = COMPRESSOR \<or> ty = PUMP \<or>
      ty = MIXER \<or> ty = SPLITTER \<or> ty = VALVE \<or> ty = REACTOR \<or> ty = CALCULATOR \<or> ty = STCALC)"

definition isParameterKeyword :: "TokenType \<Rightarrow> bool" where
  "isParameterKeyword ty =
     (ty = TEMP \<or> ty = PRES \<or> ty = RATE \<or> ty = TYPE_KW \<or> ty = INPUT \<or> ty = RESULT)"

definition isNextSection :: "Parser \<Rightarrow> bool" where
  "isNextSection ps =
     ((check COMPONENT ps \<and> checkNext DATA ps) \<or>
      (check STREAM ps \<and> checkNext DATA ps) \<or>
      (check THERMODYNAMIC ps \<and> checkNext DATA ps) \<or>
      check UNIT_OPERATIONS ps \<or>
      check PRINT ps)"

definition isListStart :: "Parser \<Rightarrow> bool" where
  "isListStart ps =
     (if \<not> check NUMBER ps \<and> \<not> check IDENTIFIER ps then False
      else (case peek_p ps of
              None \<Rightarrow> False
            | Some next \<Rightarrow> tok_type next = COMMA \<or> tok_type next = SLASH))"

subsection \<open>Values\<close>

definition parseNumber :: "Parser \<Rightarrow> (NumberNode \<times> Parser) result" where
  "parseNumber ps =
     (case current ps of
        None \<Rightarrow> TypeError
      | Some token \<Rightarrow>
          Ok (\<lparr>startLine = tok_line token, endLine = tok_line token,
               num_value = parseFloat (tok_value token), raw = tok_value token\<rparr>,
              advance_p ps))"

definition parseIdentifier :: "Parser \<Rightarrow> (IdentifierNode \<times> Parser) result" where
  "parseIdentifier ps =
     (case current ps of
        None \<Rightarrow> TypeError
      | Some token \<Rightarrow>
          Ok (\<lparr>startLine = tok_line token, endLine = tok_line token, name = tok_value token\<rparr>,
              advance_p ps))"

definition startsWith :: "jsstring \<Rightarrow> codeunit \<Rightarrow> bool" where
  "startsWith s c = (case s of [] \<Rightarrow> False | d # _ \<Rightarrow> d = c)"

definition endsWith :: "jsstring \<Rightarrow> codeunit \<Rightarrow> bool" where
  "endsWith s c = (s \<noteq> [] \<and> last s = c)"

definition parseString :: "Parser \<Rightarrow> (StringNode \<times> Parser) result" where
  "parseString ps =
     (case current ps of
        None \<Rightarrow> TypeError
      | Some token \<Rightarrow>
          (let v = tok_value token;
               v' = (if (startsWith v (ch CHR 0x22) \<and> endsWith v (ch CHR 0x22)) \<or>
                        (startsWith v (ch CHR 0x27) \<and> endsWith v (ch CHR 0x27))
                     then butlast (tl v) else v)
           in Ok (\<lparr>startLine = tok_line token, endLine = tok_line token, str_value = v'\<rparr>,
                  advance_p ps)))"

lemma parseNumber_measure:
  "parseNumber ps = Ok (n, ps') \<Longrightarrow>
   length (p_tokens ps') - p_position ps' \<le> length (p_tokens ps) - p_position ps"
  by (auto simp: parseNumber_def advance_p_def split: option.splits if_splits)

lemma parseIdentifier_measure:
  "parseIdentifier ps = Ok (n, ps') \<Longrightarrow>
   length (p_tokens ps') - p_position ps' \<le> length (p_tokens ps) - p_position ps"
  by (auto simp: parseIdentifier_def advance_p_def split: option.splits if_splits)

text \<open>The loop of \<open>parseList\<close> over the remaining values; \<open>break\<close> returns.\<close>

function parseListLoop :: "Parser \<Rightarrow> ValueNode list \<Rightarrow> (ValueNode list \<times> Parser) result" where
  "parseListLoop ps vals =
     (if check COMMA ps \<or> check SLASH ps then
        (if check NUMBER (advance_p ps) then
           (case parseNumber (advance_p ps) of
              TypeError \<Rightarrow> TypeError
            | Ok (n, ps2) \<Rightarrow> parseListLoop ps2 (vals @ [VNumber n]))
         else if check IDENTIFIER (advance_p ps) then
           (case parseIdentifier (advance_p ps) of
              TypeError \<Rightarrow> TypeError
            | Ok (i, ps2) \<Rightarrow> parseListLoop ps2 (vals @ [VIdentifier i]))
         else Ok (vals, advance_p ps))
      else Ok (vals, ps))"
  by pat_completeness auto
termination
proof (relation "measure (\<lambda>(ps, vals). length (p_tokens ps) - p_position ps)")
  show "wf (measure (\<lambda>(ps, vals). length (p_tokens ps) - p_position ps))" by simp
next
  fix ps :: Parser and vals :: "ValueNode list" and x2 n ps2
  assume c: "check COMMA ps \<or> check SLASH ps" and "parseNumber (advance_p ps) = Ok x2"
    and "(n, ps2) = x2"
  then have "length (p_tokens ps2) - p_position ps2 \<le>
      length (p_tokens (advance_p ps)) - p_position (advance_p ps)"
    by (auto intro: parseNumber_measure)
  moreover from c have "\<not> isAtEnd_p ps" by (auto simp: check_def split: if_splits)
  ultimately show "((ps2, vals @ [VNumber n]), ps, vals)
      \<in> measure (\<lambda>(ps, vals). length (p_tokens ps) - p_position ps)"
    using check_advance_measure [of ps] by simp
next
  fix ps :: Parser and vals :: "ValueNode list" and x2 i ps2
  assume c: "check COMMA ps \<or> check SLASH ps" and "parseIdentifier (advance_p ps) = Ok x2"
    and "(i, ps2) = x2"
  then have "length (p_tokens ps2) - p_position ps2 \<le>
      length (p_tokens (advance_p ps)) - p_position (advance_p ps)"
    by (auto intro: parseIdentifier_measure)
  moreover from c have "\<not> isAtEnd_p ps" by (auto simp: check_def split: if_splits)
  ultimately show "((ps2, vals @ [VIdentifier i]), ps, vals)
      \<in> measure (\<lambda>(ps, vals). length (p_tokens ps) - p_position ps)"
    using check_advance_measure [of ps] by simp
qed

declare parseListLoop.simps [simp del]

definition parseList :: "Parser \<Rightarrow> (ValueNode \<times> Parser) result" where
  "parseList ps =
     (let sl = getCurrentLine ps in
      case (if check NUMBER ps then
              (case parseNumber ps of TypeError \<Rightarrow> TypeError | Ok (n, ps1) \<Rightarrow> Ok ([VNumber n], ps1))
            else if check IDENTIFIER ps then
              (case parseIdentifier ps of TypeError \<Rightarrow> TypeError
               | Ok (i, ps1) \<Rightarrow> Ok ([VIdentifier i], ps1))
            else Ok ([], ps)) of
        TypeError \<Rightarrow> TypeError
      | Ok (vals0, ps1) \<Rightarrow>
          (let separator = (if check SLASH ps1 then SepSlash else SepComma) in
           case parseListLoop ps1 vals0 of
             TypeError \<Rightarrow> TypeError
           | Ok (vals, ps2) \<Rightarrow> Ok (VList sl (getCurrentLine ps2) vals separator, ps2)))"

definition parseValue :: "Parser \<Rightarrow> (ValueNode \<times> Parser) result" where
  "parseValue ps =
     (if isListStart ps then parseList ps
      else if check NUMBER ps then
        (case parseNumber ps of TypeError \<Rightarrow> TypeError | Ok (n, ps1) \<Rightarrow> Ok (VNumber n, ps1))
      else if check STRING ps then
        (case parseString ps of TypeError \<Rightarrow> TypeError | Ok (s, ps1) \<Rightarrow> Ok (VString s, ps1))
      else
        (case parseIdentifier ps of TypeError \<Rightarrow> TypeError | Ok (i, ps1) \<Rightarrow> Ok (VIdentifier i, ps1)))"

text \<open>\<open>parseParameter\<close>, \<open>parseStreamReference\<close> and \<open>parseComponent\<close> return a node or \<open>null\<close>.\<close>

definition parseParameter :: "Parser \<Rightarrow> (ParameterNode option \<times> Parser) result" where
  "parseParameter ps =
     (let sl = getCurrentLine ps in
      case (if check IDENTIFIER ps then Ok True
            else (case current ps of
                    None \<Rightarrow> TypeError
                  | Some token \<Rightarrow> Ok (isParameterKeyword (tok_type token)))) of
        TypeError \<Rightarrow> TypeError
      | Ok False \<Rightarrow> Ok (None, ps)
      | Ok True \<Rightarrow>
          (case parseIdentifier ps of
             TypeError \<Rightarrow> TypeError
           | Ok (nm, ps1) \<Rightarrow>
               (case consume EQUALS ps1 of
                  (False, ps2) \<Rightarrow> Ok (None, ps2)
                | (True, ps2) \<Rightarrow>
                    (case parseValue ps2 of
                       TypeError \<Rightarrow> TypeError
                     | Ok (v, ps3) \<Rightarrow>
                         Ok (Some \<lparr>startLine = sl, endLine = getCurrentLine ps3,
                                   param_name = nm, param_value = v\<rparr>, ps3)))))"

definition parseStreamReference :: "Parser \<Rightarrow> (StreamReferenceNode option \<times> Parser) result" where
  "parseStreamReference ps =
     (let sl = getCurrentLine ps in
      if \<not> check IDENTIFIER ps then Ok (None, ps)
      else
        (case parseIdentifier ps of
           TypeError \<Rightarrow> TypeError
         | Ok (nm, ps1) \<Rightarrow>
             (case consume COMMA ps1 of
                (False, ps2) \<Rightarrow>
                  Ok (Some \<lparr>startLine = sl, endLine = getCurrentLine ps2,
                            ref_streamName = nm, streamType = None\<rparr>, ps2)
              | (True, ps2) \<Rightarrow>
                  (if check IDENTIFIER ps2 then
                     (case current ps2 of
                        None \<Rightarrow> TypeError
                      | Some token \<Rightarrow>
                          Ok (Some \<lparr>startLine = sl, endLine = getCurrentLine (advance_p ps2),
                                    ref_streamName = nm,
                                    streamType = Some (toUpperCase (tok_value token))\<rparr>,
                              advance_p ps2))
                   else
                     Ok (Some \<lparr>startLine = sl, endLine = getCurrentLine ps2,
                               ref_streamName = nm, streamType = None\<rparr>, ps2)))))"

definition parseComponent :: "Parser \<Rightarrow> (ComponentNode option \<times> Parser) result" where
  "parseComponent ps =
     (let sl = getCurrentLine ps in
      if check NUMBER ps then
        (case parseNumber ps of
           TypeError \<Rightarrow> TypeError
         | Ok (lib, ps1) \<Rightarrow>
             (let ps2 = snd (consume SLASH ps1) in
              case current ps2 of
                None \<Rightarrow> TypeError
              | Some token \<Rightarrow>
                  Ok (Some \<lparr>startLine = sl, endLine = getCurrentLine (advance_p ps2),
                            comp_identifier = tok_value token, libid = Some lib\<rparr>,
                      advance_p ps2)))
      else if check IDENTIFIER ps then
        (case current ps of
           None \<Rightarrow> TypeError
         | Some token \<Rightarrow>
             (let ps1 = advance_p ps in
              case consume SLASH ps1 of
                (False, ps2) \<Rightarrow>
                  Ok (Some \<lparr>startLine = sl, endLine = getCurrentLine ps2,
                            comp_identifier = tok_value token, libid = None\<rparr>, ps2)
              | (True, ps2) \<Rightarrow>
                  (if check NUMBER ps2 then
                     (case parseNumber ps2 of
                        TypeError \<Rightarrow> TypeError
                      | Ok (lib, ps3) \<Rightarrow>
                          Ok (Some \<lparr>startLine = sl, endLine = getCurrentLine ps3,
                                    comp_identifier = tok_value token, libid = Some lib\<rparr>, ps3))
                   else
                     Ok (Some \<lparr>startLine = sl, endLine = getCurrentLine ps2,
                               comp_identifier = tok_value token, libid = None\<rparr>, ps2))))
      else Ok (None, ps))"

subsection \<open>Statements\<close>

text \<open>
  The statement loops and everything that runs them may fail to return, so they are
  partial functions: \<open>None\<close> is a run that never ends, \<open>Some TypeError\<close> a run that
  throws, \<open>Some (Ok r)\<close> a run that returns \<open>r\<close>.
\<close>

text \<open>The loop of \<open>parseComponentStatement\<close>.\<close>

partial_function (option) componentLoop ::
  "Parser \<Rightarrow> ComponentNode list \<Rightarrow> (ComponentNode list \<times> Parser) result option" where
  "componentLoop ps comps =
     (if \<not> isAtEnd_p ps \<and> \<not> check NEWLINE ps then
        (if check CONTINUATION ps then componentLoop (consumeNewlines (advance_p ps)) comps
         else
           (case parseComponent ps of
              TypeError \<Rightarrow> Some TypeError
            | Ok (c, ps1) \<Rightarrow>
                (let comps1 = (case c of Some x \<Rightarrow> comps @ [x] | None \<Rightarrow> comps) in
                 if \<not> fst (consume COMMA ps1) then Some (Ok (comps1, snd (consume COMMA ps1)))
                 else componentLoop (snd (consume COMMA ps1)) comps1)))
      else Some (Ok (comps, ps)))"

definition parseComponentStatement ::
  "Parser \<Rightarrow> (ComponentDataNode option \<times> Parser) result option" where
  "parseComponentStatement ps =
     (let sl = getCurrentLine ps in
      if \<not> check LIBID ps \<and> \<not> check NAME ps \<and> \<not> check BANK ps
      then Some (Ok (None, advanceLine ps))
      else
        (let statementType = (if check LIBID ps then (js ''LIBID'')
                              else if check NAME ps then (js ''NAME'') else (js ''BANK'')) in
         Option.bind (componentLoop (advance_p ps) [])
           (\<lambda>r. case r of
                  TypeError \<Rightarrow> Some TypeError
                | Ok (comps, ps1) \<Rightarrow>
                    (let ps2 = consumeNewlines ps1 in
                     Some (Ok (Some \<lparr>startLine = sl, endLine = getCurrentLine ps2,
                                     cd_statementType = statementType, components = comps\<rparr>,
                               ps2))))))"

text \<open>
  The parameter loop of \<open>parseStreamStatement\<close> and of \<open>parseThermodynamicStatement\<close>
  (the same text in both), and the one of \<open>parsePrintStatement\<close>, which has no branch
  for the continuation marker.
\<close>

partial_function (option) parameterLoop ::
  "Parser \<Rightarrow> ParameterNode list \<Rightarrow> (ParameterNode list \<times> Parser) result option" where
  "parameterLoop ps params =
     (if \<not> isAtEnd_p ps \<and> \<not> check NEWLINE ps then
        (if check CONTINUATION ps then parameterLoop (consumeNewlines (advance_p ps)) params
         else
           (case parseParameter ps of
              TypeError \<Rightarrow> Some TypeError
            | Ok (p, ps1) \<Rightarrow>
                (let params1 = (case p of Some x \<Rightarrow> params @ [x] | None \<Rightarrow> params) in
                 if \<not> fst (consume COMMA ps1) then Some (Ok (params1, snd (consume COMMA ps1)))
                 else parameterLoop (snd (consume COMMA ps1)) params1)))
      else Some (Ok (params, ps)))"

partial_function (option) printParameterLoop ::
  "Parser \<Rightarrow> ParameterNode list \<Rightarrow> (ParameterNode list \<times> Parser) result option" where
  "printParameterLoop ps params =
     (if \<not> isAtEnd_p ps \<and> \<not> check NEWLINE ps then
        (case parseParameter ps of
           TypeError \<Rightarrow> Some TypeError
         | Ok (p, ps1) \<Rightarrow>
             (let params1 = (case p of Some x \<Rightarrow> params @ [x] | None \<Rightarrow> params) in
              if \<not> fst (consume COMMA ps1) then Some (Ok (params1, snd (consume COMMA ps1)))
              else printParameterLoop (snd (consume COMMA ps1)) params1))
      else Some (Ok (params, ps)))"

definition parseStreamStatement ::
  "Parser \<Rightarrow> (StreamDataNode option \<times> Parser) result option" where
  "parseStreamStatement ps =
     (let sl = getCurrentLine ps in
      if \<not> check PROP_KW ps \<and> \<not> check COMP ps then Some (Ok (None, advanceLine ps))
      else
        (let statementType = (if check PROP_KW ps then (js ''PROP'') else (js ''COMP''));
             ps1 = advance_p ps;
             dt = (if check DATA ps1 then (js ''DATA'') else if check RATE ps1 then (js ''RATE'') else []);
             ps2 = (if check DATA ps1 \<or> check RATE ps1 then advance_p ps1 else ps1);
             ps3 = snd (consume EQUALS ps2)
         in case parseIdentifier ps3 of
              TypeError \<Rightarrow> Some TypeError
            | Ok (streamName, ps4) \<Rightarrow>
                Option.bind (parameterLoop (snd (consume COMMA ps4)) [])
                  (\<lambda>r. case r of
                         TypeError \<Rightarrow> Some TypeError
                       | Ok (params, ps5) \<Rightarrow>
                           (let ps6 = consumeNewlines ps5 in
                            Some (Ok (Some \<lparr>startLine = sl, endLine = getCurrentLine ps6,
                                            sd_statementType = statementType,
                                            sd_streamName = streamName, dataType = dt,
                                            sd_parameters = params\<rparr>, ps6))))))"

definition parseThermodynamicStatement ::
  "Parser \<Rightarrow> (ThermodynamicDataNode option \<times> Parser) result option" where
  "parseThermodynamicStatement ps =
     (let sl = getCurrentLine ps in
      if \<not> check METHOD ps \<and> \<not> check SET ps then Some (Ok (None, advanceLine ps))
      else
        (let statementType = (if check METHOD ps then (js ''METHOD'') else (js ''SET''));
             ps1 = advance_p ps;
             hasMethod = (check SRK ps1 \<or> check PR ps1 \<or> check NRTL ps1)
         in case (if hasMethod
                  then (case current ps1 of
                          None \<Rightarrow> TypeError
                        | Some token \<Rightarrow> Ok (Some (toUpperCase (tok_value token)), advance_p ps1))
                  else Ok (None, ps1)) of
              TypeError \<Rightarrow> Some TypeError
            | Ok (m, ps2) \<Rightarrow>
                Option.bind (parameterLoop ps2 [])
                  (\<lambda>r. case r of
                         TypeError \<Rightarrow> Some TypeError
                       | Ok (params, ps3) \<Rightarrow>
                           (let ps4 = consumeNewlines ps3 in
                            Some (Ok (Some \<lparr>startLine = sl, endLine = getCurrentLine ps4,
                                            td_statementType = statementType, td_method = m,
                                            td_parameters = params\<rparr>, ps4))))))"

definition parsePrintStatement ::
  "Parser \<Rightarrow> (PrintStatementNode option \<times> Parser) result option" where
  "parsePrintStatement ps =
     (let sl = getCurrentLine ps in
      if \<not> check PRINT ps then Some (Ok (None, ps))
      else
        Option.bind (printParameterLoop (advance_p ps) [])
          (\<lambda>r. case r of
                 TypeError \<Rightarrow> Some TypeError
               | Ok (params, ps1) \<Rightarrow>
                   (let ps2 = consumeNewlines ps1 in
                    Some (Ok (Some \<lparr>startLine = sl, endLine = getCurrentLine ps2,
                                    ps_statementType = js ''PRINT'', ps_parameters = params\<rparr>,
                              ps2)))))"

text \<open>
  \<open>parseUnitOperation\<close>. Its \<open>do ... while (this.consume(COMMA))\<close> over the product
  streams, and its loop over the rest of the line, whose local variables \<open>uid\<close>,
  \<open>parameters\<close>, \<open>feedStreams\<close> and \<open>productStreams\<close> are the record \<open>UnitAcc\<close>.
\<close>

partial_function (option) productLoop ::
  "Parser \<Rightarrow> StreamReferenceNode list \<Rightarrow> (StreamReferenceNode list \<times> Parser) result option" where
  "productLoop ps prods =
     (case parseStreamReference ps of
        TypeError \<Rightarrow> Some TypeError
      | Ok (stream, ps1) \<Rightarrow>
          (let prods1 = (case stream of Some x \<Rightarrow> prods @ [x] | None \<Rightarrow> prods) in
           if fst (consume COMMA ps1) then productLoop (snd (consume COMMA ps1)) prods1
           else Some (Ok (prods1, snd (consume COMMA ps1)))))"

record UnitAcc =
  acc_uid :: "IdentifierNode option"
  acc_parameters :: "ParameterNode list"
  acc_feedStreams :: "StreamReferenceNode list"
  acc_productStreams :: "StreamReferenceNode list"

partial_function (option) unitLoop ::
  "Parser \<Rightarrow> UnitAcc \<Rightarrow> (UnitAcc \<times> Parser) result option" where
  "unitLoop ps acc =
     (if \<not> isAtEnd_p ps \<and> \<not> check NEWLINE ps then
        (if check CONTINUATION ps then unitLoop (consumeNewlines (advance_p ps)) acc
         else
           Option.bind
             (if check UID ps then
                (case consume EQUALS (advance_p ps) of
                   (False, ps1) \<Rightarrow> Some (Ok (acc, ps1))
                 | (True, ps1) \<Rightarrow>
                     (case parseIdentifier ps1 of
                        TypeError \<Rightarrow> Some TypeError
                      | Ok (u, ps2) \<Rightarrow> Some (Ok (acc\<lparr>acc_uid := Some u\<rparr>, ps2))))
              else if check FEED ps then
                (case parseStreamReference (advance_p ps) of
                   TypeError \<Rightarrow> Some TypeError
                 | Ok (stream, ps1) \<Rightarrow>
                     Some (Ok (case stream of
                                 Some x \<Rightarrow> acc\<lparr>acc_feedStreams := acc_feedStreams acc @ [x]\<rparr>
                               | None \<Rightarrow> acc, ps1)))
              else if check PROD_KW ps \<or> check PRODUCT ps then
                Option.bind (productLoop (advance_p ps) (acc_productStreams acc))
                  (\<lambda>r. case r of
                         TypeError \<Rightarrow> Some TypeError
                       | Ok (prods, ps1) \<Rightarrow> Some (Ok (acc\<lparr>acc_productStreams := prods\<rparr>, ps1)))
              else
                (case parseParameter ps of
                   TypeError \<Rightarrow> Some TypeError
                 | Ok (param, ps1) \<Rightarrow>
                     Some (Ok (case param of
                                 Some x \<Rightarrow> acc\<lparr>acc_parameters := acc_parameters acc @ [x]\<rparr>
                               | None \<Rightarrow> acc, ps1))))
             (\<lambda>r. case r of
                    TypeError \<Rightarrow> Some TypeError
                  | Ok (acc1, ps1) \<Rightarrow> unitLoop (snd (consume COMMA ps1)) acc1))
      else Some (Ok (acc, ps)))"

definition parseUnitOperation ::
  "Parser \<Rightarrow> (UnitOperationNode option \<times> Parser) result option" where
  "parseUnitOperation ps =
     (let sl = getCurrentLine ps in
      case current ps of
        None \<Rightarrow> Some TypeError
      | Some unitTok \<Rightarrow>
          if \<not> isUnitOperationType (tok_type unitTok) then Some (Ok (None, ps))
          else
            Option.bind
              (unitLoop (advance_p ps)
                 \<lparr>acc_uid = None, acc_parameters = [], acc_feedStreams = [],
                  acc_productStreams = []\<rparr>)
              (\<lambda>r. case r of
                     TypeError \<Rightarrow> Some TypeError
                   | Ok (acc, ps1) \<Rightarrow>
                       (let ps2 = consumeNewlines ps1 in
                        Some (Ok (Some \<lparr>startLine = sl, endLine = getCurrentLine ps2,
                                        uo_statementType = toUpperCase (tok_value unitTok),
                                        uid = acc_uid acc, uo_parameters = acc_parameters acc,
                                        feedStreams = acc_feedStreams acc,
                                        productStreams = acc_productStreams acc\<rparr>, ps2)))))"

subsection \<open>Sections and the program\<close>

text \<open>
  The four statement loops of \<open>parseSection\<close> are one text but for the statement parser
  they call: \<open>while (!isAtEnd() && !isNextSection()) { stmt = parse...(); if (stmt)
  statements.push(stmt); skipWhitespaceAndComments(); }\<close>.
\<close>

partial_function (option) statementLoop ::
  "(Parser \<Rightarrow> (StatementNode option \<times> Parser) result option) \<Rightarrow> Parser \<Rightarrow> StatementNode list \<Rightarrow>
   (StatementNode list \<times> Parser) result option" where
  "statementLoop parseStatement ps stmts =
     (if \<not> isAtEnd_p ps \<and> \<not> isNextSection ps then
        Option.bind (parseStatement ps)
          (\<lambda>r. case r of
                 TypeError \<Rightarrow> Some TypeError
               | Ok (stmt, ps1) \<Rightarrow>
                   statementLoop parseStatement (skipWhitespaceAndComments ps1)
                     (case stmt of Some x \<Rightarrow> stmts @ [x] | None \<Rightarrow> stmts))
      else Some (Ok (stmts, ps)))"

text \<open>A statement parser seen as returning a \<open>StatementNode\<close>.\<close>

definition asStatement ::
  "('a \<Rightarrow> StatementNode) \<Rightarrow> ('a option \<times> Parser) result option \<Rightarrow>
   (StatementNode option \<times> Parser) result option" where
  "asStatement wrap r =
     map_option (\<lambda>x. case x of TypeError \<Rightarrow> TypeError
                    | Ok (node, ps) \<Rightarrow> Ok (map_option wrap node, ps)) r"

definition parseSection :: "Parser \<Rightarrow> (SectionNode option \<times> Parser) result option" where
  "parseSection ps =
     (let sl = getCurrentLine ps;
          finish = (\<lambda>ty r. case r of
                      TypeError \<Rightarrow> Some TypeError
                    | Ok (stmts, ps1) \<Rightarrow>
                        Some (Ok (Some \<lparr>startLine = sl, endLine = getCurrentLine ps1,
                                        sectionType = ty, statements = stmts\<rparr>, ps1)))
      in
      if check COMPONENT ps \<and> checkNext DATA ps then
        Option.bind
          (statementLoop (\<lambda>p. asStatement ComponentData (parseComponentStatement p))
             (consumeNewlines (advance_p (advance_p ps))) [])
          (finish S_COMPONENT_DATA)
      else if check STREAM ps \<and> checkNext DATA ps then
        Option.bind
          (statementLoop (\<lambda>p. asStatement StreamData (parseStreamStatement p))
             (consumeNewlines (advance_p (advance_p ps))) [])
          (finish S_STREAM_DATA)
      else if check THERMODYNAMIC ps \<and> checkNext DATA ps then
        Option.bind
          (statementLoop (\<lambda>p. asStatement ThermodynamicData (parseThermodynamicStatement p))
             (consumeNewlines (advance_p (advance_p ps))) [])
          (finish S_THERMODYNAMIC_DATA)
      else if check UNIT_OPERATIONS ps then
        Option.bind
          (statementLoop (\<lambda>p. asStatement UnitOperation (parseUnitOperation p))
             (consumeNewlines (advance_p ps)) [])
          (finish S_UNIT_OPERATIONS)
      else if check PRINT ps then
        Option.bind (parsePrintStatement ps)
          (\<lambda>r. case r of
                 TypeError \<Rightarrow> Some TypeError
               | Ok (stmt, ps1) \<Rightarrow>
                   finish S_PRINT
                     (Ok (case stmt of Some x \<Rightarrow> [PrintStatement x] | None \<Rightarrow> [],
                          consumeNewlines ps1)))
      else Some (Ok (None, advanceLine ps)))"

partial_function (option) sectionLoop ::
  "Parser \<Rightarrow> SectionNode list \<Rightarrow> (SectionNode list \<times> Parser) result option" where
  "sectionLoop ps secs =
     (if \<not> isAtEnd_p ps then
        Option.bind (parseSection ps)
          (\<lambda>r. case r of
                 TypeError \<Rightarrow> Some TypeError
               | Ok (sec, ps1) \<Rightarrow>
                   sectionLoop (skipWhitespaceAndComments ps1)
                     (case sec of Some x \<Rightarrow> secs @ [x] | None \<Rightarrow> secs))
      else Some (Ok (secs, ps)))"

declare componentLoop.simps [code] parameterLoop.simps [code] printParameterLoop.simps [code]
  productLoop.simps [code] unitLoop.simps [code] statementLoop.simps [code]
  sectionLoop.simps [code]

text \<open>\<open>parse()\<close> of \<open>new Parser(tokens)\<close>.\<close>

definition parse :: "Token list \<Rightarrow> ProgramNode result option" where
  "parse toks =
     Option.bind (sectionLoop (skipWhitespaceAndComments (new_Parser toks)) [])
       (\<lambda>r. case r of
              TypeError \<Rightarrow> Some TypeError
            | Ok (secs, ps) \<Rightarrow>
                Some (Ok \<lparr>startLine = 1, endLine = currentLine ps, sections = secs\<rparr>))"

text \<open>The pipeline of the tests: tokenize, parse, build the symbol table.\<close>

definition pipeline :: "jsstring \<Rightarrow> SymbolTable result option" where
  "pipeline src =
     map_option (\<lambda>r. case r of TypeError \<Rightarrow> TypeError
                    | Ok ast \<Rightarrow> Ok (build ast [] new_SymbolTable))
       (parse (tokenize KEYWORDS (new_Lexer src)))"

section \<open>Claims about the parser and the pipeline\<close>

text \<open>
  The example trees of the symbol-table claims are what the parser returns for these
  texts.
\<close>

lemma example_trees_parse:
  "parse (tokenize KEYWORDS (new_Lexer (js ''UNIT\<newline>FLASH FEED X''))) = Some (Ok feedOnlyAst)"
  "parse (tokenize KEYWORDS (new_Lexer (js ''UNIT\<newline>FLASH UID=U\<newline>FLASH UID=U''))) = Some (Ok dupUnitAst)"
  "parse (tokenize KEYWORDS (new_Lexer (js ''UNIT\<newline>FLASH UID=X, FEED X''))) = Some (Ok selfFeedAst)"
  "parse (tokenize KEYWORDS
     (new_Lexer (js ''STREAM DATA\<newline>PROP DATA=Inlet\<newline>UNIT\<newline>FLASH FEED inlet''))) =
   Some (Ok definedFeedAst)"
  "parse (tokenize KEYWORDS (new_Lexer (js ''STREAM DATA\<newline>PROP DATA=K''))) =
   Some (Ok (oneStreamAst (js ''K'')))"
  "parse (tokenize KEYWORDS (new_Lexer (js ''UNIT\<newline>FLASH FEED X\<newline>FLASH UID=X''))) =
   Some (Ok feedThenUnitAst)"
  by code_simp+

text \<open>
  Claim C3, on the code. The pipeline run on the claim's input returns one component
  symbol, with key \<open>,\<close> and library id 1, and neither \<open>C1\<close> nor \<open>C2\<close>:
  \<open>parseComponent\<close> reads the leading \<open>1\<close> as a library id, takes the next token (the
  comma) as the component's identifier, and the loop of the statement stops at \<open>C1\<close>,
  which is not a comma; the rest of the line is skipped.
\<close>

theorem pipeline_component_scenario:
  "pipeline (js ''COMPONENT DATA\<newline>LIBID 1, C1/2, C2/3\<newline>'') =
     Some (Ok \<lparr>symbols =
       [(js '','', \<lparr>sym_name = js '','', kind = K_COMPONENT, definedAt = 2, references = [],
          metadata = Some \<lparr>unitType = None, meta_libid = Some (Num 1),
            componentName = Some (js '',''), propertyLines = [], formula = None, meta_type = None,
            molecularWeight = None\<rparr>\<rparr>)],
       documentText = []\<rparr>)"
  by code_simp

text \<open>
  Claim C4, as amended. On the claim's input the parser returns a program without
  sections: none of the three lines starts a section, so each is skipped, and the
  symbol table built from it is empty.
\<close>

theorem pipeline_flash_scenario:
  "parse (tokenize KEYWORDS
     (new_Lexer (js ''FLASH UID=F-100\<newline>FEED FEED\<newline>PROD VAPOR, LIQUID\<newline>''))) =
     Some (Ok \<lparr>startLine = 1, endLine = 3, sections = []\<rparr>) \<and>
   pipeline (js ''FLASH UID=F-100\<newline>FEED FEED\<newline>PROD VAPOR, LIQUID\<newline>'') =
     Some (Ok \<lparr>symbols = [], documentText = []\<rparr>)"
  by code_simp

text \<open>
  Claim C4 as stated fails: after the pipeline there is no unit symbol, no symbol
  \<open>F-100\<close>, and no stream symbol \<open>FEED\<close>, \<open>VAPOR\<close> or \<open>LIQUID\<close>.
\<close>

theorem pipeline_flash_scenario_counterexample:
  "map_option
     (\<lambda>r. case r of
            TypeError \<Rightarrow> None
          | Ok t \<Rightarrow> Some (getSymbolsByKind t K_UNIT, getSymbol t (js ''F-100''), isDefined t (js ''FEED''),
                          isDefined t (js ''VAPOR''), isDefined t (js ''LIQUID''), getUndefinedSymbols t))
     (pipeline (js ''FLASH UID=F-100\<newline>FEED FEED\<newline>PROD VAPOR, LIQUID\<newline>'')) =
   Some (Some ([], None, False, False, False, []))"
  by code_simp

subsection \<open>Lists and scalars\<close>

lemma check_current:
  "check ty ps \<Longrightarrow>
   p_position ps < length (p_tokens ps) \<and> tok_type (p_tokens ps ! p_position ps) = ty \<and>
   \<not> isAtEnd_p ps"
  by (simp add: check_def isAtEnd_p_def split: if_splits)

lemma parseNumber_check:
  "check ty ps \<Longrightarrow> \<exists>n. parseNumber ps = Ok (n, advance_p ps)"
  by (auto simp: parseNumber_def current_def dest: check_current)

lemma parseIdentifier_check:
  "check ty ps \<Longrightarrow> \<exists>i. parseIdentifier ps = Ok (i, advance_p ps)"
  by (auto simp: parseIdentifier_def current_def dest: check_current)

lemma parseListLoop_returns:
  "\<exists>vals' ps'. parseListLoop ps vals = Ok (vals', ps') \<and> prefix vals vals'"
proof (induction ps vals rule: parseListLoop.induct)
  case (1 ps vals)
  show ?case
  proof (cases "check COMMA ps \<or> check SLASH ps")
    case False
    then show ?thesis by (subst parseListLoop.simps) simp
  next
    case sep: True
    show ?thesis
    proof (cases "check NUMBER (advance_p ps)")
      case True
      then obtain n where n: "parseNumber (advance_p ps) = Ok (n, advance_p (advance_p ps))"
        using parseNumber_check by blast
      from "1.IH"(1) [OF sep True n refl] obtain vals' ps'
        where r: "parseListLoop (advance_p (advance_p ps)) (vals @ [VNumber n]) = Ok (vals', ps')"
          "prefix (vals @ [VNumber n]) vals'"
        by blast
      from r(2) have "prefix vals vals'" by (rule append_prefixD)
      with r(1) sep True n show ?thesis by (subst parseListLoop.simps) simp
    next
      case nn: False
      show ?thesis
      proof (cases "check IDENTIFIER (advance_p ps)")
        case True
        then obtain i where i: "parseIdentifier (advance_p ps) = Ok (i, advance_p (advance_p ps))"
          using parseIdentifier_check by blast
        from "1.IH"(2) [OF sep nn True i refl] obtain vals' ps'
          where r: "parseListLoop (advance_p (advance_p ps)) (vals @ [VIdentifier i]) = Ok (vals', ps')"
            "prefix (vals @ [VIdentifier i]) vals'"
          by blast
        from r(2) have "prefix vals vals'" by (rule append_prefixD)
        with r(1) sep nn True i show ?thesis by (subst parseListLoop.simps) simp
      next
        case False
        with sep nn show ?thesis by (subst parseListLoop.simps) simp
      qed
    qed
  qed
qed

text \<open>
  The claim's condition on a value position: the token under the cursor is a number
  or an identifier, and the token immediately after it is a comma or a slash.
\<close>

definition listPosition :: "Parser \<Rightarrow> bool" where
  "listPosition ps =
     (p_position ps + 1 < length (p_tokens ps) \<and>
      (tok_type (p_tokens ps ! p_position ps) = NUMBER \<or>
       tok_type (p_tokens ps ! p_position ps) = IDENTIFIER) \<and>
      (tok_type (p_tokens ps ! (p_position ps + 1)) = COMMA \<or>
       tok_type (p_tokens ps ! (p_position ps + 1)) = SLASH))"

lemma isListStart_listPosition:
  "p_position ps < length (p_tokens ps) \<Longrightarrow> isListStart ps \<longleftrightarrow> listPosition ps"
  by (auto simp: isListStart_def listPosition_def check_def isAtEnd_p_def peek_p_def
      split: if_splits)

lemma parseList_returns:
  assumes lp: "listPosition ps"
  shows "\<exists>sl el first rest ps'.
           parseList ps =
             Ok (VList sl el (first # rest)
                   (if tok_type (p_tokens ps ! (p_position ps + 1)) = SLASH
                    then SepSlash else SepComma), ps')"
proof -
  from lp have c: "check NUMBER ps \<or> check IDENTIFIER ps"
    by (auto simp: listPosition_def check_def isAtEnd_p_def)
  then have ne: "\<not> isAtEnd_p ps" by (auto dest: check_current)
  have sl: "check SLASH (advance_p ps) \<longleftrightarrow> tok_type (p_tokens ps ! (p_position ps + 1)) = SLASH"
    using lp ne by (auto simp: advance_p_def check_def isAtEnd_p_def listPosition_def)
  obtain v where first:
    "(if check NUMBER ps then
        (case parseNumber ps of TypeError \<Rightarrow> TypeError | Ok (n, ps1) \<Rightarrow> Ok ([VNumber n], ps1))
      else if check IDENTIFIER ps then
        (case parseIdentifier ps of TypeError \<Rightarrow> TypeError
         | Ok (i, ps1) \<Rightarrow> Ok ([VIdentifier i], ps1))
      else Ok ([], ps)) = Ok ([v], advance_p ps)"
  proof (cases "check NUMBER ps")
    case True
    then obtain n where "parseNumber ps = Ok (n, advance_p ps)" using parseNumber_check by blast
    with True that [of "VNumber n"] show ?thesis by simp
  next
    case False
    with c have i: "check IDENTIFIER ps" by simp
    then obtain i where "parseIdentifier ps = Ok (i, advance_p ps)"
      using parseIdentifier_check by blast
    with False i that [of "VIdentifier i"] show ?thesis by simp
  qed
  obtain vals' ps' where loop: "parseListLoop (advance_p ps) [v] = Ok (vals', ps')"
    "prefix [v] vals'"
    using parseListLoop_returns [of "advance_p ps" "[v]"] by blast
  from loop(2) obtain rest where "vals' = v # rest" by (auto simp: prefix_def)
  with loop(1) show ?thesis
    unfolding parseList_def Let_def first by (simp add: sl)
qed

text \<open>
  Claim C9. At every value position (a cursor inside the token array) \<open>parseValue\<close>
  returns a \<open>List\<close> node exactly when the token under the cursor is a number or an
  identifier and the next token is a comma or a slash, and a \<open>Number\<close>, \<open>String\<close> or
  \<open>Identifier\<close> node otherwise. The list holds the first value, and its separator is
  the slash when the token after the first value is a slash and the comma otherwise.
\<close>

theorem parseValue_list_or_scalar:
  assumes "p_position ps < length (p_tokens ps)"
  shows "(listPosition ps \<longrightarrow>
           (\<exists>sl el first rest ps'.
              parseValue ps =
                Ok (VList sl el (first # rest)
                      (if tok_type (p_tokens ps ! (p_position ps + 1)) = SLASH
                       then SepSlash else SepComma), ps'))) \<and>
         (\<not> listPosition ps \<longrightarrow>
           (\<exists>ps'. (\<exists>n. parseValue ps = Ok (VNumber n, ps')) \<or>
                  (\<exists>s. parseValue ps = Ok (VString s, ps')) \<or>
                  (\<exists>i. parseValue ps = Ok (VIdentifier i, ps'))))"
proof (intro conjI impI)
  assume lp: "listPosition ps"
  with assms have "isListStart ps" by (simp add: isListStart_listPosition)
  then have "parseValue ps = parseList ps" by (simp add: parseValue_def)
  with parseList_returns [OF lp]
  show "\<exists>sl el first rest ps'.
              parseValue ps =
                Ok (VList sl el (first # rest)
                      (if tok_type (p_tokens ps ! (p_position ps + 1)) = SLASH
                       then SepSlash else SepComma), ps')"
    by simp
next
  assume "\<not> listPosition ps"
  with assms have nl: "\<not> isListStart ps" by (simp add: isListStart_listPosition)
  from assms have cur: "current ps = Some (p_tokens ps ! p_position ps)"
    by (simp add: current_def)
  show "\<exists>ps'. (\<exists>n. parseValue ps = Ok (VNumber n, ps')) \<or>
                  (\<exists>s. parseValue ps = Ok (VString s, ps')) \<or>
                  (\<exists>i. parseValue ps = Ok (VIdentifier i, ps'))"
    using nl cur
    by (simp add: parseValue_def parseNumber_def parseString_def parseIdentifier_def Let_def)
qed

text \<open>
  The witness: the value positions of \<open>RATE=20/30\<close> and of \<open>TEMP=350\<close> (the cursor on the
  third token of each line).
\<close>

definition resultValue :: "('a \<times> Parser) result \<Rightarrow> 'a option" where
  "resultValue r = (case r of Ok (v, ps) \<Rightarrow> Some v | TypeError \<Rightarrow> None)"

definition listExample :: Parser where
  "listExample = (new_Parser (tokenize KEYWORDS (new_Lexer (js ''RATE=20/30''))))\<lparr>p_position := 2\<rparr>"

definition scalarExample :: Parser where
  "scalarExample = (new_Parser (tokenize KEYWORDS (new_Lexer (js ''TEMP=350''))))\<lparr>p_position := 2\<rparr>"

theorem parseValue_list_or_scalar_witness:
  "p_position listExample < length (p_tokens listExample) \<and> listPosition listExample \<and>
   (\<exists>sl el first rest ps'. parseValue listExample = Ok (VList sl el (first # rest) SepSlash, ps')) \<and>
   resultValue (parseValue listExample) =
     Some (VList 1 1
       [VNumber \<lparr>startLine = 1, endLine = 1, num_value = Num 20, raw = js ''20''\<rparr>,
        VNumber \<lparr>startLine = 1, endLine = 1, num_value = Num 30, raw = js ''30''\<rparr>] SepSlash) \<and>
   p_position scalarExample < length (p_tokens scalarExample) \<and> \<not> listPosition scalarExample \<and>
   (\<exists>ps'. (\<exists>n. parseValue scalarExample = Ok (VNumber n, ps')) \<or>
          (\<exists>s. parseValue scalarExample = Ok (VString s, ps')) \<or>
          (\<exists>i. parseValue scalarExample = Ok (VIdentifier i, ps'))) \<and>
   resultValue (parseValue scalarExample) =
     Some (VNumber \<lparr>startLine = 1, endLine = 1, num_value = Num 350, raw = js ''350''\<rparr>)"
proof -
  have l1: "p_position listExample < length (p_tokens listExample)" by code_simp
  have l2: "listPosition listExample" by code_simp
  have l3: "tok_type (p_tokens listExample ! (p_position listExample + 1)) = SLASH" by code_simp
  have l4: "resultValue (parseValue listExample) =
     Some (VList 1 1
       [VNumber \<lparr>startLine = 1, endLine = 1, num_value = Num 20, raw = js ''20''\<rparr>,
        VNumber \<lparr>startLine = 1, endLine = 1, num_value = Num 30, raw = js ''30''\<rparr>] SepSlash)"
    by code_simp
  have s1: "p_position scalarExample < length (p_tokens scalarExample)" by code_simp
  have s2: "\<not> listPosition scalarExample" by code_simp
  have s4: "resultValue (parseValue scalarExample) =
     Some (VNumber \<lparr>startLine = 1, endLine = 1, num_value = Num 350, raw = js ''350''\<rparr>)"
    by code_simp
  from parseValue_list_or_scalar [OF l1] l2 l3
  have l5: "\<exists>sl el first rest ps'. parseValue listExample = Ok (VList sl el (first # rest) SepSlash, ps')"
    by simp
  from parseValue_list_or_scalar [OF s1] s2
  have s5: "\<exists>ps'. (\<exists>n. parseValue scalarExample = Ok (VNumber n, ps')) \<or>
          (\<exists>s. parseValue scalarExample = Ok (VString s, ps')) \<or>
          (\<exists>i. parseValue scalarExample = Ok (VIdentifier i, ps'))"
    by simp
  from l1 l2 l4 l5 s1 s2 s4 s5 show ?thesis by blast
qed

subsection \<open>Runs that never return\<close>

text \<open>
  A statement loop whose statement parser returns \<open>null\<close> without moving the cursor, at
  a token that neither ends the section nor is skipped, repeats the same iteration for
  ever. \<open>parseUnitOperation\<close> is such a parser at every token that is not a unit
  operation keyword (the other three statement parsers call \<open>advanceLine\<close> there).
\<close>

lemma statementLoop_never_returns:
  assumes "\<not> isAtEnd_p ps" and "\<not> isNextSection ps"
    and "parseStatement ps = Some (Ok (None, ps))" and "skipWhitespaceAndComments ps = ps"
  shows "statementLoop parseStatement ps stmts = None"
proof (rule ccontr)
  assume "statementLoop parseStatement ps stmts \<noteq> None"
  then obtain y where y: "statementLoop parseStatement ps stmts = Some y" by auto
  have "\<not> (\<not> isAtEnd_p ps \<and> \<not> isNextSection ps \<and> parseStatement ps = Some (Ok (None, ps)) \<and>
           skipWhitespaceAndComments ps = ps)"
  proof (rule statementLoop.raw_induct
      [where P = "\<lambda>g p s y. \<not> (\<not> isAtEnd_p p \<and> \<not> isNextSection p \<and> g p = Some (Ok (None, p)) \<and>
           skipWhitespaceAndComments p = p)", OF _ y], goal_cases)
    case (1 f g p s r)
    show ?case
    proof
      assume st: "\<not> isAtEnd_p p \<and> \<not> isNextSection p \<and> g p = Some (Ok (None, p)) \<and>
           skipWhitespaceAndComments p = p"
      with 1(2) have "f g p s = Some r" by simp
      from 1(1) [OF this] st show False by simp
    qed
  qed
  with assms show False by simp
qed

text \<open>
  The loop of \<open>parseUnitOperation\<close> over the rest of the line has no fallback either: at
  a token that starts none of its branches, is not a parameter name and is not a
  comma, nothing is consumed and the iteration repeats.
\<close>

definition unitLoopStuck :: "Parser \<Rightarrow> bool" where
  "unitLoopStuck ps =
     (\<not> isAtEnd_p ps \<and> \<not> check NEWLINE ps \<and> \<not> check CONTINUATION ps \<and> \<not> check UID ps \<and>
      \<not> check FEED ps \<and> \<not> check PROD_KW ps \<and> \<not> check PRODUCT ps \<and>
      parseParameter ps = Ok (None, ps) \<and> \<not> check COMMA ps)"

lemma unitLoop_never_returns:
  assumes "unitLoopStuck ps"
  shows "unitLoop ps acc = None"
proof (rule ccontr)
  assume "unitLoop ps acc \<noteq> None"
  then obtain y where y: "unitLoop ps acc = Some y" by auto
  have "\<not> unitLoopStuck ps"
  proof (rule unitLoop.raw_induct [where P = "\<lambda>p a y. \<not> unitLoopStuck p", OF _ y], goal_cases)
    case (1 f p a r)
    show ?case
    proof
      assume st: "unitLoopStuck p"
      with 1(2) have "f p a = Some r" by (simp add: unitLoopStuck_def consume_def)
      from 1(1) [OF this] st show False by simp
    qed
  qed
  with assms show False by simp
qed

text \<open>
  Claim C1, on the code. The parser does not return on the token sequences of
  \<open>UNIT OPERATIONS\<close> (the section header of the repository's tests: the statement loop
  stays at \<open>OPERATIONS\<close>) and of \<open>UNIT / FLASH UID=F-100\<close> (the loop of
  \<open>parseUnitOperation\<close> stays at the number \<open>-100\<close>).
\<close>

theorem parse_never_returns:
  "parse (tokenize KEYWORDS (new_Lexer (js ''UNIT OPERATIONS''))) = None \<and>
   parse (tokenize KEYWORDS (new_Lexer (js ''UNIT\<newline>FLASH UID=F-100''))) = None"
proof
  let ?p0 = "skipWhitespaceAndComments (new_Parser (tokenize KEYWORDS (new_Lexer (js ''UNIT OPERATIONS''))))"
  let ?p1 = "consumeNewlines (advance_p ?p0)"
  have a: "\<not> isAtEnd_p ?p1" "\<not> isNextSection ?p1"
    "asStatement UnitOperation (parseUnitOperation ?p1) = Some (Ok (None, ?p1))"
    "skipWhitespaceAndComments ?p1 = ?p1"
    by code_simp+
  have loop: "statementLoop (\<lambda>p. asStatement UnitOperation (parseUnitOperation p)) ?p1 [] = None"
    by (rule statementLoop_never_returns) (simp_all add: a)
  have c: "\<not> isAtEnd_p ?p0" "check COMPONENT ?p0 = False" "check STREAM ?p0 = False"
    "check THERMODYNAMIC ?p0 = False" "check UNIT_OPERATIONS ?p0"
    by code_simp+
  have sec: "parseSection ?p0 = None"
    unfolding parseSection_def Let_def by (simp add: c loop)
  have "sectionLoop ?p0 [] = None"
    by (subst sectionLoop.simps) (simp add: c sec)
  then show "parse (tokenize KEYWORDS (new_Lexer (js ''UNIT OPERATIONS''))) = None"
    by (simp add: parse_def)
next
  let ?p0 = "skipWhitespaceAndComments
    (new_Parser (tokenize KEYWORDS (new_Lexer (js ''UNIT\<newline>FLASH UID=F-100''))))"
  let ?p1 = "consumeNewlines (advance_p ?p0)"
  let ?p2 = "advance_p ?p1"
  let ?pE = "advance_p (advance_p ?p2)"
  let ?p3 = "advance_p ?pE"
  let ?acc = "\<lparr>acc_uid = None, acc_parameters = [], acc_feedStreams = [], acc_productStreams = []\<rparr>"
  let ?u = "\<lparr>startLine = 2, endLine = 2, name = js ''F''\<rparr>"
  have b: "\<not> isAtEnd_p ?p2" "check NEWLINE ?p2 = False" "check CONTINUATION ?p2 = False"
    "check UID ?p2" "consume EQUALS (advance_p ?p2) = (True, ?pE)"
    "parseIdentifier ?pE = Ok (?u, ?p3)" "consume COMMA ?p3 = (False, ?p3)"
    by code_simp+
  have s: "unitLoopStuck ?p3"
    by code_simp
  have it: "unitLoop ?p2 ?acc = unitLoop ?p3 (?acc\<lparr>acc_uid := Some ?u\<rparr>)"
    by (subst unitLoop.simps) (simp add: b)
  have ul: "unitLoop ?p2 ?acc = None"
    unfolding it using s by (rule unitLoop_never_returns)
  have d: "current ?p1 = Some \<lparr>tok_type = FLASH, tok_value = js ''FLASH'', tok_line = 2,
      tok_column = 1, tok_length = 5\<rparr>"
    by code_simp
  have pu: "parseUnitOperation ?p1 = None"
    unfolding parseUnitOperation_def Let_def d by (simp add: isUnitOperationType_def ul)
  have a: "\<not> isAtEnd_p ?p1" "\<not> isNextSection ?p1"
    by code_simp+
  have loop: "statementLoop (\<lambda>p. asStatement UnitOperation (parseUnitOperation p)) ?p1 [] = None"
    by (subst statementLoop.simps) (simp add: a pu asStatement_def)
  have c: "\<not> isAtEnd_p ?p0" "check COMPONENT ?p0 = False" "check STREAM ?p0 = False"
    "check THERMODYNAMIC ?p0 = False" "check UNIT_OPERATIONS ?p0"
    by code_simp+
  have sec: "parseSection ?p0 = None"
    unfolding parseSection_def Let_def by (simp add: c loop)
  have "sectionLoop ?p0 [] = None"
    by (subst sectionLoop.simps) (simp add: c sec)
  then show "parse (tokenize KEYWORDS (new_Lexer (js ''UNIT\<newline>FLASH UID=F-100''))) = None"
    by (simp add: parse_def)
qed

end
